theory Spec2Isabelle
  imports Main
begin

section \<open>Declarations queried by the synthesizer\<close>

text \<open>
  The synthesizer of \<^verbatim>\<open>lib/Sema/DerivedConformanceCodable.cpp\<close> reads already parsed
  declarations and builds new ones. The declarations are modelled by the attributes the
  file reads, under the names of the accessors it calls. An empty \<open>Identifier\<close> is the
  empty string, a null pointer is \<open>None\<close>.
\<close>

type_synonym Identifier = string

datatype KnownProtocolKind = Encodable | Decodable | CodingKey

datatype Type = NominalType string | OptionalType Type

fun getOptionalObjectType :: "Type \<Rightarrow> Type option" where
  "getOptionalObjectType (OptionalType t) = Some t"
| "getOptionalObjectType (NominalType n) = None"

datatype PatternBindingDecl = PatternBindingDecl (isDefaultInitializable: bool)

text \<open>
  A \<open>VarDecl\<close>. Of the original wrapped property only the name is read
  (\<open>getVarNameForCoding\<close>); the backing property of a wrapped property is a \<open>VarDecl\<close> again.
\<close>

datatype VarDecl = VarDecl
  (getName: Identifier)
  (getOriginalWrappedProperty: "Identifier option")
  (getPropertyWrapperBackingProperty: "VarDecl option")
  (getValueInterfaceType: Type)
  (isUserAccessible: bool)
  (isStatic: bool)
  (hasStorage: bool)
  (isLet: bool)
  (isParentInitialized: bool)
  (getParentPatternBinding: "PatternBindingDecl option")

text \<open>A \<open>ParamDecl\<close> is a \<open>VarDecl\<close> (its base class) that may carry a default expression.\<close>

datatype ParamDecl = ParamDecl (asVarDecl: VarDecl) (hasDefaultExpr: bool)

text \<open>A \<open>VarDecl *\<close> that may point to a \<open>ParamDecl\<close>, as the values of the map of
  \<open>validateCodingKeysEnum\<close> do.\<close>

datatype VarRef = Var VarDecl | Param ParamDecl

fun theVarDecl :: "VarRef \<Rightarrow> VarDecl" where
  "theVarDecl (Var v) = v"
| "theVarDecl (Param p) = asVarDecl p"

fun dyn_cast_ParamDecl :: "VarRef \<Rightarrow> ParamDecl option" where
  "dyn_cast_ParamDecl (Var v) = None"
| "dyn_cast_ParamDecl (Param p) = Some p"

datatype EnumElementDecl = EnumElementDecl
  (getBaseIdentifier: Identifier)
  (getParameterList: "ParamDecl list option")

definition hasAssociatedValues :: "EnumElementDecl \<Rightarrow> bool" where
  "hasAssociatedValues elt = (getParameterList elt \<noteq> None)"

text \<open>
  An enumeration nested in the target type (a key enumeration). Its members are its cases
  and whatever else is declared in it; \<open>lookupDirect\<close> sees both, \<open>getAllElements\<close> only
  the cases.
\<close>

datatype EnumMember = CaseMember EnumElementDecl | NonCaseMember Identifier

fun getMemberName :: "EnumMember \<Rightarrow> Identifier" where
  "getMemberName (CaseMember e) = getBaseIdentifier e"
| "getMemberName (NonCaseMember n) = n"

fun dyn_cast_EnumElementDecl :: "EnumMember \<Rightarrow> EnumElementDecl option" where
  "dyn_cast_EnumElementDecl (CaseMember e) = Some e"
| "dyn_cast_EnumElementDecl (NonCaseMember n) = None"

record EnumDecl =
  enumName :: Identifier
  enumMembers :: "EnumMember list"
  isImplicit :: bool
  conformsToCodingKey :: bool

definition getAllElements :: "EnumDecl \<Rightarrow> EnumElementDecl list" where
  "getAllElements e = List.map_filter dyn_cast_EnumElementDecl (enumMembers e)"

definition hasCases :: "EnumDecl \<Rightarrow> bool" where
  "hasCases e = (getAllElements e \<noteq> [])"

definition lookupDirect_enum :: "EnumDecl \<Rightarrow> Identifier \<Rightarrow> EnumMember list" where
  "lookupDirect_enum e n = filter (\<lambda>m. getMemberName m = n) (enumMembers e)"

definition addMember_enum :: "EnumDecl \<Rightarrow> EnumElementDecl \<Rightarrow> EnumDecl" where
  "addMember_enum e elt = e\<lparr>enumMembers := enumMembers e @ [CaseMember elt]\<rparr>"

text \<open>An initializer of the superclass: its argument labels are its name
  (\<open>init(from:)\<close> is \<open>[''from'']\<close>, \<open>init()\<close> is \<open>[]\<close>).\<close>

record ConstructorDecl =
  argumentLabels :: "Identifier list"
  isDesignatedInit :: bool
  isAccessibleFrom :: bool
  isFailable :: bool
  hasThrows :: bool

text \<open>The superclass of a class: the protocols it conforms to, and the initializers a
  lookup by name finds on it.\<close>

record SuperclassDecl =
  superclassConformances :: "KnownProtocolKind list"
  superclassInitializers :: "ConstructorDecl list"

datatype AnyNominal = EnumNominal EnumDecl | OtherNominal Identifier bool

datatype AliasedType = AliasedNominal AnyNominal | AliasedNonNominal bool

text \<open>
  The members of the target type. A nested nominal type that is no enumeration carries its
  name and whether it conforms to \<open>CodingKey\<close>; a type alias carries the type it stands for
  (a nominal type, or a type with no nominal declaration and whether that conforms).
\<close>

datatype Decl =
    VarD VarDecl
  | ElementD EnumElementDecl
  | NominalD AnyNominal
  | TypeAliasD Identifier AliasedType
  | OtherD Identifier

fun nominalName :: "AnyNominal \<Rightarrow> Identifier" where
  "nominalName (EnumNominal e) = enumName e"
| "nominalName (OtherNominal n c) = n"

fun declName :: "Decl \<Rightarrow> Identifier" where
  "declName (VarD v) = getName v"
| "declName (ElementD e) = getBaseIdentifier e"
| "declName (NominalD n) = nominalName n"
| "declName (TypeAliasD n t) = n"
| "declName (OtherD n) = n"

datatype NominalKind = StructKind | ClassKind | EnumKind | ProtocolKind

record NominalTypeDecl =
  typeName :: Identifier
  kind :: NominalKind
  members :: "Decl list"
  getSuperclassDecl :: "SuperclassDecl option"
  conformsToEncodable :: bool
  isFinal :: bool

definition lookupDirect :: "NominalTypeDecl \<Rightarrow> Identifier \<Rightarrow> Decl list" where
  "lookupDirect target n = filter (\<lambda>d. declName d = n) (members target)"

definition addMember :: "NominalTypeDecl \<Rightarrow> Decl \<Rightarrow> NominalTypeDecl" where
  "addMember target d = target\<lparr>members := members target @ [d]\<rparr>"

fun storedProperty :: "Decl \<Rightarrow> VarDecl option" where
  "storedProperty (VarD v) = (if hasStorage v \<and> \<not> isStatic v then Some v else None)"
| "storedProperty d = None"

definition getStoredProperties :: "NominalTypeDecl \<Rightarrow> VarDecl list" where
  "getStoredProperties target = List.map_filter storedProperty (members target)"

fun enumElement :: "Decl \<Rightarrow> EnumElementDecl option" where
  "enumElement (ElementD e) = Some e"
| "enumElement d = None"

definition getAllElements_target :: "NominalTypeDecl \<Rightarrow> EnumElementDecl list" where
  "getAllElements_target target = List.map_filter enumElement (members target)"

definition dyn_cast_ClassDecl :: "NominalTypeDecl \<Rightarrow> NominalTypeDecl option" where
  "dyn_cast_ClassDecl target = (if kind target = ClassKind then Some target else None)"

definition dyn_cast_EnumDecl :: "NominalTypeDecl \<Rightarrow> NominalTypeDecl option" where
  "dyn_cast_EnumDecl target = (if kind target = EnumKind then Some target else None)"

text \<open>What stops the compiler: a failed \<open>assert\<close>, \<open>llvm_unreachable\<close>, or the use of a
  null pointer.\<close>

datatype Crash = AssertionFailed string | Unreachable string | NullPointer

abbreviation Id_CodingKeys :: Identifier where "Id_CodingKeys \<equiv> ''CodingKeys''"
abbreviation Id_super :: Identifier where "Id_super \<equiv> ''super''"

section \<open>Names\<close>

fun superclassConformsTo :: "NominalTypeDecl option \<Rightarrow> KnownProtocolKind \<Rightarrow> bool" where
  "superclassConformsTo None kpk = False"
| "superclassConformsTo (Some target) kpk =
     (case getSuperclassDecl target of
        None \<Rightarrow> False
      | Some superclass \<Rightarrow> kpk \<in> set (superclassConformances superclass))"

definition getVarNameForCoding :: "VarDecl \<Rightarrow> Identifier" where
  "getVarNameForCoding var =
     (case getOriginalWrappedProperty var of
        Some originalVar \<Rightarrow> originalVar
      | None \<Rightarrow> getName var)"

section \<open>Key-enumeration synthesis\<close>

text \<open>\<open>TypeChecker::checkConformancesInContext\<close> on a synthesized key enumeration:
  Modelled from the spec: the type checker is not part of the file; the produced
  enumeration "is forcibly given the serialization key-interface capability".\<close>

definition checkConformancesInContext :: "EnumDecl \<Rightarrow> EnumDecl" where
  "checkConformancesInContext e = e\<lparr>conformsToCodingKey := True\<rparr>"

fun addImplicitCodingKeys_enum_loop :: "EnumElementDecl list \<Rightarrow> EnumDecl \<Rightarrow> EnumDecl" where
  "addImplicitCodingKeys_enum_loop [] enumDecl = enumDecl"
| "addImplicitCodingKeys_enum_loop (elementDecl # rest) enumDecl =
     addImplicitCodingKeys_enum_loop rest
       (addMember_enum enumDecl (EnumElementDecl (getBaseIdentifier elementDecl) None))"

definition addImplicitCodingKeys_enum :: "NominalTypeDecl \<Rightarrow> EnumDecl \<times> NominalTypeDecl" where
  "addImplicitCodingKeys_enum target =
     (let enumDecl = \<lparr>enumName = Id_CodingKeys, enumMembers = [], isImplicit = True,
                      conformsToCodingKey = False\<rparr>;
          enumDecl = addImplicitCodingKeys_enum_loop (getAllElements_target target) enumDecl;
          enumDecl = checkConformancesInContext enumDecl
      in (enumDecl, addMember target (NominalD (EnumNominal enumDecl))))"

fun addImplicitCodingKeys_loop :: "VarDecl list \<Rightarrow> EnumDecl \<Rightarrow> EnumDecl" where
  "addImplicitCodingKeys_loop [] enumDecl = enumDecl"
| "addImplicitCodingKeys_loop (varDecl # rest) enumDecl =
     (if \<not> isUserAccessible varDecl then addImplicitCodingKeys_loop rest enumDecl
      else addImplicitCodingKeys_loop rest
             (addMember_enum enumDecl (EnumElementDecl (getVarNameForCoding varDecl) None)))"

definition addImplicitCodingKeys :: "NominalTypeDecl \<Rightarrow> Crash + EnumDecl \<times> NominalTypeDecl" where
  "addImplicitCodingKeys target =
     (if kind target = EnumKind then Inr (addImplicitCodingKeys_enum target)
      else if lookupDirect target Id_CodingKeys \<noteq> []
      then Inl (AssertionFailed ''target->lookupDirect(DeclName(C.Id_CodingKeys)).empty()'')
      else
        let enumDecl = \<lparr>enumName = Id_CodingKeys, enumMembers = [], isImplicit = True,
                        conformsToCodingKey = False\<rparr>;
            classDecl = dyn_cast_ClassDecl target;
            enumDecl =
              (if superclassConformsTo classDecl Encodable \<or> superclassConformsTo classDecl Decodable
               then addMember_enum enumDecl (EnumElementDecl Id_super None)
               else enumDecl);
            enumDecl = addImplicitCodingKeys_loop (getStoredProperties target) enumDecl;
            enumDecl = checkConformancesInContext enumDecl
        in Inr (enumDecl, addMember target (NominalD (EnumNominal enumDecl))))"


section \<open>Diagnostics and the derivation state\<close>

datatype Diagnostic =
    codable_codingkeys_type_does_not_conform_here
  | codable_codingkeys_type_is_not_an_enum_here
  | codable_extraneous_codingkey_case_here Identifier
  | codable_non_conforming_property_here Identifier
  | codable_non_decoded_property_here Identifier
  | decodable_no_super_init_here "Identifier list"
  | decodable_super_init_not_designated_here "Identifier list"
  | decodable_inaccessible_super_init_here "Identifier list"
  | decodable_super_init_is_failable_here "Identifier list"
  | codable_enum_duplicate_case_name_here Identifier
  | codable_enum_duplicate_parameter_name_here Identifier Identifier
  | decodable_property_will_not_be_decoded Identifier
  | decodable_property_init_or_codingkeys_implicit nat Identifier
  | decodable_property_init_or_codingkeys_explicit Identifier
  | decodable_make_property_mutable Identifier
  | type_does_not_conform
  | no_witnesses
  | broken_encodable_requirement
  | broken_decodable_requirement

text \<open>
  A \<open>DerivedConformance\<close>: the type (\<open>Nominal\<close>, to which synthesized members are added), the
  protocol being derived, the conformance check of the type checker on the types of
  members, the result of \<open>checkAndDiagnoseDisallowedContext\<close> (DerivedConformances.h, taken as
  given), and the diagnostics emitted so far (\<open>Context.Diags\<close>).
\<close>

record DerivedConformance =
  Nominal :: NominalTypeDecl
  Protocol :: KnownProtocolKind
  conformsToProtocol :: "Type \<Rightarrow> KnownProtocolKind \<Rightarrow> bool"
  checkAndDiagnoseDisallowedContext :: bool
  Diags :: "Diagnostic list"

definition diagnose :: "Diagnostic \<Rightarrow> DerivedConformance \<Rightarrow> DerivedConformance" where
  "diagnose d derived = derived\<lparr>Diags := Diags derived @ [d]\<rparr>"

section \<open>Identifiers of key enumerations\<close>

text \<open>\<open>std::to_string\<close> on an index.\<close>

definition digit :: "nat \<Rightarrow> char" where
  "digit n = char_of (48 + n)"

function to_string :: "nat \<Rightarrow> string" where
  "to_string n = (if n < 10 then [digit n] else to_string (n div 10) @ [digit (n mod 10)])"
  by pat_completeness auto
termination
  by (relation "measure (\<lambda>n. n)") auto

declare to_string.simps [simp del]

text \<open>\<open>camel_case::appendSentenceCase\<close> (swift/Basic/StringExtras.h, not part of the file):
  Modelled from the spec: the nested enumeration of a case is named "case name + a fixed
  suffix", and the example of the source names the key enumeration of case \<open>bar\<close>
  \<open>BarCodingKeys\<close>: the first letter is put in upper case.\<close>

definition toUpper :: "char \<Rightarrow> char" where
  "toUpper c =
     (let n = (of_char c :: nat) in if 97 \<le> n \<and> n \<le> 122 then char_of (n - 32) else c)"

fun appendSentenceCase :: "string \<Rightarrow> string \<Rightarrow> string" where
  "appendSentenceCase scratch [] = scratch"
| "appendSentenceCase scratch (c # cs) = scratch @ toUpper c # cs"

definition caseCodingKeysIdentifier :: "EnumElementDecl \<Rightarrow> Identifier" where
  "caseCodingKeysIdentifier elt =
     appendSentenceCase (appendSentenceCase [] (getBaseIdentifier elt)) Id_CodingKeys"

section \<open>Lookups\<close>

text \<open>The declarations that are type declarations (\<open>dyn_cast<TypeDecl>\<close>).\<close>

datatype TypeDecl = NominalTD AnyNominal | TypeAliasTD Identifier AliasedType

fun dyn_cast_TypeDecl :: "Decl \<Rightarrow> TypeDecl option" where
  "dyn_cast_TypeDecl (NominalD n) = Some (NominalTD n)"
| "dyn_cast_TypeDecl (TypeAliasD n t) = Some (TypeAliasTD n t)"
| "dyn_cast_TypeDecl d = None"

text \<open>\<open>getDeclaredInterfaceType()->getAnyNominal()\<close> of a type declaration.\<close>

fun getAnyNominal :: "TypeDecl \<Rightarrow> AnyNominal option" where
  "getAnyNominal (NominalTD n) = Some n"
| "getAnyNominal (TypeAliasTD a (AliasedNominal n)) = Some n"
| "getAnyNominal (TypeAliasTD a (AliasedNonNominal c)) = None"

fun dyn_cast_EnumNominal :: "AnyNominal \<Rightarrow> EnumDecl option" where
  "dyn_cast_EnumNominal (EnumNominal e) = Some e"
| "dyn_cast_EnumNominal (OtherNominal n c) = None"

text \<open>\<open>lookupEvaluatedCodingKeysEnum\<close>: \<open>dyn_cast\<close> of a null pointer (an alias of a type
  with no nominal declaration) stops the compiler.\<close>

definition lookupEvaluatedCodingKeysEnum ::
  "NominalTypeDecl \<Rightarrow> Identifier \<Rightarrow> Crash + EnumDecl option" where
  "lookupEvaluatedCodingKeysEnum target identifier =
     (case lookupDirect target identifier of
        [] \<Rightarrow> Inr None
      | codingKeysDecl # _ \<Rightarrow>
          (case codingKeysDecl of
             TypeAliasD a t \<Rightarrow>
               (case getAnyNominal (TypeAliasTD a t) of
                  None \<Rightarrow> Inl NullPointer
                | Some n \<Rightarrow> Inr (dyn_cast_EnumNominal n))
           | NominalD n \<Rightarrow> Inr (dyn_cast_EnumNominal n)
           | _ \<Rightarrow> Inr None))"

definition lookupEnumCase :: "EnumDecl \<Rightarrow> Identifier \<Rightarrow> EnumElementDecl option" where
  "lookupEnumCase target identifier =
     (case lookupDirect_enum target identifier of
        [] \<Rightarrow> None
      | elementDecl # _ \<Rightarrow> dyn_cast_EnumElementDecl elementDecl)"

section \<open>The name-to-member map\<close>

text \<open>An \<open>llvm::SmallMapVector<Identifier, VarDecl *, 8>\<close>: the entries in the order of
  their insertion, one per key.\<close>

type_synonym MapVector = "(Identifier \<times> VarRef) list"

definition mv_find :: "MapVector \<Rightarrow> Identifier \<Rightarrow> VarRef option" where
  "mv_find m k = map_of m k"

definition mv_erase :: "MapVector \<Rightarrow> Identifier \<Rightarrow> MapVector" where
  "mv_erase m k = filter (\<lambda>entry. fst entry \<noteq> k) m"

text \<open>\<open>m[k] = v\<close>\<close>

definition mv_assign :: "MapVector \<Rightarrow> Identifier \<Rightarrow> VarRef \<Rightarrow> MapVector" where
  "mv_assign m k v =
     (if map_of m k = None then m @ [(k, v)]
      else map (\<lambda>entry. if fst entry = k then (k, v) else entry) m)"


section \<open>Validation of a key enumeration\<close>

fun nominalConformsToCodingKey :: "AnyNominal \<Rightarrow> bool" where
  "nominalConformsToCodingKey (EnumNominal e) = conformsToCodingKey e"
| "nominalConformsToCodingKey (OtherNominal n c) = c"

text \<open>\<open>TypeChecker::conformsToProtocol(codingKeysType, codingKeyProto, ...)\<close>\<close>

fun typeConformsToCodingKey :: "TypeDecl \<Rightarrow> bool" where
  "typeConformsToCodingKey (NominalTD n) = nominalConformsToCodingKey n"
| "typeConformsToCodingKey (TypeAliasTD a (AliasedNominal n)) = nominalConformsToCodingKey n"
| "typeConformsToCodingKey (TypeAliasTD a (AliasedNonNominal c)) = c"

text \<open>
  \<open>validateCodingKeysType\<close>. The pointer \<open>codingKeysTypeDecl\<close> is the declaration itself, or
  for an alias the nominal declaration of the aliased type, which may be null; the
  not-an-enum diagnostic is emitted through it.
\<close>

definition validateCodingKeysType ::
  "DerivedConformance \<Rightarrow> TypeDecl \<Rightarrow> Crash + EnumDecl option \<times> DerivedConformance" where
  "validateCodingKeysType derived codingKeysTypeDecl' =
     (let codingKeysTypeDecl = getAnyNominal codingKeysTypeDecl' in
      if \<not> typeConformsToCodingKey codingKeysTypeDecl'
      then Inr (None, diagnose codable_codingkeys_type_does_not_conform_here derived)
      else
        (case Option.bind (getAnyNominal codingKeysTypeDecl') dyn_cast_EnumNominal of
           None \<Rightarrow>
             (case codingKeysTypeDecl of
                None \<Rightarrow> Inl NullPointer
              | Some d \<Rightarrow> Inr (None, diagnose codable_codingkeys_type_is_not_an_enum_here derived))
         | Some codingKeysDecl \<Rightarrow> Inr (Some codingKeysDecl, derived)))"

text \<open>The first loop of \<open>validateCodingKeysEnum\<close>, over the cases of the key enumeration.
  The state is the map of pending members, \<open>varDeclsAreValid\<close> and the diagnostics.\<close>

fun validateCodingKeysEnum_cases ::
  "EnumElementDecl list \<Rightarrow> MapVector \<times> bool \<times> DerivedConformance \<Rightarrow>
     MapVector \<times> bool \<times> DerivedConformance" where
  "validateCodingKeysEnum_cases [] st = st"
| "validateCodingKeysEnum_cases (elt # rest) (varDecls, varDeclsAreValid, derived) =
     (case mv_find varDecls (getBaseIdentifier elt) of
        None \<Rightarrow>
          validateCodingKeysEnum_cases rest
            (varDecls, False,
             diagnose (codable_extraneous_codingkey_case_here (getBaseIdentifier elt)) derived)
      | Some it \<Rightarrow>
          (let target = getValueInterfaceType (theVarDecl it) in
           if \<not> conformsToProtocol derived target (Protocol derived)
           then validateCodingKeysEnum_cases rest
                  (varDecls, False,
                   diagnose (codable_non_conforming_property_here (getName (theVarDecl it))) derived)
           else validateCodingKeysEnum_cases rest
                  (mv_erase varDecls (getBaseIdentifier elt), varDeclsAreValid, derived)))"

text \<open>The second loop, over the members no key covered (run for \<open>Decodable\<close> only).\<close>

fun validateCodingKeysEnum_remaining ::
  "MapVector \<Rightarrow> bool \<times> DerivedConformance \<Rightarrow> bool \<times> DerivedConformance" where
  "validateCodingKeysEnum_remaining [] st = st"
| "validateCodingKeysEnum_remaining (entry # rest) (varDeclsAreValid, derived) =
     (let pbd = getParentPatternBinding (theVarDecl (snd entry)) in
      if (case pbd of None \<Rightarrow> False | Some b \<Rightarrow> isDefaultInitializable b)
      then validateCodingKeysEnum_remaining rest (varDeclsAreValid, derived)
      else if isParentInitialized (theVarDecl (snd entry))
      then validateCodingKeysEnum_remaining rest (varDeclsAreValid, derived)
      else if (case dyn_cast_ParamDecl (snd entry) of
                 None \<Rightarrow> False
               | Some paramDecl \<Rightarrow> hasDefaultExpr paramDecl)
      then validateCodingKeysEnum_remaining rest (varDeclsAreValid, derived)
      else validateCodingKeysEnum_remaining rest
             (False, diagnose (codable_non_decoded_property_here (fst entry)) derived))"

text \<open>\<open>validateCodingKeysEnum(derived, varDecls, codingKeysTypeDecl)\<close>\<close>

definition validateCodingKeysEnum_varDecls ::
  "DerivedConformance \<Rightarrow> MapVector \<Rightarrow> TypeDecl \<Rightarrow> Crash + bool \<times> DerivedConformance" where
  "validateCodingKeysEnum_varDecls derived varDecls codingKeysTypeDecl =
     (case validateCodingKeysType derived codingKeysTypeDecl of
        Inl c \<Rightarrow> Inl c
      | Inr (None, derived) \<Rightarrow> Inr (False, derived)
      | Inr (Some codingKeysDecl, derived) \<Rightarrow>
          (case validateCodingKeysEnum_cases (getAllElements codingKeysDecl)
                  (varDecls, True, derived) of
             (varDecls, varDeclsAreValid, derived) \<Rightarrow>
               if \<not> varDeclsAreValid then Inr (False, derived)
               else if Protocol derived = Decodable
               then Inr (validateCodingKeysEnum_remaining varDecls (varDeclsAreValid, derived))
               else Inr (varDeclsAreValid, derived)))"

fun validateCodingKeysEnum_enum_cases ::
  "Identifier list \<Rightarrow> EnumElementDecl list \<Rightarrow> bool \<times> DerivedConformance \<Rightarrow>
     bool \<times> DerivedConformance" where
  "validateCodingKeysEnum_enum_cases caseNames [] st = st"
| "validateCodingKeysEnum_enum_cases caseNames (elt # rest) (casesAreValid, derived) =
     (if getBaseIdentifier elt \<notin> set caseNames
      then validateCodingKeysEnum_enum_cases caseNames rest
             (False,
              diagnose (codable_extraneous_codingkey_case_here (getBaseIdentifier elt)) derived)
      else validateCodingKeysEnum_enum_cases caseNames rest (casesAreValid, derived))"

definition validateCodingKeysEnum_enum ::
  "DerivedConformance \<Rightarrow> TypeDecl \<Rightarrow> Crash + bool \<times> DerivedConformance" where
  "validateCodingKeysEnum_enum derived codingKeysTypeDecl =
     (case dyn_cast_EnumDecl (Nominal derived) of
        None \<Rightarrow> Inr (False, derived)
      | Some enumDecl \<Rightarrow>
          (let caseNames = map getBaseIdentifier (getAllElements_target enumDecl) in
           case validateCodingKeysType derived codingKeysTypeDecl of
             Inl c \<Rightarrow> Inl c
           | Inr (None, derived) \<Rightarrow> Inr (False, derived)
           | Inr (Some codingKeysDecl, derived) \<Rightarrow>
               Inr (validateCodingKeysEnum_enum_cases caseNames (getAllElements codingKeysDecl)
                      (True, derived))))"

fun properties_loop :: "VarDecl list \<Rightarrow> MapVector \<Rightarrow> MapVector" where
  "properties_loop [] properties = properties"
| "properties_loop (varDecl # rest) properties =
     (if \<not> isUserAccessible varDecl then properties_loop rest properties
      else properties_loop rest (mv_assign properties (getVarNameForCoding varDecl) (Var varDecl)))"

text \<open>\<open>validateCodingKeysEnum(derived)\<close>: looks the key enumeration up, or derives one.\<close>

definition validateCodingKeysEnum :: "DerivedConformance \<Rightarrow> Crash + bool \<times> DerivedConformance" where
  "validateCodingKeysEnum derived =
     (let codingKeysDecls = lookupDirect (Nominal derived) Id_CodingKeys in
      if length codingKeysDecls > 1 then Inr (False, derived)
      else
        (case (case codingKeysDecls of
                 [] \<Rightarrow> map_sum id (\<lambda>(enumDecl, target).
                          (NominalD (EnumNominal enumDecl), derived\<lparr>Nominal := target\<rparr>))
                        (addImplicitCodingKeys (Nominal derived))
               | front # _ \<Rightarrow> Inr (front, derived)) of
           Inl c \<Rightarrow> Inl c
         | Inr (result, derived) \<Rightarrow>
             (case dyn_cast_TypeDecl result of
                None \<Rightarrow>
                  Inr (False, diagnose codable_codingkeys_type_is_not_an_enum_here derived)
              | Some codingKeysTypeDecl \<Rightarrow>
                  if dyn_cast_EnumDecl (Nominal derived) \<noteq> None
                  then validateCodingKeysEnum_enum derived codingKeysTypeDecl
                  else
                    (let properties = properties_loop (getStoredProperties (Nominal derived)) []
                     in validateCodingKeysEnum_varDecls derived properties codingKeysTypeDecl))))"

section \<open>Key enumerations of the cases of a tagged union\<close>

text \<open>The name under which a payload slot is coded: its own, or \<open>_<index>\<close> when it has
  none.\<close>

definition paramIdentifier :: "nat \<Rightarrow> ParamDecl \<Rightarrow> Identifier" where
  "paramIdentifier index paramDecl =
     (let identifier = getVarNameForCoding (asVarDecl paramDecl) in
      if identifier = [] then ''_'' @ to_string index else identifier)"

fun addImplicitCaseCodingKeys_loop :: "nat \<Rightarrow> ParamDecl list \<Rightarrow> EnumDecl \<Rightarrow> EnumDecl" where
  "addImplicitCaseCodingKeys_loop index [] caseEnum = caseEnum"
| "addImplicitCaseCodingKeys_loop index (paramDecl # rest) caseEnum =
     addImplicitCaseCodingKeys_loop (Suc index) rest
       (addMember_enum caseEnum (EnumElementDecl (paramIdentifier index paramDecl) None))"

definition addImplicitCaseCodingKeys ::
  "NominalTypeDecl \<Rightarrow> EnumElementDecl \<Rightarrow> EnumDecl \<Rightarrow> EnumDecl option \<times> NominalTypeDecl" where
  "addImplicitCaseCodingKeys target elementDecl codingKeysEnum =
     (let enumIdentifier = caseCodingKeysIdentifier elementDecl in
      case lookupEnumCase codingKeysEnum (getBaseIdentifier elementDecl) of
        None \<Rightarrow> (None, target)
      | Some codingKeyCase \<Rightarrow>
          (let caseEnum = \<lparr>enumName = enumIdentifier, enumMembers = [], isImplicit = True,
                           conformsToCodingKey = False\<rparr>;
               caseEnum =
                 (case getParameterList elementDecl of
                    None \<Rightarrow> caseEnum
                  | Some params \<Rightarrow> addImplicitCaseCodingKeys_loop 0 params caseEnum);
               caseEnum = checkConformancesInContext caseEnum
           in (Some caseEnum, addMember target (NominalD (EnumNominal caseEnum)))))"

fun caseProperties_loop :: "nat \<Rightarrow> ParamDecl list \<Rightarrow> MapVector \<Rightarrow> MapVector" where
  "caseProperties_loop index [] properties = properties"
| "caseProperties_loop index (paramDecl # rest) properties =
     (if \<not> isUserAccessible (asVarDecl paramDecl)
      then caseProperties_loop (Suc index) rest properties
      else caseProperties_loop (Suc index) rest
             (mv_assign properties (paramIdentifier index paramDecl) (Param paramDecl)))"

text \<open>
  \<open>validateCaseCodingKeysEnum\<close>. When the case has no key enumeration of its own and
  \<open>addImplicitCaseCodingKeys\<close> returns null (the case is no key of \<open>CodingKeys\<close>),
  \<open>dyn_cast<TypeDecl>(result)\<close> is applied to a null pointer.
\<close>

definition validateCaseCodingKeysEnum ::
  "DerivedConformance \<Rightarrow> EnumElementDecl \<Rightarrow> Crash + bool \<times> DerivedConformance" where
  "validateCaseCodingKeysEnum derived elementDecl =
     (case dyn_cast_EnumDecl (Nominal derived) of
        None \<Rightarrow> Inr (False, derived)
      | Some enumDecl \<Rightarrow>
          (case lookupEvaluatedCodingKeysEnum enumDecl Id_CodingKeys of
             Inl c \<Rightarrow> Inl c
           | Inr None \<Rightarrow> Inl (AssertionFailed ''Missing CodingKeys decl.'')
           | Inr (Some codingKeysEnum) \<Rightarrow>
               (let cckIdentifier = caseCodingKeysIdentifier elementDecl;
                    caseCodingKeysDecls = lookupDirect enumDecl cckIdentifier
                in if length caseCodingKeysDecls > 1 then Inr (False, derived)
                   else
                     (case (case caseCodingKeysDecls of
                              [] \<Rightarrow>
                                (case addImplicitCaseCodingKeys enumDecl elementDecl codingKeysEnum of
                                   (caseEnum, target) \<Rightarrow>
                                     (map_option (\<lambda>e. NominalD (EnumNominal e)) caseEnum,
                                      derived\<lparr>Nominal := target\<rparr>))
                            | front # _ \<Rightarrow> (Some front, derived)) of
                        (None, derived) \<Rightarrow> Inl NullPointer
                      | (Some result, derived) \<Rightarrow>
                          (case dyn_cast_TypeDecl result of
                             None \<Rightarrow>
                               Inr (False,
                                    diagnose codable_codingkeys_type_is_not_an_enum_here derived)
                           | Some codingKeysTypeDecl \<Rightarrow>
                               (let properties =
                                      (case getParameterList elementDecl of
                                         None \<Rightarrow> []
                                       | Some params \<Rightarrow> caseProperties_loop 0 params [])
                                in validateCodingKeysEnum_varDecls derived properties
                                     codingKeysTypeDecl))))))"

section \<open>Whether the requirement can be synthesized\<close>

text \<open>The requirement being derived: its base name (that of an initializer, or an
  identifier) and its argument labels.\<close>

datatype DeclBaseName = Constructor | Named Identifier

record ValueDecl =
  getBaseName :: DeclBaseName
  getArgumentNames :: "Identifier list"

definition lookupMember :: "SuperclassDecl \<Rightarrow> Identifier list \<Rightarrow> ConstructorDecl list" where
  "lookupMember superclassDecl memberName =
     filter (\<lambda>c. argumentLabels c = memberName) (superclassInitializers superclassDecl)"

text \<open>The check of the initializer of the superclass at the start of \<open>canSynthesize\<close>: the
  result is whether \<open>canSynthesize\<close> goes on.\<close>

definition canSynthesize_superclass ::
  "DerivedConformance \<Rightarrow> ValueDecl \<Rightarrow> SuperclassDecl \<Rightarrow> Crash + bool \<times> DerivedConformance" where
  "canSynthesize_superclass derived requirement superclassDecl =
     (case (if Protocol derived \<in> set (superclassConformances superclassDecl)
            then (if getBaseName requirement = Constructor
                  then Inr (getArgumentNames requirement)
                  else Inl (AssertionFailed ''cast<ConstructorDecl>(requirement)''))
            else Inr []) of
        Inl c \<Rightarrow> Inl c
      | Inr memberName \<Rightarrow>
          (case lookupMember superclassDecl memberName of
             [] \<Rightarrow> Inr (False, diagnose (decodable_no_super_init_here memberName) derived)
           | [initializer] \<Rightarrow>
               if \<not> isDesignatedInit initializer
               then Inr (False,
                         diagnose (decodable_super_init_not_designated_here memberName) derived)
               else if \<not> isAccessibleFrom initializer
               then Inr (False,
                         diagnose (decodable_inaccessible_super_init_here memberName) derived)
               else if isFailable initializer
               then Inr (False,
                         diagnose (decodable_super_init_is_failable_here memberName) derived)
               else Inr (True, derived)
           | _ \<Rightarrow> Inr (False, derived)))"

text \<open>The loop over the payload slots of one case, which reports the names used twice.
  \<open>params\<close> holds the names inserted so far.\<close>

fun canSynthesize_params ::
  "Identifier \<Rightarrow> nat \<Rightarrow> ParamDecl list \<Rightarrow> Identifier list \<Rightarrow> bool \<times> DerivedConformance \<Rightarrow>
     bool \<times> DerivedConformance" where
  "canSynthesize_params caseName index [] params st = st"
| "canSynthesize_params caseName index (paramDecl # rest) params (allValid, derived) =
     (let identifier = paramIdentifier index paramDecl in
      if identifier \<in> set params
      then canSynthesize_params caseName (Suc index) rest params
             (False,
              diagnose (codable_enum_duplicate_parameter_name_here identifier caseName) derived)
      else canSynthesize_params caseName (Suc index) rest (params @ [identifier])
             (allValid, derived))"

text \<open>The loop over the cases of a tagged union.\<close>

fun canSynthesize_elements ::
  "EnumElementDecl list \<Rightarrow> Identifier list \<Rightarrow> bool \<times> DerivedConformance \<Rightarrow>
     Crash + bool \<times> DerivedConformance" where
  "canSynthesize_elements [] caseNames st = Inr st"
| "canSynthesize_elements (elementDecl # rest) caseNames (allValid, derived) =
     (let duplicate = (getBaseIdentifier elementDecl \<in> set caseNames);
          caseNames = (if duplicate then caseNames else caseNames @ [getBaseIdentifier elementDecl]);
          st = (if duplicate
                then (False,
                      diagnose (codable_enum_duplicate_case_name_here
                                  (getBaseIdentifier elementDecl)) derived)
                else (allValid, derived));
          st = (case getParameterList elementDecl of
                  None \<Rightarrow> st
                | Some params \<Rightarrow>
                    canSynthesize_params (getBaseIdentifier elementDecl) 0 params [] st)
      in if duplicate then canSynthesize_elements rest caseNames st
         else
           (case validateCaseCodingKeysEnum (snd st) elementDecl of
              Inl c \<Rightarrow> Inl c
            | Inr (ok, derived) \<Rightarrow>
                canSynthesize_elements rest caseNames
                  (if \<not> ok then False else fst st, derived)))"

definition canSynthesize ::
  "DerivedConformance \<Rightarrow> ValueDecl \<Rightarrow> Crash + bool \<times> DerivedConformance" where
  "canSynthesize derived requirement =
     (let proto = Protocol derived;
          classDecl = dyn_cast_ClassDecl (Nominal derived)
      in case (case (if proto = Decodable then Option.bind classDecl getSuperclassDecl else None) of
                 None \<Rightarrow> Inr (True, derived)
               | Some superclassDecl \<Rightarrow> canSynthesize_superclass derived requirement superclassDecl) of
           Inl c \<Rightarrow> Inl c
         | Inr (False, derived) \<Rightarrow> Inr (False, derived)
         | Inr (True, derived) \<Rightarrow>
             (case validateCodingKeysEnum derived of
                Inl c \<Rightarrow> Inl c
              | Inr (False, derived) \<Rightarrow> Inr (False, derived)
              | Inr (True, derived) \<Rightarrow>
                  (case dyn_cast_EnumDecl (Nominal derived) of
                     None \<Rightarrow> Inr (True, derived)
                   | Some enumDecl \<Rightarrow>
                       canSynthesize_elements (getAllElements_target enumDecl) []
                         (True, derived))))"

section \<open>Example declarations\<close>

text \<open>A stored, user-accessible, mutable instance property with no initial value.\<close>

definition storedVar :: "Identifier \<Rightarrow> Type \<Rightarrow> VarDecl" where
  "storedVar n t = VarDecl n None None t True False True False False None"

definition TyInt :: Type where "TyInt = NominalType ''Int''"
definition TyString :: Type where "TyString = NominalType ''String''"

text \<open>\<^verbatim>\<open>class Derived : Base { var x: Int; var $hidden: Int; static var s: Int; var y: String? }\<close>
  where \<open>Base\<close> is \<open>Encodable\<close> (not \<open>Decodable\<close>) and has \<open>init()\<close>.\<close>

definition exBase :: SuperclassDecl where
  "exBase = \<lparr>superclassConformances = [Encodable],
             superclassInitializers =
               [\<lparr>argumentLabels = [], isDesignatedInit = True, isAccessibleFrom = True,
                 isFailable = False, hasThrows = False\<rparr>]\<rparr>"

definition exDerived :: NominalTypeDecl where
  "exDerived =
     \<lparr>typeName = ''Derived'', kind = ClassKind,
      members =
        [VarD (storedVar ''x'' TyInt),
         VarD (VarDecl ''$hidden'' None None TyInt False False True False False None),
         VarD (VarDecl ''s'' None None TyInt True True True False False None),
         VarD (storedVar ''y'' (OptionalType TyString))],
      getSuperclassDecl = Some exBase, conformsToEncodable = True, isFinal = False\<rparr>"

section \<open>The generated code\<close>

text \<open>
  The nodes the synthesizer builds, by the names of their classes. A reference to a
  declaration is the name of the declaration; source locations and implicit flags are left
  out.
\<close>

datatype DeclName = SimpleDeclName DeclBaseName | CompoundDeclName DeclBaseName "Identifier list"

datatype TypeRepr = DeclaredType Identifier | InterfaceType Type

datatype Expr =
    DeclRefExpr Identifier
  | TypeExpr TypeRepr
  | DotSelfExpr Expr
  | MemberRefExpr Expr Identifier
  | UnresolvedDotExpr Expr DeclName
  | UnresolvedDeclRefExpr Identifier
  | DotSyntaxCallExpr Expr Expr
  | CallExpr Expr "Expr list" "Identifier list"
  | TryExpr Expr
  | AssignExpr Expr Expr
  | StringLiteralExpr string
  | IntegerLiteralExpr nat
  | NilLiteralExpr
  | SuperRefExpr
  | TupleExpr "Expr list"
  | BinaryExpr Expr Expr
  | TypeCheckedDefaultExpr ParamDecl

datatype Pattern =
    NamedPattern Identifier
  | TuplePattern "(Identifier \<times> Pattern) list"
  | EnumElementPattern TypeRepr Identifier "Pattern option"
  | OptionalSomePattern Pattern

datatype ContainerBase = KeyedEncodingContainer | KeyedDecodingContainer

datatype Introducer = IntroducerLet | IntroducerVar

text \<open>The variable of a container: \<open>var/let identifier : containerBase<keyType>\<close>.\<close>

record ContainerVarDecl =
  containerIdentifier :: Identifier
  containerBase :: ContainerBase
  containerKeyType :: Identifier
  containerIntroducer :: Introducer

text \<open>A variable bound by the pattern of a case: its name and its type.\<close>

datatype BoundVar = BoundVar (boundName: Identifier) (boundType: Type)

datatype ASTNode =
    ExprNode Expr
  | PatternBindingNode Pattern Expr
  | VarDeclNode ContainerVarDecl
  | ThrowStmt Expr
  | GuardStmt Expr "ASTNode list"
  | SwitchStmt Expr "CaseStmt list"
and CaseStmt =
    CaseStmt (caseLabel: Pattern) (caseBody: "ASTNode list") (caseBodyVarDecls: "BoundVar list option")

abbreviation Id_container :: Identifier where "Id_container \<equiv> ''container''"
abbreviation Id_nestedContainer :: Identifier where "Id_nestedContainer \<equiv> ''nestedContainer''"
abbreviation Id_keyedBy :: Identifier where "Id_keyedBy \<equiv> ''keyedBy''"
abbreviation Id_forKey :: Identifier where "Id_forKey \<equiv> ''forKey''"
abbreviation Id_codingPath :: Identifier where "Id_codingPath \<equiv> ''codingPath''"
abbreviation Id_debugDescription :: Identifier where "Id_debugDescription \<equiv> ''debugDescription''"
abbreviation Id_underlyingError :: Identifier where "Id_underlyingError \<equiv> ''underlyingError''"
abbreviation Id_typeMismatch :: Identifier where "Id_typeMismatch \<equiv> ''typeMismatch''"
abbreviation Id_invalidValue :: Identifier where "Id_invalidValue \<equiv> ''invalidValue''"
abbreviation Id_encode :: Identifier where "Id_encode \<equiv> ''encode''"
abbreviation Id_encodeIfPresent :: Identifier where "Id_encodeIfPresent \<equiv> ''encodeIfPresent''"
abbreviation Id_decode :: Identifier where "Id_decode \<equiv> ''decode''"
abbreviation Id_decodeIfPresent :: Identifier where "Id_decodeIfPresent \<equiv> ''decodeIfPresent''"
abbreviation Id_superEncoder :: Identifier where "Id_superEncoder \<equiv> ''superEncoder''"
abbreviation Id_superDecoder :: Identifier where "Id_superDecoder \<equiv> ''superDecoder''"
abbreviation Id_to :: Identifier where "Id_to \<equiv> ''to''"
abbreviation Id_from :: Identifier where "Id_from \<equiv> ''from''"
abbreviation Id_allKeys :: Identifier where "Id_allKeys \<equiv> ''allKeys''"
abbreviation Id_count :: Identifier where "Id_count \<equiv> ''count''"
abbreviation Id_first :: Identifier where "Id_first \<equiv> ''first''"
abbreviation Id_self :: Identifier where "Id_self \<equiv> ''self''"
abbreviation Id_encoder :: Identifier where "Id_encoder \<equiv> ''encoder''"
abbreviation Id_decoder :: Identifier where "Id_decoder \<equiv> ''decoder''"

text \<open>\<open>createKeyedContainer\<close>, with and without an identifier.\<close>

definition createKeyedContainer_named ::
  "ContainerBase \<Rightarrow> EnumDecl \<Rightarrow> Introducer \<Rightarrow> Identifier \<Rightarrow> ContainerVarDecl" where
  "createKeyedContainer_named keyedContainerDecl keyType introducer identifier =
     \<lparr>containerIdentifier = identifier, containerBase = keyedContainerDecl,
      containerKeyType = enumName keyType, containerIntroducer = introducer\<rparr>"

definition createKeyedContainer ::
  "ContainerBase \<Rightarrow> EnumDecl \<Rightarrow> Introducer \<Rightarrow> ContainerVarDecl" where
  "createKeyedContainer keyedContainerDecl keyType introducer =
     createKeyedContainer_named keyedContainerDecl keyType introducer Id_container"

text \<open>\<open>base.container(keyedBy: CodingKeys.self)\<close>\<close>

definition createContainerKeyedByCall :: "Expr \<Rightarrow> EnumDecl \<Rightarrow> Expr" where
  "createContainerKeyedByCall base param =
     (let unboundCall = UnresolvedDotExpr base (CompoundDeclName (Named Id_container) [Id_keyedBy]);
          codingKeysExpr = TypeExpr (DeclaredType (enumName param));
          codingKeysMetaTypeExpr = DotSelfExpr codingKeysExpr
      in CallExpr unboundCall [codingKeysMetaTypeExpr] [Id_keyedBy])"

text \<open>\<open>base.nestedContainer(keyedBy: CodingKeys.self, forKey: key)\<close>; \<open>parentEnum\<close> is
  \<open>key->getParentEnum()\<close>.\<close>

definition createNestedContainerKeyedByForKeyCall ::
  "Expr \<Rightarrow> EnumDecl \<Rightarrow> EnumDecl \<Rightarrow> EnumElementDecl \<Rightarrow> Expr" where
  "createNestedContainerKeyedByForKeyCall base codingKeysType parentEnum key =
     (let argNames = [Id_keyedBy, Id_forKey];
          unboundCall = UnresolvedDotExpr base (CompoundDeclName (Named Id_nestedContainer) argNames);
          codingKeysExpr = TypeExpr (DeclaredType (enumName codingKeysType));
          codingKeysMetaTypeExpr = DotSelfExpr codingKeysExpr;
          metaTyRef = TypeExpr (DeclaredType (enumName parentEnum));
          keyExpr = MemberRefExpr metaTyRef (getBaseIdentifier key)
      in CallExpr unboundCall [codingKeysMetaTypeExpr, keyExpr] argNames)"

text \<open>The declarations \<open>DecodingError\<close>, \<open>EncodingError\<close> and their nested \<open>Context\<close> come
  from the standard library and are taken to be there (the source asserts it).\<close>

definition createContextInitCall :: "Identifier \<Rightarrow> Expr \<Rightarrow> Expr \<Rightarrow> Expr" where
  "createContextInitCall contextDecl containerExpr debugMessage =
     (let contextTypeExpr = TypeExpr (DeclaredType contextDecl);
          labels = [Id_codingPath, Id_debugDescription, Id_underlyingError];
          contextInitCall = UnresolvedDotExpr contextTypeExpr (CompoundDeclName Constructor labels);
          codingPathExpr = UnresolvedDotExpr containerExpr (SimpleDeclName (Named Id_codingPath))
      in CallExpr contextInitCall [codingPathExpr, debugMessage, NilLiteralExpr] labels)"

definition createThrowDecodingErrorTypeMismatchStmt ::
  "NominalTypeDecl \<Rightarrow> Expr \<Rightarrow> Expr \<Rightarrow> ASTNode" where
  "createThrowDecodingErrorTypeMismatchStmt targetDecl containerExpr debugMessage =
     (let contextInitCallExpr =
            createContextInitCall ''DecodingError.Context'' containerExpr debugMessage;
          decodingErrorTypeExpr = TypeExpr (DeclaredType ''DecodingError'');
          decodingErrorCall =
            UnresolvedDotExpr decodingErrorTypeExpr (CompoundDeclName (Named Id_typeMismatch) [[], []]);
          targetType = TypeExpr (DeclaredType (typeName targetDecl));
          targetTypeExpr = DotSelfExpr targetType;
          decodingErrorCallExpr =
            CallExpr decodingErrorCall [targetTypeExpr, contextInitCallExpr] [[], []]
      in ThrowStmt decodingErrorCallExpr)"

definition createThrowEncodingErrorInvalidValueStmt :: "Expr \<Rightarrow> Expr \<Rightarrow> Expr \<Rightarrow> ASTNode" where
  "createThrowEncodingErrorInvalidValueStmt valueExpr containerExpr debugMessage =
     (let contextInitCallExpr =
            createContextInitCall ''EncodingError.Context'' containerExpr debugMessage;
          decodingErrorTypeExpr = TypeExpr (DeclaredType ''EncodingError'');
          decodingErrorCall =
            UnresolvedDotExpr decodingErrorTypeExpr (CompoundDeclName (Named Id_invalidValue) [[], []]);
          decodingErrorCallExpr =
            CallExpr decodingErrorCall [valueExpr, contextInitCallExpr] [[], []]
      in ThrowStmt decodingErrorCallExpr)"

text \<open>\<open>lookupVarDeclForCodingKeysCase\<close>: the loop over the declarations of the name of the
  key; \<open>llvm_unreachable\<close> when none is a non-static property.\<close>

fun lookupVarDeclForCodingKeysCase_loop :: "Decl list \<Rightarrow> Crash + VarDecl \<times> Type \<times> bool" where
  "lookupVarDeclForCodingKeysCase_loop [] =
     Inl (Unreachable ''Should have found at least 1 var decl'')"
| "lookupVarDeclForCodingKeysCase_loop (VarD vd # rest) =
     (let vd = (case getPropertyWrapperBackingProperty vd of
                  Some backingVar \<Rightarrow> backingVar
                | None \<Rightarrow> vd)
      in if \<not> isStatic vd
         then (let varType = getValueInterfaceType vd in
               case getOptionalObjectType varType of
                 Some objType \<Rightarrow> Inr (vd, objType, True)
               | None \<Rightarrow> Inr (vd, varType, False))
         else lookupVarDeclForCodingKeysCase_loop rest)"
| "lookupVarDeclForCodingKeysCase_loop (decl # rest) = lookupVarDeclForCodingKeysCase_loop rest"

definition lookupVarDeclForCodingKeysCase ::
  "EnumElementDecl \<Rightarrow> NominalTypeDecl \<Rightarrow> Crash + VarDecl \<times> Type \<times> bool" where
  "lookupVarDeclForCodingKeysCase elt targetDecl =
     lookupVarDeclForCodingKeysCase_loop (lookupDirect targetDecl (getBaseIdentifier elt))"

section \<open>The body of \<open>encode(to:)\<close>\<close>

text \<open>A synthesized body is the list of its statements, with the diagnostics emitted
  while it is built.\<close>

type_synonym SynthesizedBody = "Crash + ASTNode list \<times> Diagnostic list"

fun deriveBodyEncodable_encode_loop ::
  "NominalTypeDecl \<Rightarrow> EnumDecl \<Rightarrow> Expr \<Rightarrow> EnumElementDecl list \<Rightarrow> ASTNode list \<Rightarrow>
     Crash + ASTNode list" where
  "deriveBodyEncodable_encode_loop targetDecl codingKeysEnum containerExpr [] statements =
     Inr statements"
| "deriveBodyEncodable_encode_loop targetDecl codingKeysEnum containerExpr (elt # rest) statements =
     (case lookupVarDeclForCodingKeysCase elt targetDecl of
        Inl c \<Rightarrow> Inl c
      | Inr (varDecl, varType, useIfPresentVariant) \<Rightarrow>
          (let selfRef = DeclRefExpr Id_self;
               varExpr = MemberRefExpr selfRef (getName varDecl);
               metaTyRef = TypeExpr (DeclaredType (enumName codingKeysEnum));
               keyExpr = MemberRefExpr metaTyRef (getBaseIdentifier elt);
               methodName = (if useIfPresentVariant then Id_encodeIfPresent else Id_encode);
               argNames = [[], Id_forKey];
               encodeCall =
                 UnresolvedDotExpr containerExpr (CompoundDeclName (Named methodName) argNames);
               callExpr = CallExpr encodeCall [varExpr, keyExpr] argNames;
               tryExpr = TryExpr callExpr
           in deriveBodyEncodable_encode_loop targetDecl codingKeysEnum containerExpr rest
                (statements @ [ExprNode tryExpr])))"

definition deriveBodyEncodable_encode :: "NominalTypeDecl \<Rightarrow> SynthesizedBody" where
  "deriveBodyEncodable_encode targetDecl =
     (case lookupEvaluatedCodingKeysEnum targetDecl Id_CodingKeys of
        Inl c \<Rightarrow> Inl c
      | Inr None \<Rightarrow> Inl (AssertionFailed ''Missing CodingKeys decl.'')
      | Inr (Some codingKeysEnum) \<Rightarrow>
          (let containerDecl = createKeyedContainer KeyedEncodingContainer codingKeysEnum IntroducerVar;
               containerExpr = DeclRefExpr (containerIdentifier containerDecl);
               encoderExpr = DeclRefExpr Id_encoder;
               callExpr = createContainerKeyedByCall encoderExpr codingKeysEnum;
               containerPattern = NamedPattern (containerIdentifier containerDecl);
               bindingDecl = PatternBindingNode containerPattern callExpr;
               statements = [bindingDecl, VarDeclNode containerDecl]
           in case deriveBodyEncodable_encode_loop targetDecl codingKeysEnum containerExpr
                     (getAllElements codingKeysEnum) statements of
                Inl c \<Rightarrow> Inl c
              | Inr statements \<Rightarrow>
                  if superclassConformsTo (dyn_cast_ClassDecl targetDecl) Encodable
                  then
                    (let method = UnresolvedDeclRefExpr Id_superEncoder;
                         superEncoderRef = DotSyntaxCallExpr containerExpr method;
                         encodeDeclRef = DeclRefExpr Id_encode;
                         superRef = SuperRefExpr;
                         encodeCall = DotSyntaxCallExpr superRef encodeDeclRef;
                         callExpr = CallExpr encodeCall [superEncoderRef] [Id_to];
                         tryExpr = TryExpr callExpr
                     in Inr (statements @ [ExprNode tryExpr], []))
                  else Inr (statements, [])))"

text \<open>\<open>DerivedConformance::enumElementPayloadSubpattern\<close> (DerivedConformances.h, not part
  of the file): Modelled from the spec: the payload slots of a case are an ordered list of
  members; the pattern binds one variable per slot, named by the prefix and the index of
  the slot, of the type of the slot, and there is no pattern for a case without payload.\<close>

fun payloadVars_from :: "string \<Rightarrow> nat \<Rightarrow> ParamDecl list \<Rightarrow> BoundVar list" where
  "payloadVars_from varPrefix index [] = []"
| "payloadVars_from varPrefix index (paramDecl # rest) =
     BoundVar (varPrefix @ to_string index) (getValueInterfaceType (asVarDecl paramDecl)) #
     payloadVars_from varPrefix (Suc index) rest"

definition enumElementPayloadSubpattern ::
  "EnumElementDecl \<Rightarrow> string \<Rightarrow> Pattern option \<times> BoundVar list" where
  "enumElementPayloadSubpattern elt varPrefix =
     (case getParameterList elt of
        None \<Rightarrow> (None, [])
      | Some params \<Rightarrow>
          (let boundVars = payloadVars_from varPrefix 0 params
           in (Some (TuplePattern
                       (map (\<lambda>(paramDecl, v). (getName (asVarDecl paramDecl), NamedPattern (boundName v)))
                          (zip params boundVars))),
               boundVars)))"

text \<open>The loop over the payload variables of one case of \<open>deriveBodyEncodable_enum_encode\<close>.\<close>

fun deriveBodyEncodable_enum_encode_payload ::
  "EnumDecl \<Rightarrow> nat \<Rightarrow> (BoundVar \<times> ParamDecl) list \<Rightarrow> ASTNode list \<Rightarrow> ASTNode list" where
  "deriveBodyEncodable_enum_encode_payload caseCodingKeys index [] caseStatements = caseStatements"
| "deriveBodyEncodable_enum_encode_payload caseCodingKeys index ((payloadVar, paramDecl) # rest)
     caseStatements =
     (let nestedContainerExpr = DeclRefExpr Id_nestedContainer;
          payloadVarRef = DeclRefExpr (boundName payloadVar);
          caseCodingKeysIdentifier = paramIdentifier index paramDecl
      in case lookupEnumCase caseCodingKeys caseCodingKeysIdentifier of
           None \<Rightarrow>
             deriveBodyEncodable_enum_encode_payload caseCodingKeys (Suc index) rest caseStatements
         | Some caseCodingKey \<Rightarrow>
             (let varType = boundType payloadVar;
                  useIfPresentVariant = (getOptionalObjectType varType \<noteq> None);
                  metaTyRef = TypeExpr (DeclaredType (enumName caseCodingKeys));
                  keyExpr = MemberRefExpr metaTyRef (getBaseIdentifier caseCodingKey);
                  methodName = (if useIfPresentVariant then Id_encodeIfPresent else Id_encode);
                  argNames = [[], Id_forKey];
                  encodeCall =
                    UnresolvedDotExpr nestedContainerExpr
                      (CompoundDeclName (Named methodName) argNames);
                  callExpr = CallExpr encodeCall [payloadVarRef, keyExpr] argNames;
                  tryExpr = TryExpr callExpr
              in deriveBodyEncodable_enum_encode_payload caseCodingKeys (Suc index) rest
                   (caseStatements @ [ExprNode tryExpr])))"

text \<open>The message of the error thrown for a case that is no key of \<open>CodingKeys\<close>.\<close>

definition notDefinedInCodingKeysMessage :: "EnumElementDecl \<Rightarrow> string" where
  "notDefinedInCodingKeysMessage elt =
     ''Case '' @ [CHR 0x27] @ getBaseIdentifier elt @ [CHR 0x27] @
     '' cannot be decoded because it is not defined in CodingKeys.''"

text \<open>The statements of the branch of one case.\<close>

definition deriveBodyEncodable_enum_encode_case ::
  "NominalTypeDecl \<Rightarrow> EnumDecl \<Rightarrow> Expr \<Rightarrow> EnumElementDecl \<Rightarrow> BoundVar list \<Rightarrow>
     Crash + ASTNode list" where
  "deriveBodyEncodable_enum_encode_case enumDecl codingKeysEnum containerExpr elt payloadVars =
     (case lookupEnumCase codingKeysEnum (getBaseIdentifier elt) of
        None \<Rightarrow>
          (let debugMessage = StringLiteralExpr (notDefinedInCodingKeysMessage elt);
               selfRefExpr = DeclRefExpr Id_self;
               throwStmt =
                 createThrowEncodingErrorInvalidValueStmt selfRefExpr containerExpr debugMessage
           in Inr [throwStmt])
      | Some codingKeyCase \<Rightarrow>
          (let caseIdentifier = caseCodingKeysIdentifier elt in
           case lookupEvaluatedCodingKeysEnum enumDecl caseIdentifier of
             Inl c \<Rightarrow> Inl c
           | Inr None \<Rightarrow> Inl NullPointer
           | Inr (Some caseCodingKeys) \<Rightarrow>
               (let nestedContainerDecl =
                      createKeyedContainer_named KeyedEncodingContainer caseCodingKeys
                        IntroducerVar Id_nestedContainer;
                    nestedContainerCall =
                      createNestedContainerKeyedByForKeyCall containerExpr caseCodingKeys
                        codingKeysEnum codingKeyCase;
                    containerPattern = NamedPattern (containerIdentifier nestedContainerDecl);
                    bindingDecl = PatternBindingNode containerPattern nestedContainerCall;
                    caseStatements = [bindingDecl, VarDeclNode nestedContainerDecl]
                in Inr (deriveBodyEncodable_enum_encode_payload caseCodingKeys 0
                          (zip payloadVars (case getParameterList elt of None \<Rightarrow> [] | Some ps \<Rightarrow> ps))
                          caseStatements))))"

fun deriveBodyEncodable_enum_encode_loop ::
  "NominalTypeDecl \<Rightarrow> EnumDecl \<Rightarrow> Expr \<Rightarrow> EnumElementDecl list \<Rightarrow> CaseStmt list \<Rightarrow>
     Crash + CaseStmt list" where
  "deriveBodyEncodable_enum_encode_loop enumDecl codingKeysEnum containerExpr [] cases = Inr cases"
| "deriveBodyEncodable_enum_encode_loop enumDecl codingKeysEnum containerExpr (elt # rest) cases =
     (case enumElementPayloadSubpattern elt ''a'' of
        (subpattern, payloadVars) \<Rightarrow>
          (let hasBoundDecls = (payloadVars \<noteq> []);
               caseBodyVarDecls = (if hasBoundDecls then Some payloadVars else None)
           in case deriveBodyEncodable_enum_encode_case enumDecl codingKeysEnum containerExpr elt
                     payloadVars of
                Inl c \<Rightarrow> Inl c
              | Inr caseStatements \<Rightarrow>
                  (let pat = EnumElementPattern (DeclaredType (typeName enumDecl))
                               (getBaseIdentifier elt) subpattern;
                       body = caseStatements
                   in deriveBodyEncodable_enum_encode_loop enumDecl codingKeysEnum containerExpr
                        rest (cases @ [CaseStmt pat body caseBodyVarDecls]))))"

definition deriveBodyEncodable_enum_encode :: "NominalTypeDecl \<Rightarrow> SynthesizedBody" where
  "deriveBodyEncodable_enum_encode enumDecl =
     (case lookupEvaluatedCodingKeysEnum enumDecl Id_CodingKeys of
        Inl c \<Rightarrow> Inl c
      | Inr None \<Rightarrow> Inl (AssertionFailed ''Missing CodingKeys decl.'')
      | Inr (Some codingKeysEnum) \<Rightarrow>
          (let containerDecl = createKeyedContainer KeyedEncodingContainer codingKeysEnum IntroducerVar;
               containerExpr = DeclRefExpr (containerIdentifier containerDecl);
               encoderExpr = DeclRefExpr Id_encoder;
               callExpr = createContainerKeyedByCall encoderExpr codingKeysEnum;
               containerPattern = NamedPattern (containerIdentifier containerDecl);
               bindingDecl = PatternBindingNode containerPattern callExpr;
               statements = [bindingDecl, VarDeclNode containerDecl]
           in case deriveBodyEncodable_enum_encode_loop enumDecl codingKeysEnum containerExpr
                     (getAllElements_target enumDecl) [] of
                Inl c \<Rightarrow> Inl c
              | Inr cases \<Rightarrow>
                  (let enumRef = DeclRefExpr Id_self;
                       switchStmt = SwitchStmt enumRef cases
                   in Inr (statements @ [switchStmt], []))))"

section \<open>The body of \<open>init(from:)\<close>\<close>

text \<open>The diagnostics for an immutable property with an initial value, which is not
  decoded.\<close>

definition willNotBeDecodedDiagnostics ::
  "NominalTypeDecl \<Rightarrow> EnumDecl \<Rightarrow> VarDecl \<Rightarrow> Diagnostic list" where
  "willNotBeDecodedDiagnostics targetDecl codingKeysEnum varDecl =
     (let lookupResult = lookupDirect_enum codingKeysEnum (getName varDecl);
          keyExistsInCodingKeys =
            list_ex (\<lambda>VD. case dyn_cast_EnumElementDecl VD of
                            Some e \<Rightarrow> getMemberName VD = getName varDecl
                          | None \<Rightarrow> False) lookupResult;
          conformsToEncodable = conformsToEncodable targetDecl
      in if \<not> isImplicit codingKeysEnum \<and> (conformsToEncodable \<or> \<not> keyExistsInCodingKeys)
         then []
         else
           [decodable_property_will_not_be_decoded (getName varDecl)] @
           (if isImplicit codingKeysEnum
            then [decodable_property_init_or_codingkeys_implicit
                    (if conformsToEncodable then 0 else 1) (getName varDecl)]
            else [decodable_property_init_or_codingkeys_explicit (getName varDecl)]) @
           (case getParentPatternBinding varDecl of
              Some PBD \<Rightarrow> [decodable_make_property_mutable (getName varDecl)]
            | None \<Rightarrow> []))"

fun deriveBodyDecodable_init_loop ::
  "NominalTypeDecl \<Rightarrow> EnumDecl \<Rightarrow> Expr \<Rightarrow> EnumElementDecl list \<Rightarrow>
     ASTNode list \<times> Diagnostic list \<Rightarrow> Crash + ASTNode list \<times> Diagnostic list" where
  "deriveBodyDecodable_init_loop targetDecl codingKeysEnum containerExpr [] st = Inr st"
| "deriveBodyDecodable_init_loop targetDecl codingKeysEnum containerExpr (elt # rest)
     (statements, diags) =
     (case lookupVarDeclForCodingKeysCase elt targetDecl of
        Inl c \<Rightarrow> Inl c
      | Inr (varDecl, varType, useIfPresentVariant) \<Rightarrow>
          if isLet varDecl \<and> isParentInitialized varDecl
          then deriveBodyDecodable_init_loop targetDecl codingKeysEnum containerExpr rest
                 (statements, diags @ willNotBeDecodedDiagnostics targetDecl codingKeysEnum varDecl)
          else
            (let methodName = (if useIfPresentVariant then Id_decodeIfPresent else Id_decode);
                 metaTyRef = TypeExpr (InterfaceType varType);
                 targetExpr = DotSelfExpr metaTyRef;
                 metaTyRef = TypeExpr (DeclaredType (enumName codingKeysEnum));
                 keyExpr = MemberRefExpr metaTyRef (getBaseIdentifier elt);
                 argNames = [[], Id_forKey];
                 decodeCall =
                   UnresolvedDotExpr containerExpr (CompoundDeclName (Named methodName) argNames);
                 callExpr = CallExpr decodeCall [targetExpr, keyExpr] argNames;
                 tryExpr = TryExpr callExpr;
                 selfRef = DeclRefExpr Id_self;
                 varExpr = UnresolvedDotExpr selfRef (SimpleDeclName (Named (getName varDecl)));
                 assignExpr = AssignExpr varExpr tryExpr
             in deriveBodyDecodable_init_loop targetDecl codingKeysEnum containerExpr rest
                  (statements @ [ExprNode assignExpr], diags)))"

text \<open>The call of the initializer of the superclass that ends the body for a class with
  a superclass.\<close>

definition deriveBodyDecodable_init_super ::
  "NominalTypeDecl \<Rightarrow> Expr \<Rightarrow> Crash + ASTNode list" where
  "deriveBodyDecodable_init_super targetDecl containerExpr =
     (case dyn_cast_ClassDecl targetDecl of
        None \<Rightarrow> Inr []
      | Some classDecl \<Rightarrow>
          (case getSuperclassDecl classDecl of
             None \<Rightarrow> Inr []
           | Some superclassDecl \<Rightarrow>
               if superclassConformsTo (Some classDecl) Decodable
               then
                 (let superDecoderRef =
                        UnresolvedDotExpr containerExpr (SimpleDeclName (Named Id_superDecoder));
                      superDecoderCall = CallExpr superDecoderRef [] [];
                      superRef = SuperRefExpr;
                      initCall = UnresolvedDotExpr superRef (CompoundDeclName Constructor [Id_from]);
                      callExpr = CallExpr initCall [superDecoderCall] [Id_from];
                      tryExpr = TryExpr callExpr
                  in Inr [ExprNode tryExpr])
               else
                 (case lookupMember superclassDecl [] of
                    [] \<Rightarrow> Inl (AssertionFailed ''!result.empty()'')
                  | superInitDecl # _ \<Rightarrow>
                      if isFailable superInitDecl
                      then Inl (AssertionFailed ''!superInitDecl->isFailable()'')
                      else
                        (let superRef = SuperRefExpr;
                             superInitRef =
                               UnresolvedDotExpr superRef (CompoundDeclName Constructor []);
                             callExpr = CallExpr superInitRef [] [];
                             callExpr = (if hasThrows superInitDecl then TryExpr callExpr
                                         else callExpr)
                         in Inr [ExprNode callExpr]))))"

definition deriveBodyDecodable_init :: "NominalTypeDecl \<Rightarrow> SynthesizedBody" where
  "deriveBodyDecodable_init targetDecl =
     (case lookupEvaluatedCodingKeysEnum targetDecl Id_CodingKeys of
        Inl c \<Rightarrow> Inl c
      | Inr None \<Rightarrow> Inl (AssertionFailed ''Missing CodingKeys decl.'')
      | Inr (Some codingKeysEnum) \<Rightarrow>
          (let containerDecl = createKeyedContainer KeyedDecodingContainer codingKeysEnum IntroducerLet;
               containerExpr = DeclRefExpr (containerIdentifier containerDecl);
               enumElements = getAllElements codingKeysEnum
           in case (if enumElements \<noteq> []
                    then
                      (let decoderExpr = DeclRefExpr Id_decoder;
                           callExpr = createContainerKeyedByCall decoderExpr codingKeysEnum;
                           tryExpr = TryExpr callExpr;
                           containerPattern = NamedPattern (containerIdentifier containerDecl);
                           bindingDecl = PatternBindingNode containerPattern tryExpr
                       in deriveBodyDecodable_init_loop targetDecl codingKeysEnum containerExpr
                            enumElements ([bindingDecl, VarDeclNode containerDecl], []))
                    else Inr ([], [])) of
                Inl c \<Rightarrow> Inl c
              | Inr (statements, diags) \<Rightarrow>
                  (case deriveBodyDecodable_init_super targetDecl containerExpr of
                     Inl c \<Rightarrow> Inl c
                   | Inr superStatements \<Rightarrow> Inr (statements @ superStatements, diags))))"

text \<open>The argument built for one payload slot in \<open>deriveBodyDecodable_enum_init\<close>: the
  default expression of a slot that is no key (the source asserts that there is one), or a
  call of \<open>decode\<close> on the nested container.\<close>

definition deriveBodyDecodable_enum_init_argument ::
  "EnumDecl \<Rightarrow> nat \<Rightarrow> ParamDecl \<Rightarrow> Crash + Expr" where
  "deriveBodyDecodable_enum_init_argument caseCodingKeys index paramDecl =
     (let identifier = paramIdentifier index paramDecl;
          caseCodingKey = lookupEnumCase caseCodingKeys identifier
      in case caseCodingKey of
           None \<Rightarrow>
             if \<not> hasDefaultExpr paramDecl
             then Inl (AssertionFailed ''paramDecl->hasDefaultExpr()'')
             else Inr (TypeCheckedDefaultExpr paramDecl)
         | Some caseCodingKey \<Rightarrow>
             (let parameterTypeExpr =
                    TypeExpr (InterfaceType (getValueInterfaceType (asVarDecl paramDecl)));
                  parameterMetaTypeExpr = DotSelfExpr parameterTypeExpr;
                  metaTyRef = TypeExpr (DeclaredType (enumName caseCodingKeys));
                  keyExpr = MemberRefExpr metaTyRef (getBaseIdentifier caseCodingKey);
                  nestedContainerExpr = DeclRefExpr Id_nestedContainer;
                  decodeCall =
                    UnresolvedDotExpr nestedContainerExpr
                      (CompoundDeclName (Named Id_decode) [[], Id_forKey]);
                  callExpr = CallExpr decodeCall [parameterMetaTypeExpr, keyExpr] [[], Id_forKey];
                  tryExpr = TryExpr callExpr
              in Inr tryExpr))"

text \<open>The loop over the payload slots of one case: the arguments of the case and their
  labels.\<close>

fun deriveBodyDecodable_enum_init_params ::
  "EnumDecl \<Rightarrow> nat \<Rightarrow> ParamDecl list \<Rightarrow> Expr list \<times> Identifier list \<Rightarrow>
     Crash + Expr list \<times> Identifier list" where
  "deriveBodyDecodable_enum_init_params caseCodingKeys index [] st = Inr st"
| "deriveBodyDecodable_enum_init_params caseCodingKeys index (paramDecl # rest)
     (decodeCalls, params) =
     (let params = params @ [getVarNameForCoding (asVarDecl paramDecl)]
      in case deriveBodyDecodable_enum_init_argument caseCodingKeys index paramDecl of
           Inl c \<Rightarrow> Inl c
         | Inr argument \<Rightarrow>
             deriveBodyDecodable_enum_init_params caseCodingKeys (Suc index) rest
               (decodeCalls @ [argument], params))"

text \<open>The branch of one case that is a key of \<open>CodingKeys\<close>.\<close>

definition deriveBodyDecodable_enum_init_case ::
  "NominalTypeDecl \<Rightarrow> EnumDecl \<Rightarrow> Expr \<Rightarrow> EnumElementDecl \<Rightarrow> EnumElementDecl \<Rightarrow>
     Crash + CaseStmt" where
  "deriveBodyDecodable_enum_init_case targetEnum codingKeysEnum containerExpr elt codingKeyCase =
     (let pat = EnumElementPattern (DeclaredType (enumName codingKeysEnum))
                  (getBaseIdentifier codingKeyCase) None;
          labelItem = OptionalSomePattern pat;
          caseIdentifier = caseCodingKeysIdentifier elt
      in case lookupEvaluatedCodingKeysEnum targetEnum caseIdentifier of
           Inl c \<Rightarrow> Inl c
         | Inr None \<Rightarrow> Inl NullPointer
         | Inr (Some caseCodingKeys) \<Rightarrow>
             (let nestedContainerDecl =
                    createKeyedContainer_named KeyedDecodingContainer caseCodingKeys
                      IntroducerVar Id_nestedContainer;
                  nestedContainerCall =
                    createNestedContainerKeyedByForKeyCall containerExpr caseCodingKeys
                      codingKeysEnum codingKeyCase;
                  tryNestedContainerCall = TryExpr nestedContainerCall;
                  containerPattern = NamedPattern (containerIdentifier nestedContainerDecl);
                  bindingDecl = PatternBindingNode containerPattern tryNestedContainerCall;
                  caseStatements = [bindingDecl, VarDeclNode nestedContainerDecl]
              in case (case getParameterList elt of
                         None \<Rightarrow> Inr ([], [])
                       | Some paramList \<Rightarrow>
                           deriveBodyDecodable_enum_init_params caseCodingKeys 0 paramList ([], [])) of
                   Inl c \<Rightarrow> Inl c
                 | Inr (decodeCalls, params) \<Rightarrow>
                     (let selfRef = DeclRefExpr Id_self;
                          selfTypeExpr = TypeExpr (DeclaredType (typeName targetEnum));
                          assignExpr =
                            (if params = []
                             then
                               (let selfCaseExpr = MemberRefExpr selfTypeExpr (getBaseIdentifier elt)
                                in AssignExpr selfRef selfCaseExpr)
                             else
                               (let selfCaseExpr =
                                      UnresolvedDotExpr selfTypeExpr
                                        (CompoundDeclName (Named (getBaseIdentifier elt)) params);
                                    caseCallExpr = CallExpr selfCaseExpr decodeCalls params
                                in AssignExpr selfRef caseCallExpr));
                          body = caseStatements @ [ExprNode assignExpr]
                      in Inr (CaseStmt labelItem body None))))"

fun deriveBodyDecodable_enum_init_loop ::
  "NominalTypeDecl \<Rightarrow> EnumDecl \<Rightarrow> Expr \<Rightarrow> EnumElementDecl list \<Rightarrow> CaseStmt list \<Rightarrow>
     Crash + CaseStmt list" where
  "deriveBodyDecodable_enum_init_loop targetEnum codingKeysEnum containerExpr [] cases = Inr cases"
| "deriveBodyDecodable_enum_init_loop targetEnum codingKeysEnum containerExpr (elt # rest) cases =
     (case lookupEnumCase codingKeysEnum (getBaseIdentifier elt) of
        None \<Rightarrow> deriveBodyDecodable_enum_init_loop targetEnum codingKeysEnum containerExpr rest cases
      | Some codingKeyCase \<Rightarrow>
          (case deriveBodyDecodable_enum_init_case targetEnum codingKeysEnum containerExpr elt
                  codingKeyCase of
             Inl c \<Rightarrow> Inl c
           | Inr caseStmt \<Rightarrow>
               deriveBodyDecodable_enum_init_loop targetEnum codingKeysEnum containerExpr rest
                 (cases @ [caseStmt])))"

text \<open>The message of the error thrown when the container does not hold exactly one key.\<close>

definition invalidNumberOfKeysMessage :: string where
  "invalidNumberOfKeysMessage = ''Invalid number of keys found, expected one.''"

abbreviation allKeysExpr :: "Expr \<Rightarrow> Expr" where
  "allKeysExpr containerExpr \<equiv> UnresolvedDotExpr containerExpr (SimpleDeclName (Named Id_allKeys))"

definition deriveBodyDecodable_enum_init :: "NominalTypeDecl \<Rightarrow> SynthesizedBody" where
  "deriveBodyDecodable_enum_init targetEnum =
     (case lookupEvaluatedCodingKeysEnum targetEnum Id_CodingKeys of
        Inl c \<Rightarrow> Inl c
      | Inr None \<Rightarrow> Inl (AssertionFailed ''Missing CodingKeys decl.'')
      | Inr (Some codingKeysEnum) \<Rightarrow>
          (let containerDecl = createKeyedContainer KeyedDecodingContainer codingKeysEnum IntroducerLet;
               containerExpr = DeclRefExpr (containerIdentifier containerDecl)
           in if hasCases codingKeysEnum
              then
                (let decoderExpr = DeclRefExpr Id_decoder;
                     callExpr = createContainerKeyedByCall decoderExpr codingKeysEnum;
                     tryExpr = TryExpr callExpr;
                     containerPattern = NamedPattern (containerIdentifier containerDecl);
                     bindingDecl = PatternBindingNode containerPattern tryExpr;
                     statements = [bindingDecl, VarDeclNode containerDecl]
                 in case deriveBodyDecodable_enum_init_loop targetEnum codingKeysEnum containerExpr
                           (getAllElements_target targetEnum) [] of
                      Inl c \<Rightarrow> Inl c
                    | Inr cases \<Rightarrow>
                        (let debugMessage = StringLiteralExpr invalidNumberOfKeysMessage;
                             throwStmt =
                               createThrowDecodingErrorTypeMismatchStmt targetEnum containerExpr
                                 debugMessage;
                             keysCountExpr =
                               UnresolvedDotExpr (allKeysExpr containerExpr)
                                 (SimpleDeclName (Named Id_count));
                             cmpFuncExpr = DeclRefExpr ''=='';
                             oneExpr = IntegerLiteralExpr 1;
                             tupleExpr = TupleExpr [keysCountExpr, oneExpr];
                             cmpExpr = BinaryExpr cmpFuncExpr tupleExpr;
                             guardBody = [throwStmt];
                             guardStmt = GuardStmt cmpExpr guardBody;
                             firstExpr =
                               UnresolvedDotExpr (allKeysExpr containerExpr)
                                 (SimpleDeclName (Named Id_first));
                             switchStmt = SwitchStmt firstExpr cases
                         in Inr (statements @ [guardStmt, switchStmt], [])))
              else Inr ([], [])))"

section \<open>Derivation of the requirements\<close>

text \<open>A synthesized function declaration: its name, the synthesizer of its body (run
  later, on the type as the derivation left it), and the attributes added to it.\<close>

record FuncDecl =
  funcBaseName :: DeclBaseName
  funcArgumentNames :: "Identifier list"
  bodySynthesizer :: "NominalTypeDecl \<Rightarrow> SynthesizedBody"
  isOverride :: bool
  isRequired :: bool

text \<open>\<open>addMembersToConformanceContext\<close>: the new function is a member of the type.\<close>

definition addMembersToConformanceContext ::
  "DerivedConformance \<Rightarrow> Identifier \<Rightarrow> DerivedConformance" where
  "addMembersToConformanceContext derived n =
     derived\<lparr>Nominal := addMember (Nominal derived) (OtherD n)\<rparr>"

definition deriveEncodable_encode :: "DerivedConformance \<Rightarrow> FuncDecl \<times> DerivedConformance" where
  "deriveEncodable_encode derived =
     (let encodeDecl =
            \<lparr>funcBaseName = Named Id_encode, funcArgumentNames = [Id_to],
             bodySynthesizer =
               (if dyn_cast_EnumDecl (Nominal derived) \<noteq> None
                then deriveBodyEncodable_enum_encode
                else deriveBodyEncodable_encode),
             isOverride = superclassConformsTo (dyn_cast_ClassDecl (Nominal derived)) Encodable,
             isRequired = False\<rparr>
      in (encodeDecl, addMembersToConformanceContext derived Id_encode))"

definition deriveDecodable_init :: "DerivedConformance \<Rightarrow> FuncDecl \<times> DerivedConformance" where
  "deriveDecodable_init derived =
     (let classDecl = dyn_cast_ClassDecl (Nominal derived);
          initDecl =
            \<lparr>funcBaseName = Constructor, funcArgumentNames = [Id_from],
             bodySynthesizer =
               (if dyn_cast_EnumDecl (Nominal derived) \<noteq> None
                then deriveBodyDecodable_enum_init
                else deriveBodyDecodable_init),
             isOverride = False,
             isRequired = (case classDecl of None \<Rightarrow> False | Some c \<Rightarrow> \<not> isFinal c)\<rparr>
      in (initDecl, addMembersToConformanceContext derived ''init''))"

definition deriveEncodable ::
  "DerivedConformance \<Rightarrow> ValueDecl \<Rightarrow> Crash + FuncDecl option \<times> DerivedConformance" where
  "deriveEncodable derived requirement =
     (if kind (Nominal derived) \<noteq> StructKind \<and> kind (Nominal derived) \<noteq> ClassKind \<and>
         kind (Nominal derived) \<noteq> EnumKind
      then Inr (None, derived)
      else if getBaseName requirement \<noteq> Named Id_encode
      then Inr (None, diagnose broken_encodable_requirement derived)
      else if checkAndDiagnoseDisallowedContext derived then Inr (None, derived)
      else
        (case canSynthesize derived requirement of
           Inl c \<Rightarrow> Inl c
         | Inr (False, derived) \<Rightarrow>
             Inr (None, diagnose no_witnesses (diagnose type_does_not_conform derived))
         | Inr (True, derived) \<Rightarrow>
             (case deriveEncodable_encode derived of
                (encodeDecl, derived) \<Rightarrow> Inr (Some encodeDecl, derived))))"

definition deriveDecodable ::
  "DerivedConformance \<Rightarrow> ValueDecl \<Rightarrow> Crash + FuncDecl option \<times> DerivedConformance" where
  "deriveDecodable derived requirement =
     (if kind (Nominal derived) \<noteq> StructKind \<and> kind (Nominal derived) \<noteq> ClassKind \<and>
         kind (Nominal derived) \<noteq> EnumKind
      then Inr (None, derived)
      else if getBaseName requirement \<noteq> Constructor
      then Inr (None, diagnose broken_decodable_requirement derived)
      else if checkAndDiagnoseDisallowedContext derived then Inr (None, derived)
      else
        (case canSynthesize derived requirement of
           Inl c \<Rightarrow> Inl c
         | Inr (False, derived) \<Rightarrow>
             Inr (None, diagnose no_witnesses (diagnose type_does_not_conform derived))
         | Inr (True, derived) \<Rightarrow>
             (case deriveDecodable_init derived of
                (initDecl, derived) \<Rightarrow> Inr (Some initDecl, derived))))"

section \<open>The generated initializer of a tagged union at run time\<close>


record ErrorContext =
  contextCodingPath :: "string list"
  debugDescription :: string

datatype DecodingError = typeMismatch Identifier ErrorContext






fun destCallExpr :: "Expr \<Rightarrow> (Expr \<times> Expr list \<times> Identifier list) option" where
  "destCallExpr (CallExpr f args labels) = Some (f, args, labels)"
| "destCallExpr e = None"



fun destStringLiteralExpr :: "Expr \<Rightarrow> string option" where
  "destStringLiteralExpr (StringLiteralExpr m) = Some m"
| "destStringLiteralExpr e = None"




fun destThrowStmt :: "ASTNode \<Rightarrow> Expr option" where
  "destThrowStmt (ThrowStmt e) = Some e"
| "destThrowStmt s = None"











text \<open>The state in which validation leaves a tagged union, as far as the body of
  \<open>encode(to:)\<close> depends on it: every case that is a key of \<open>CodingKeys\<close> has its own key
  enumeration.\<close>

definition caseHasKeyEnumeration :: "NominalTypeDecl \<Rightarrow> EnumElementDecl \<Rightarrow> bool" where
  "caseHasKeyEnumeration targetEnum elt =
     (case lookupEvaluatedCodingKeysEnum targetEnum (caseCodingKeysIdentifier elt) of
        Inr (Some caseCodingKeys) \<Rightarrow> True
      | _ \<Rightarrow> False)"

definition casesHaveKeyEnumerations :: "NominalTypeDecl \<Rightarrow> EnumDecl \<Rightarrow> bool" where
  "casesHaveKeyEnumerations targetEnum codingKeysEnum =
     list_all (\<lambda>elt. lookupEnumCase codingKeysEnum (getBaseIdentifier elt) = None \<or>
                     caseHasKeyEnumeration targetEnum elt)
       (getAllElements_target targetEnum)"

text \<open>The debug description a \<open>throw\<close> statement gives to the context of its error: the
  second argument of the call that builds the context, when it is a string literal.\<close>

definition thrownDebugDescription :: "ASTNode \<Rightarrow> string option" where
  "thrownDebugDescription stmt =
     (case Option.bind (destThrowStmt stmt) destCallExpr of
        Some (f, [v, context], labels) \<Rightarrow>
          (case destCallExpr context of
             Some (g, [path, message, underlying], ls) \<Rightarrow> destStringLiteralExpr message
           | _ \<Rightarrow> None)
      | _ \<Rightarrow> None)"

text \<open>A payload slot of a case: user-accessible, immutable, without storage of its own.\<close>

definition paramVar :: "Identifier \<Rightarrow> Type \<Rightarrow> VarDecl" where
  "paramVar n t = VarDecl n None None t True False False True False None"

text \<open>A key enumeration that conforms to \<open>CodingKey\<close>, with the given keys as its only
  members.\<close>

definition keyEnum :: "Identifier \<Rightarrow> Identifier list \<Rightarrow> bool \<Rightarrow> EnumDecl" where
  "keyEnum n keys implicit =
     \<lparr>enumName = n, enumMembers = map (\<lambda>k. CaseMember (EnumElementDecl k None)) keys,
      isImplicit = implicit, conformsToCodingKey = True\<rparr>"

text \<open>\<^verbatim>\<open>enum E { case a(x: Int?, Int); case b(y: String) }\<close> with the user-declared key
  enumerations \<^verbatim>\<open>CodingKeys { case a }\<close>, \<^verbatim>\<open>ACodingKeys { case x, _1 }\<close> and
  \<^verbatim>\<open>BCodingKeys { case y }\<close>: the case \<open>b\<close> is no key of \<open>CodingKeys\<close>.\<close>

definition exUnion :: NominalTypeDecl where
  "exUnion =
     \<lparr>typeName = ''E'', kind = EnumKind,
      members =
        [ElementD (EnumElementDecl ''a''
           (Some [ParamDecl (paramVar ''x'' (OptionalType TyInt)) False,
                  ParamDecl (paramVar [] TyInt) False])),
         ElementD (EnumElementDecl ''b'' (Some [ParamDecl (paramVar ''y'' TyString) False])),
         NominalD (EnumNominal (keyEnum ''CodingKeys'' [''a''] False)),
         NominalD (EnumNominal (keyEnum ''ACodingKeys'' [''x'', ''_1''] False)),
         NominalD (EnumNominal (keyEnum ''BCodingKeys'' [''y''] False))],
      getSuperclassDecl = None, conformsToEncodable = True, isFinal = False\<rparr>"

text \<open>The state in which validation leaves a tagged union, as far as the body of
  \<open>init(from:)\<close> depends on it: every payload slot of a case is a key of the key
  enumeration of the case or has a default expression, \<close>

definition slotsResolved :: "EnumDecl \<Rightarrow> ParamDecl list \<Rightarrow> bool" where
  "slotsResolved caseCodingKeys params =
     list_all (\<lambda>(index, paramDecl).
                 lookupEnumCase caseCodingKeys (paramIdentifier index paramDecl) \<noteq> None \<or>
                 hasDefaultExpr paramDecl)
       (enumerate 0 params)"

text \<open>a case has its key enumeration, which resolves its slots, \<close>

definition caseResolved :: "NominalTypeDecl \<Rightarrow> EnumElementDecl \<Rightarrow> bool" where
  "caseResolved targetEnum elt =
     (case lookupEvaluatedCodingKeysEnum targetEnum (caseCodingKeysIdentifier elt) of
        Inr (Some caseCodingKeys) \<Rightarrow>
          (case getParameterList elt of
             None \<Rightarrow> True
           | Some params \<Rightarrow> slotsResolved caseCodingKeys params)
      | _ \<Rightarrow> False)"

text \<open>and this holds for every case that is a key of \<open>CodingKeys\<close>.\<close>

definition casesResolved :: "NominalTypeDecl \<Rightarrow> EnumDecl \<Rightarrow> bool" where
  "casesResolved targetEnum codingKeysEnum =
     list_all (\<lambda>elt. lookupEnumCase codingKeysEnum (getBaseIdentifier elt) = None \<or>
                     caseResolved targetEnum elt)
       (getAllElements_target targetEnum)"


text \<open>A member that decoding may skip, in the words of the spec: it has a compile-time
  default, is parent-initialized, or is a payload slot with a default expression.\<close>

definition defaultable :: "VarRef \<Rightarrow> bool" where
  "defaultable member =
     ((\<exists>pbd. getParentPatternBinding (theVarDecl member) = Some pbd \<and> isDefaultInitializable pbd) \<or>
      isParentInitialized (theVarDecl member) \<or>
      (\<exists>paramDecl. dyn_cast_ParamDecl member = Some paramDecl \<and> hasDefaultExpr paramDecl))"

text \<open>\<^verbatim>\<open>struct S : Codable { var x: Int; var y: Int; var z: Int = 0;
  enum CodingKeys : CodingKey { case x } }\<close>: the key enumeration is user-declared, the type
  conforms to \<open>Encodable\<close>, and neither \<open>y\<close> nor \<open>z\<close> is a key; \<open>z\<close> has an initial value.\<close>

definition exVarY :: VarDecl where
  "exVarY = VarDecl ''y'' None None TyInt True False True False False
              (Some (PatternBindingDecl False))"

definition exVarZ :: VarDecl where
  "exVarZ = VarDecl ''z'' None None TyInt True False True False True
              (Some (PatternBindingDecl True))"

definition exStruct :: NominalTypeDecl where
  "exStruct =
     \<lparr>typeName = ''S'', kind = StructKind,
      members =
        [VarD (storedVar ''x'' TyInt), VarD exVarY, VarD exVarZ,
         NominalD (EnumNominal (keyEnum ''CodingKeys'' [''x''] False))],
      getSuperclassDecl = None, conformsToEncodable = True, isFinal = False\<rparr>"

definition exStructDecodable :: DerivedConformance where
  "exStructDecodable =
     \<lparr>Nominal = exStruct, Protocol = Decodable, conformsToProtocol = (\<lambda>t p. True),
      checkAndDiagnoseDisallowedContext = False, Diags = []\<rparr>"

text \<open>\<^verbatim>\<open>struct T : Encodable { var x: Int;
  enum CodingKeys : CodingKey { case q; case x; case r } }\<close>: the keys \<open>q\<close> and \<open>r\<close> name no
  member.\<close>

definition exExtraneous :: DerivedConformance where
  "exExtraneous =
     \<lparr>Nominal =
        \<lparr>typeName = ''T'', kind = StructKind,
         members =
           [VarD (storedVar ''x'' TyInt),
            NominalD (EnumNominal (keyEnum ''CodingKeys'' [''q'', ''x'', ''r''] False))],
         getSuperclassDecl = None, conformsToEncodable = True, isFinal = False\<rparr>,
      Protocol = Encodable, conformsToProtocol = (\<lambda>t p. True),
      checkAndDiagnoseDisallowedContext = False, Diags = []\<rparr>"

text \<open>The requirement \<open>init(from:)\<close>.\<close>

definition exInitRequirement :: ValueDecl where
  "exInitRequirement = \<lparr>getBaseName = Constructor, getArgumentNames = [Id_from]\<rparr>"

text \<open>A class with one stored property whose superclass has the given initializers and
  does not conform to \<open>Decodable\<close>, deriving \<open>Decodable\<close>.\<close>

definition exSubclass :: "ConstructorDecl list \<Rightarrow> DerivedConformance" where
  "exSubclass inits =
     \<lparr>Nominal =
        \<lparr>typeName = ''D'', kind = ClassKind, members = [VarD (storedVar ''x'' TyInt)],
         getSuperclassDecl =
           Some \<lparr>superclassConformances = [], superclassInitializers = inits\<rparr>,
         conformsToEncodable = False, isFinal = False\<rparr>,
      Protocol = Decodable, conformsToProtocol = (\<lambda>t p. True),
      checkAndDiagnoseDisallowedContext = False, Diags = []\<rparr>"

text \<open>An initializer \<open>init()\<close> that is designated and accessible.\<close>

definition exInit :: "bool \<Rightarrow> ConstructorDecl" where
  "exInit failable =
     \<lparr>argumentLabels = [], isDesignatedInit = True, isAccessibleFrom = True,
      isFailable = failable, hasThrows = False\<rparr>"





text \<open>\<^verbatim>\<open>enum O : Codable { case a(x: Int?) }\<close> with no key enumeration declared,
  deriving the given protocol.\<close>

definition exOptionalPayload :: "KnownProtocolKind \<Rightarrow> DerivedConformance" where
  "exOptionalPayload proto =
     \<lparr>Nominal =
        \<lparr>typeName = ''O'', kind = EnumKind,
         members =
           [ElementD (EnumElementDecl ''a''
              (Some [ParamDecl (paramVar ''x'' (OptionalType TyInt)) False]))],
         getSuperclassDecl = None, conformsToEncodable = True, isFinal = False\<rparr>,
      Protocol = proto, conformsToProtocol = (\<lambda>t p. True),
      checkAndDiagnoseDisallowedContext = False, Diags = []\<rparr>"

text \<open>The requirement \<open>encode(to:)\<close>.\<close>

definition exEncodeRequirement :: ValueDecl where
  "exEncodeRequirement = \<lparr>getBaseName = Named Id_encode, getArgumentNames = [Id_to]\<rparr>"

text \<open>The body of the function a derivation returns, synthesized on the type as the
  derivation left it.\<close>

definition synthesizedBody :: "Crash + FuncDecl option \<times> DerivedConformance \<Rightarrow> SynthesizedBody option" where
  "synthesizedBody result =
     (case result of
        Inr (Some funcDecl, derived) \<Rightarrow> Some (bodySynthesizer funcDecl (Nominal derived))
      | _ \<Rightarrow> None)"

text \<open>The enumeration a member of the type stands for when it is looked up as a key
  enumeration: a nested enumeration, or an alias of one.\<close>

fun keyEnumerationOf :: "Decl \<Rightarrow> EnumDecl option" where
  "keyEnumerationOf (NominalD (EnumNominal e)) = Some e"
| "keyEnumerationOf (TypeAliasD a (AliasedNominal (EnumNominal e))) = Some e"
| "keyEnumerationOf d = None"

text \<open>A key enumeration that declares nothing but its cases: looking a name up in it
  finds a case or nothing.\<close>

definition onlyCases :: "EnumDecl \<Rightarrow> bool" where
  "onlyCases e = list_all (\<lambda>m. dyn_cast_EnumElementDecl m \<noteq> None) (enumMembers e)"

text \<open>Every enumeration among the members of a type, or aliased by one, is such.\<close>

definition keyEnumerationsOnlyCases :: "NominalTypeDecl \<Rightarrow> bool" where
  "keyEnumerationsOnlyCases target =
     list_all (\<lambda>d. case keyEnumerationOf d of None \<Rightarrow> True | Some e \<Rightarrow> onlyCases e)
       (members target)"

text \<open>A payload slot that is a plain parameter: user-accessible, with no pattern binding
  that could initialize it, and not parent-initialized.\<close>

definition plainPayloadSlot :: "ParamDecl \<Rightarrow> bool" where
  "plainPayloadSlot paramDecl =
     (isUserAccessible (asVarDecl paramDecl) \<and>
      getParentPatternBinding (asVarDecl paramDecl) = None \<and>
      \<not> isParentInitialized (asVarDecl paramDecl))"

text \<open>Every payload slot of every case of a tagged union is such.\<close>

definition plainPayloadSlots :: "NominalTypeDecl \<Rightarrow> bool" where
  "plainPayloadSlots target =
     list_all (\<lambda>elt. case getParameterList elt of
                       None \<Rightarrow> True
                     | Some params \<Rightarrow> list_all plainPayloadSlot params)
       (getAllElements_target target)"

text \<open>\<^verbatim>\<open>enum D : Decodable { case a(x: Int, y: Int = 0);
  enum ACodingKeys : CodingKey { case x } }\<close>: the slot \<open>y\<close> is no key and has a default
  expression; \<open>CodingKeys\<close> is not declared.\<close>

definition exDefaultedPayload :: DerivedConformance where
  "exDefaultedPayload =
     \<lparr>Nominal =
        \<lparr>typeName = ''D'', kind = EnumKind,
         members =
           [ElementD (EnumElementDecl ''a''
              (Some [ParamDecl (paramVar ''x'' TyInt) False,
                     ParamDecl (paramVar ''y'' TyInt) True])),
            NominalD (EnumNominal (keyEnum ''ACodingKeys'' [''x''] False))],
         getSuperclassDecl = None, conformsToEncodable = False, isFinal = False\<rparr>,
      Protocol = Decodable, conformsToProtocol = (\<lambda>t p. True),
      checkAndDiagnoseDisallowedContext = False, Diags = []\<rparr>"

text \<open>The example after \<open>canSynthesize\<close>: \<open>CodingKeys\<close> has been synthesized and added.\<close>

definition exDefaultedPayloadChecked :: DerivedConformance where
  "exDefaultedPayloadChecked =
     exDefaultedPayload
       \<lparr>Nominal := addMember (Nominal exDefaultedPayload)
                     (NominalD (EnumNominal (keyEnum ''CodingKeys'' [''a''] True)))\<rparr>"

text \<open>\<^verbatim>\<open>enum S : Decodable { case a(x: Int);
  enum ACodingKeys : CodingKey { static func x(_ n: Int) { }; case x } }\<close>: the key
  enumeration of the case \<open>a\<close> declares a function named \<open>x\<close> before its key \<open>x\<close>; the slot
  \<open>x\<close> has no default expression; \<open>CodingKeys\<close> is not declared.\<close>

definition exShadowedKeys :: EnumDecl where
  "exShadowedKeys =
     \<lparr>enumName = ''ACodingKeys'',
      enumMembers = [NonCaseMember ''x'', CaseMember (EnumElementDecl ''x'' None)],
      isImplicit = False, conformsToCodingKey = True\<rparr>"

definition exShadowedKey :: DerivedConformance where
  "exShadowedKey =
     \<lparr>Nominal =
        \<lparr>typeName = ''S'', kind = EnumKind,
         members =
           [ElementD (EnumElementDecl ''a'' (Some [ParamDecl (paramVar ''x'' TyInt) False])),
            NominalD (EnumNominal exShadowedKeys)],
         getSuperclassDecl = None, conformsToEncodable = False, isFinal = False\<rparr>,
      Protocol = Decodable, conformsToProtocol = (\<lambda>t p. True),
      checkAndDiagnoseDisallowedContext = False, Diags = []\<rparr>"

text \<open>The example after \<open>canSynthesize\<close>: \<open>CodingKeys\<close> has been synthesized and added, and
  nothing is diagnosed.\<close>

definition exShadowedKeyChecked :: DerivedConformance where
  "exShadowedKeyChecked =
     exShadowedKey
       \<lparr>Nominal := addMember (Nominal exShadowedKey)
                     (NominalD (EnumNominal (keyEnum ''CodingKeys'' [''a''] True)))\<rparr>"

section \<open>Properties of the key-enumeration synthesis\<close>

lemma getAllElements_addMember_enum:
  "getAllElements (addMember_enum e elt) = getAllElements e @ [elt]"
  by (simp add: getAllElements_def addMember_enum_def List.map_filter_def)

lemma addImplicitCodingKeys_loop_elements:
  "getAllElements (addImplicitCodingKeys_loop vs e) =
     getAllElements e @
     map (\<lambda>v. EnumElementDecl (getVarNameForCoding v) None) (filter isUserAccessible vs)"
  by (induction vs arbitrary: e) (simp_all add: getAllElements_addMember_enum)

lemma getAllElements_checkConformancesInContext:
  "getAllElements (checkConformancesInContext e) = getAllElements e"
  by (simp add: getAllElements_def checkConformancesInContext_def)

lemma addImplicitCodingKeys_loop_enumName:
  "enumName (addImplicitCodingKeys_loop vs e) = enumName e"
  by (induction vs arbitrary: e) (simp_all add: addMember_enum_def)

lemma getAllElements_addImplicitCodingKeys_loop_names:
  "map getBaseIdentifier (getAllElements (addImplicitCodingKeys_loop vs e)) =
     map getBaseIdentifier (getAllElements e) @
     map getVarNameForCoding (filter isUserAccessible vs)"
  by (simp add: addImplicitCodingKeys_loop_elements comp_def)

text \<open>
  Claim C5. The key enumeration synthesized for a struct or a class has one key per
  user-accessible stored property, named by \<open>getVarNameForCoding\<close>, in declaration order;
  when the type is a class whose superclass conforms to \<open>Encodable\<close> or to \<open>Decodable\<close>,
  the key \<open>super\<close> comes first, before all of them, and otherwise there is no other key.
  The enumeration is added to the type as \<open>CodingKeys\<close>.
\<close>

theorem addImplicitCodingKeys_keys:
  assumes "kind target \<noteq> EnumKind" and "lookupDirect target Id_CodingKeys = []"
  shows "\<exists>enumDecl.
           addImplicitCodingKeys target =
             Inr (enumDecl, addMember target (NominalD (EnumNominal enumDecl))) \<and>
           enumName enumDecl = Id_CodingKeys \<and>
           map getBaseIdentifier (getAllElements enumDecl) =
             (if kind target = ClassKind \<and>
                 (\<exists>s. getSuperclassDecl target = Some s \<and>
                      (Encodable \<in> set (superclassConformances s) \<or>
                       Decodable \<in> set (superclassConformances s)))
              then [Id_super] else []) @
             map getVarNameForCoding (filter isUserAccessible (getStoredProperties target))"
proof -
  let ?empty = "\<lparr>enumName = Id_CodingKeys, enumMembers = [], isImplicit = True,
                  conformsToCodingKey = False\<rparr>"
  let ?classDecl = "dyn_cast_ClassDecl target"
  let ?cond = "superclassConformsTo ?classDecl Encodable \<or> superclassConformsTo ?classDecl Decodable"
  have cond: "?cond \<longleftrightarrow>
      kind target = ClassKind \<and>
      (\<exists>s. getSuperclassDecl target = Some s \<and>
           (Encodable \<in> set (superclassConformances s) \<or>
            Decodable \<in> set (superclassConformances s)))"
    by (auto simp: dyn_cast_ClassDecl_def split: option.splits)
  have empty: "getAllElements ?empty = []"
    by (simp add: getAllElements_def List.map_filter_def)
  let ?e1 = "if ?cond then addMember_enum ?empty (EnumElementDecl Id_super None) else ?empty"
  have e1: "map getBaseIdentifier (getAllElements ?e1) = (if ?cond then [Id_super] else [])"
    by (simp add: getAllElements_addMember_enum empty)
  have name1: "enumName ?e1 = Id_CodingKeys"
    by (simp add: addMember_enum_def)
  let ?e3 = "checkConformancesInContext
               (addImplicitCodingKeys_loop (getStoredProperties target) ?e1)"
  have run: "addImplicitCodingKeys target =
               Inr (?e3, addMember target (NominalD (EnumNominal ?e3)))"
    using assms by (simp add: addImplicitCodingKeys_def Let_def)
  have name3: "enumName ?e3 = Id_CodingKeys"
    using name1 by (simp add: checkConformancesInContext_def addImplicitCodingKeys_loop_enumName)
  have keys: "map getBaseIdentifier (getAllElements ?e3) =
                (if ?cond then [Id_super] else []) @
                map getVarNameForCoding (filter isUserAccessible (getStoredProperties target))"
    unfolding getAllElements_checkConformancesInContext
      getAllElements_addImplicitCodingKeys_loop_names e1 ..
  show ?thesis
    using run name3 keys cond by (intro exI[of _ ?e3]) simp
qed

theorem addImplicitCodingKeys_keys_witness:
  "kind exDerived \<noteq> EnumKind \<and> lookupDirect exDerived Id_CodingKeys = [] \<and>
   (\<exists>enumDecl.
      addImplicitCodingKeys exDerived =
        Inr (enumDecl, addMember exDerived (NominalD (EnumNominal enumDecl))) \<and>
      map getBaseIdentifier (getAllElements enumDecl) = [''super'', ''x'', ''y''])"
proof -
  have h1: "kind exDerived \<noteq> EnumKind" by (simp add: exDerived_def)
  have h2: "lookupDirect exDerived Id_CodingKeys = []"
    by (simp add: exDerived_def lookupDirect_def storedVar_def)
  have props: "getStoredProperties exDerived =
                 [storedVar ''x'' TyInt,
                  VarDecl ''$hidden'' None None TyInt False False True False False None,
                  storedVar ''y'' (OptionalType TyString)]"
    by (simp add: exDerived_def getStoredProperties_def List.map_filter_def storedVar_def)
  have sup: "getSuperclassDecl exDerived = Some exBase" "kind exDerived = ClassKind"
    by (simp_all add: exDerived_def)
  from addImplicitCodingKeys_keys[OF h1 h2] obtain enumDecl where
    e: "addImplicitCodingKeys exDerived =
          Inr (enumDecl, addMember exDerived (NominalD (EnumNominal enumDecl)))"
       "map getBaseIdentifier (getAllElements enumDecl) =
             (if kind exDerived = ClassKind \<and>
                 (\<exists>s. getSuperclassDecl exDerived = Some s \<and>
                      (Encodable \<in> set (superclassConformances s) \<or>
                       Decodable \<in> set (superclassConformances s)))
              then [Id_super] else []) @
             map getVarNameForCoding (filter isUserAccessible (getStoredProperties exDerived))"
    by blast
  have names: "map getBaseIdentifier (getAllElements enumDecl) = [''super'', ''x'', ''y'']"
    unfolding e(2) props sup
    by (simp add: exBase_def storedVar_def getVarNameForCoding_def)
  show ?thesis
    by (intro conjI exI[of _ enumDecl] h1 h2 e(1) names)
qed

lemma deriveBodyEncodable_enum_encode_loop_result:
  assumes "\<forall>elt \<in> set elts. \<exists>b. deriveBodyEncodable_enum_encode_case enumDecl ck cexpr elt
              (snd (enumElementPayloadSubpattern elt ''a'')) = Inr b"
  shows "deriveBodyEncodable_enum_encode_loop enumDecl ck cexpr elts cases =
           Inr (cases @ map (\<lambda>elt.
                  CaseStmt (EnumElementPattern (DeclaredType (typeName enumDecl)) (getBaseIdentifier elt)
                              (fst (enumElementPayloadSubpattern elt ''a'')))
                    (projr (deriveBodyEncodable_enum_encode_case enumDecl ck cexpr elt
                              (snd (enumElementPayloadSubpattern elt ''a''))))
                    (if snd (enumElementPayloadSubpattern elt ''a'') \<noteq> []
                     then Some (snd (enumElementPayloadSubpattern elt ''a'')) else None)) elts)"
  using assms
proof (induction elts arbitrary: cases)
  case Nil
  then show ?case by simp
next
  case (Cons elt rest)
  obtain b where b: "deriveBodyEncodable_enum_encode_case enumDecl ck cexpr elt
              (snd (enumElementPayloadSubpattern elt ''a'')) = Inr b"
    using Cons.prems by auto
  have rest: "\<forall>elt \<in> set rest. \<exists>b. deriveBodyEncodable_enum_encode_case enumDecl ck cexpr elt
              (snd (enumElementPayloadSubpattern elt ''a'')) = Inr b"
    using Cons.prems by simp
  show ?case
    using b by (cases "enumElementPayloadSubpattern elt ''a''") (simp add: Cons.IH[OF rest] Let_def)
qed

lemma deriveBodyEncodable_enum_encode_case_unmatched:
  "lookupEnumCase ck (getBaseIdentifier elt) = None \<Longrightarrow>
   deriveBodyEncodable_enum_encode_case enumDecl ck cexpr elt vars =
     Inr [createThrowEncodingErrorInvalidValueStmt (DeclRefExpr Id_self) cexpr
            (StringLiteralExpr (notDefinedInCodingKeysMessage elt))]"
  by (simp add: deriveBodyEncodable_enum_encode_case_def)

lemma deriveBodyEncodable_enum_encode_case_returns:
  assumes "lookupEnumCase ck (getBaseIdentifier elt) \<noteq> None \<longrightarrow>
             (\<exists>cck. lookupEvaluatedCodingKeysEnum enumDecl (caseCodingKeysIdentifier elt) =
                      Inr (Some cck))"
  shows "\<exists>b. deriveBodyEncodable_enum_encode_case enumDecl ck cexpr elt vars = Inr b"
  using assms by (auto simp: deriveBodyEncodable_enum_encode_case_def Let_def split: option.splits)

lemma deriveBodyEncodable_enum_encode_result:
  assumes ck: "lookupEvaluatedCodingKeysEnum enumDecl Id_CodingKeys = Inr (Some codingKeysEnum)"
    and cases: "casesHaveKeyEnumerations enumDecl codingKeysEnum"
  shows "deriveBodyEncodable_enum_encode enumDecl =
     Inr ([PatternBindingNode (NamedPattern Id_container)
             (createContainerKeyedByCall (DeclRefExpr Id_encoder) codingKeysEnum),
           VarDeclNode (createKeyedContainer KeyedEncodingContainer codingKeysEnum IntroducerVar),
           SwitchStmt (DeclRefExpr Id_self)
             (map (\<lambda>elt.
                  CaseStmt (EnumElementPattern (DeclaredType (typeName enumDecl)) (getBaseIdentifier elt)
                              (fst (enumElementPayloadSubpattern elt ''a'')))
                    (projr (deriveBodyEncodable_enum_encode_case enumDecl codingKeysEnum
                              (DeclRefExpr Id_container) elt
                              (snd (enumElementPayloadSubpattern elt ''a''))))
                    (if snd (enumElementPayloadSubpattern elt ''a'') \<noteq> []
                     then Some (snd (enumElementPayloadSubpattern elt ''a'')) else None))
                (getAllElements_target enumDecl))], [])"
proof -
  have "\<forall>elt \<in> set (getAllElements_target enumDecl).
          \<exists>b. deriveBodyEncodable_enum_encode_case enumDecl codingKeysEnum (DeclRefExpr Id_container)
                 elt (snd (enumElementPayloadSubpattern elt ''a'')) = Inr b"
  proof
    fix elt assume "elt \<in> set (getAllElements_target enumDecl)"
    with cases have "lookupEnumCase codingKeysEnum (getBaseIdentifier elt) = None \<or>
                     caseHasKeyEnumeration enumDecl elt"
      by (simp add: casesHaveKeyEnumerations_def list_all_iff)
    then have "lookupEnumCase codingKeysEnum (getBaseIdentifier elt) \<noteq> None \<longrightarrow>
             (\<exists>cck. lookupEvaluatedCodingKeysEnum enumDecl (caseCodingKeysIdentifier elt) =
                      Inr (Some cck))"
      by (auto simp: caseHasKeyEnumeration_def split: sum.splits option.splits)
    then show "\<exists>b. deriveBodyEncodable_enum_encode_case enumDecl codingKeysEnum
                     (DeclRefExpr Id_container) elt
                     (snd (enumElementPayloadSubpattern elt ''a'')) = Inr b"
      by (rule deriveBodyEncodable_enum_encode_case_returns)
  qed
  from deriveBodyEncodable_enum_encode_loop_result[OF this, of "[]"]
  show ?thesis
    by (simp add: deriveBodyEncodable_enum_encode_def ck Let_def createKeyedContainer_def
        createKeyedContainer_named_def)
qed

text \<open>
  Claim C6. In the body of \<open>encode(to:)\<close> synthesized for a tagged union, the dispatch on
  \<open>self\<close> has one branch per case of the union, in order. The branch of a case that is no
  key of \<open>CodingKeys\<close> consists of exactly one statement, which throws
  \<open>EncodingError.invalidValue(self, Context(codingPath: container.codingPath,
  debugDescription: message, underlyingError: nil))\<close>: generated code that fails at run
  time, carrying the value \<open>self\<close> and, as its message, the string literal
  \<open>Case '<case name>' cannot be decoded because it is not defined in CodingKeys.\<close>; the
  branch binds no nested container and calls no \<open>encode\<close>. The preconditions are the state validation leaves: the type has
  its \<open>CodingKeys\<close> enumeration, and every case that is a key has its own key
  enumeration.
\<close>

theorem enum_encode_unmatched_case_throws:
  assumes "lookupEvaluatedCodingKeysEnum enumDecl Id_CodingKeys = Inr (Some codingKeysEnum)"
    and "casesHaveKeyEnumerations enumDecl codingKeysEnum"
  shows "\<exists>binding containerDecl cases.
           deriveBodyEncodable_enum_encode enumDecl =
             Inr ([binding, containerDecl, SwitchStmt (DeclRefExpr Id_self) cases], []) \<and>
           length cases = length (getAllElements_target enumDecl) \<and>
           (\<forall>i < length cases.
              (\<exists>subpattern.
                 caseLabel (cases ! i) =
                   EnumElementPattern (DeclaredType (typeName enumDecl))
                     (getBaseIdentifier (getAllElements_target enumDecl ! i)) subpattern) \<and>
              (lookupEnumCase codingKeysEnum
                 (getBaseIdentifier (getAllElements_target enumDecl ! i)) = None \<longrightarrow>
               caseBody (cases ! i) =
                 [ThrowStmt
                    (CallExpr
                       (UnresolvedDotExpr (TypeExpr (DeclaredType ''EncodingError''))
                          (CompoundDeclName (Named Id_invalidValue) [[], []]))
                       [DeclRefExpr Id_self,
                        CallExpr
                          (UnresolvedDotExpr (TypeExpr (DeclaredType ''EncodingError.Context''))
                             (CompoundDeclName Constructor
                                [Id_codingPath, Id_debugDescription, Id_underlyingError]))
                          [UnresolvedDotExpr (DeclRefExpr Id_container)
                             (SimpleDeclName (Named Id_codingPath)),
                           StringLiteralExpr
                             (''Case '' @ [CHR 0x27] @ getBaseIdentifier (getAllElements_target enumDecl ! i) @ [CHR 0x27] @
                              '' cannot be decoded because it is not defined in CodingKeys.''),
                           NilLiteralExpr]
                          [Id_codingPath, Id_debugDescription, Id_underlyingError]]
                       [[], []])]))"
proof -
  let ?elts = "getAllElements_target enumDecl"
  let ?f = "\<lambda>elt.
       CaseStmt (EnumElementPattern (DeclaredType (typeName enumDecl)) (getBaseIdentifier elt)
                   (fst (enumElementPayloadSubpattern elt ''a'')))
         (projr (deriveBodyEncodable_enum_encode_case enumDecl codingKeysEnum
                   (DeclRefExpr Id_container) elt
                   (snd (enumElementPayloadSubpattern elt ''a''))))
         (if snd (enumElementPayloadSubpattern elt ''a'') \<noteq> []
          then Some (snd (enumElementPayloadSubpattern elt ''a'')) else None)"
  let ?cases = "map ?f ?elts"
  note run = deriveBodyEncodable_enum_encode_result[OF assms]
  have len: "length ?cases = length ?elts" by simp
  have each: "\<forall>i < length ?cases.
              (\<exists>subpattern.
                 caseLabel (?cases ! i) =
                   EnumElementPattern (DeclaredType (typeName enumDecl))
                     (getBaseIdentifier (?elts ! i)) subpattern) \<and>
              (lookupEnumCase codingKeysEnum (getBaseIdentifier (?elts ! i)) = None \<longrightarrow>
               caseBody (?cases ! i) =
                 [ThrowStmt
                    (CallExpr
                       (UnresolvedDotExpr (TypeExpr (DeclaredType ''EncodingError''))
                          (CompoundDeclName (Named Id_invalidValue) [[], []]))
                       [DeclRefExpr Id_self,
                        CallExpr
                          (UnresolvedDotExpr (TypeExpr (DeclaredType ''EncodingError.Context''))
                             (CompoundDeclName Constructor
                                [Id_codingPath, Id_debugDescription, Id_underlyingError]))
                          [UnresolvedDotExpr (DeclRefExpr Id_container)
                             (SimpleDeclName (Named Id_codingPath)),
                           StringLiteralExpr (''Case '' @ [CHR 0x27] @ getBaseIdentifier (?elts ! i) @ [CHR 0x27] @
                              '' cannot be decoded because it is not defined in CodingKeys.''),
                           NilLiteralExpr]
                          [Id_codingPath, Id_debugDescription, Id_underlyingError]]
                       [[], []])])"
  proof (intro allI impI conjI)
    fix i assume "i < length ?cases"
    then have nth: "?cases ! i = ?f (?elts ! i)" by simp
    show "\<exists>subpattern.
                 caseLabel (?cases ! i) =
                   EnumElementPattern (DeclaredType (typeName enumDecl))
                     (getBaseIdentifier (?elts ! i)) subpattern"
      unfolding nth by simp
    assume none: "lookupEnumCase codingKeysEnum (getBaseIdentifier (?elts ! i)) = None"
    show "caseBody (?cases ! i) =
                 [ThrowStmt
                    (CallExpr
                       (UnresolvedDotExpr (TypeExpr (DeclaredType ''EncodingError''))
                          (CompoundDeclName (Named Id_invalidValue) [[], []]))
                       [DeclRefExpr Id_self,
                        CallExpr
                          (UnresolvedDotExpr (TypeExpr (DeclaredType ''EncodingError.Context''))
                             (CompoundDeclName Constructor
                                [Id_codingPath, Id_debugDescription, Id_underlyingError]))
                          [UnresolvedDotExpr (DeclRefExpr Id_container)
                             (SimpleDeclName (Named Id_codingPath)),
                           StringLiteralExpr (''Case '' @ [CHR 0x27] @ getBaseIdentifier (?elts ! i) @ [CHR 0x27] @
                              '' cannot be decoded because it is not defined in CodingKeys.''),
                           NilLiteralExpr]
                          [Id_codingPath, Id_debugDescription, Id_underlyingError]]
                       [[], []])]"
      unfolding nth
      by (simp add: deriveBodyEncodable_enum_encode_case_unmatched[OF none]
          createThrowEncodingErrorInvalidValueStmt_def createContextInitCall_def
          notDefinedInCodingKeysMessage_def Let_def)
  qed
  show ?thesis
    apply (rule exI, rule exI, rule exI[of _ ?cases])
    apply (intro conjI)
      apply (rule run)
     apply (rule len)
    apply (rule each)
    done
qed

lemma toUpper_a: "toUpper (CHR ''a'') = CHR ''A''"
  by code_simp

lemma toUpper_C: "toUpper (CHR ''C'') = CHR ''C''"
  by code_simp

lemma ex1: "caseCodingKeysIdentifier (EnumElementDecl ''a'' ps) = ''ACodingKeys''"
  by (simp add: caseCodingKeysIdentifier_def toUpper_a toUpper_C)

lemma exUnion_elements:
  "getAllElements_target exUnion =
     [EnumElementDecl ''a''
           (Some [ParamDecl (paramVar ''x'' (OptionalType TyInt)) False,
                  ParamDecl (paramVar [] TyInt) False]),
      EnumElementDecl ''b'' (Some [ParamDecl (paramVar ''y'' TyString) False])]"
  by (simp add: exUnion_def getAllElements_target_def List.map_filter_def)

lemma exUnion_CodingKeys:
  "lookupEvaluatedCodingKeysEnum exUnion Id_CodingKeys = Inr (Some (keyEnum ''CodingKeys'' [''a''] False))"
  by (simp add: exUnion_def lookupEvaluatedCodingKeysEnum_def lookupDirect_def keyEnum_def)

lemma exUnion_ACodingKeys:
  "lookupEvaluatedCodingKeysEnum exUnion ''ACodingKeys'' =
     Inr (Some (keyEnum ''ACodingKeys'' [''x'', ''_1''] False))"
  by (simp add: exUnion_def lookupEvaluatedCodingKeysEnum_def lookupDirect_def keyEnum_def)

lemma exUnion_lookup_a:
  "lookupEnumCase (keyEnum ''CodingKeys'' [''a''] False) ''a'' = Some (EnumElementDecl ''a'' None)"
  "lookupEnumCase (keyEnum ''CodingKeys'' [''a''] False) ''b'' = None"
  by (simp_all add: lookupEnumCase_def lookupDirect_enum_def keyEnum_def)

theorem enum_encode_unmatched_case_throws_witness:
  "lookupEvaluatedCodingKeysEnum exUnion Id_CodingKeys =
     Inr (Some (keyEnum ''CodingKeys'' [''a''] False)) \<and>
   casesHaveKeyEnumerations exUnion (keyEnum ''CodingKeys'' [''a''] False) \<and>
   (\<exists>binding containerDecl cases.
      deriveBodyEncodable_enum_encode exUnion =
        Inr ([binding, containerDecl, SwitchStmt (DeclRefExpr Id_self) cases], []) \<and>
      length cases = 2 \<and>
      caseBody (cases ! 1) =
        [ThrowStmt
           (CallExpr
              (UnresolvedDotExpr (TypeExpr (DeclaredType ''EncodingError''))
                 (CompoundDeclName (Named Id_invalidValue) [[], []]))
              [DeclRefExpr Id_self,
               CallExpr
                 (UnresolvedDotExpr (TypeExpr (DeclaredType ''EncodingError.Context''))
                    (CompoundDeclName Constructor
                       [Id_codingPath, Id_debugDescription, Id_underlyingError]))
                 [UnresolvedDotExpr (DeclRefExpr Id_container)
                    (SimpleDeclName (Named Id_codingPath)),
                  StringLiteralExpr
                    (''Case '' @ CHR 0x27 # ''b'' @ CHR 0x27 #
                     '' cannot be decoded because it is not defined in CodingKeys.''),
                  NilLiteralExpr]
                 [Id_codingPath, Id_debugDescription, Id_underlyingError]]
              [[], []])])"
proof -
  have h1: "lookupEvaluatedCodingKeysEnum exUnion Id_CodingKeys =
              Inr (Some (keyEnum ''CodingKeys'' [''a''] False))"
    by (rule exUnion_CodingKeys)
  have h2: "casesHaveKeyEnumerations exUnion (keyEnum ''CodingKeys'' [''a''] False)"
    by (simp add: casesHaveKeyEnumerations_def caseHasKeyEnumeration_def exUnion_elements
        exUnion_lookup_a ex1 exUnion_ACodingKeys)
  from enum_encode_unmatched_case_throws[OF h1 h2] obtain binding containerDecl cases where
    run: "deriveBodyEncodable_enum_encode exUnion =
            Inr ([binding, containerDecl, SwitchStmt (DeclRefExpr Id_self) cases], [])"
    and len: "length cases = length (getAllElements_target exUnion)"
    and each: "\<forall>i < length cases.
              (\<exists>subpattern.
                 caseLabel (cases ! i) =
                   EnumElementPattern (DeclaredType (typeName exUnion))
                     (getBaseIdentifier (getAllElements_target exUnion ! i)) subpattern) \<and>
              (lookupEnumCase (keyEnum ''CodingKeys'' [''a''] False)
                 (getBaseIdentifier (getAllElements_target exUnion ! i)) = None \<longrightarrow>
               caseBody (cases ! i) =
                 [ThrowStmt
                    (CallExpr
                       (UnresolvedDotExpr (TypeExpr (DeclaredType ''EncodingError''))
                          (CompoundDeclName (Named Id_invalidValue) [[], []]))
                       [DeclRefExpr Id_self,
                        CallExpr
                          (UnresolvedDotExpr (TypeExpr (DeclaredType ''EncodingError.Context''))
                             (CompoundDeclName Constructor
                                [Id_codingPath, Id_debugDescription, Id_underlyingError]))
                          [UnresolvedDotExpr (DeclRefExpr Id_container)
                             (SimpleDeclName (Named Id_codingPath)),
                           StringLiteralExpr
                             (''Case '' @ [CHR 0x27] @ getBaseIdentifier (getAllElements_target exUnion ! i) @ [CHR 0x27] @
                              '' cannot be decoded because it is not defined in CodingKeys.''),
                           NilLiteralExpr]
                          [Id_codingPath, Id_debugDescription, Id_underlyingError]]
                       [[], []])])"
    by blast
  have len2: "length cases = 2" using len by (simp add: exUnion_elements)
  have body: "caseBody (cases ! 1) =
        [ThrowStmt
           (CallExpr
              (UnresolvedDotExpr (TypeExpr (DeclaredType ''EncodingError''))
                 (CompoundDeclName (Named Id_invalidValue) [[], []]))
              [DeclRefExpr Id_self,
               CallExpr
                 (UnresolvedDotExpr (TypeExpr (DeclaredType ''EncodingError.Context''))
                    (CompoundDeclName Constructor
                       [Id_codingPath, Id_debugDescription, Id_underlyingError]))
                 [UnresolvedDotExpr (DeclRefExpr Id_container)
                    (SimpleDeclName (Named Id_codingPath)),
                  StringLiteralExpr
                    (''Case '' @ CHR 0x27 # ''b'' @ CHR 0x27 #
                     '' cannot be decoded because it is not defined in CodingKeys.''),
                  NilLiteralExpr]
                 [Id_codingPath, Id_debugDescription, Id_underlyingError]]
              [[], []])]"
    using each[rule_format, of 1] len2 by (simp add: exUnion_elements exUnion_lookup_a)
  show ?thesis
    apply (intro conjI h1 h2)
    apply (rule exI, rule exI, rule exI[of _ cases])
    apply (intro conjI)
      apply (rule run)
     apply (rule len2)
    apply (rule body)
    done
qed

lemma thrownDebugDescription_createThrowEncodingErrorInvalidValueStmt:
  "thrownDebugDescription
     (createThrowEncodingErrorInvalidValueStmt v c (StringLiteralExpr m)) = Some m"
  by (simp add: thrownDebugDescription_def createThrowEncodingErrorInvalidValueStmt_def
      createContextInitCall_def Let_def)

text \<open>
  Claim C10. For every case of a tagged union that is no key of \<open>CodingKeys\<close>, the debug
  description of the error thrown in the body of \<open>encode(to:)\<close> is exactly
  \<open>Case '<case name>' cannot be decoded because it is not defined in CodingKeys.\<close>: the
  message of the encoding path says "decoded".
\<close>

theorem enum_encode_unmatched_case_message:
  assumes "lookupEvaluatedCodingKeysEnum enumDecl Id_CodingKeys = Inr (Some codingKeysEnum)"
    and "casesHaveKeyEnumerations enumDecl codingKeysEnum"
  shows "\<exists>binding containerDecl cases.
           deriveBodyEncodable_enum_encode enumDecl =
             Inr ([binding, containerDecl, SwitchStmt (DeclRefExpr Id_self) cases], []) \<and>
           length cases = length (getAllElements_target enumDecl) \<and>
           (\<forall>i < length cases.
              lookupEnumCase codingKeysEnum
                 (getBaseIdentifier (getAllElements_target enumDecl ! i)) = None \<longrightarrow>
              map thrownDebugDescription (caseBody (cases ! i)) =
                [Some (''Case '' @ [CHR 0x27] @
                       getBaseIdentifier (getAllElements_target enumDecl ! i) @ [CHR 0x27] @
                       '' cannot be decoded because it is not defined in CodingKeys.'')])"
proof -
  let ?elts = "getAllElements_target enumDecl"
  let ?f = "\<lambda>elt.
       CaseStmt (EnumElementPattern (DeclaredType (typeName enumDecl)) (getBaseIdentifier elt)
                   (fst (enumElementPayloadSubpattern elt ''a'')))
         (projr (deriveBodyEncodable_enum_encode_case enumDecl codingKeysEnum
                   (DeclRefExpr Id_container) elt
                   (snd (enumElementPayloadSubpattern elt ''a''))))
         (if snd (enumElementPayloadSubpattern elt ''a'') \<noteq> []
          then Some (snd (enumElementPayloadSubpattern elt ''a'')) else None)"
  let ?cases = "map ?f ?elts"
  note run = deriveBodyEncodable_enum_encode_result[OF assms]
  have len: "length ?cases = length ?elts" by simp
  have each: "\<forall>i < length ?cases.
              lookupEnumCase codingKeysEnum (getBaseIdentifier (?elts ! i)) = None \<longrightarrow>
              map thrownDebugDescription (caseBody (?cases ! i)) =
                [Some (''Case '' @ [CHR 0x27] @ getBaseIdentifier (?elts ! i) @ [CHR 0x27] @
                       '' cannot be decoded because it is not defined in CodingKeys.'')]"
  proof (intro allI impI)
    fix i assume "i < length ?cases"
    then have nth: "?cases ! i = ?f (?elts ! i)" by simp
    assume none: "lookupEnumCase codingKeysEnum (getBaseIdentifier (?elts ! i)) = None"
    show "map thrownDebugDescription (caseBody (?cases ! i)) =
                [Some (''Case '' @ [CHR 0x27] @ getBaseIdentifier (?elts ! i) @ [CHR 0x27] @
                       '' cannot be decoded because it is not defined in CodingKeys.'')]"
      unfolding nth
      by (simp add: deriveBodyEncodable_enum_encode_case_unmatched[OF none]
          thrownDebugDescription_createThrowEncodingErrorInvalidValueStmt
          notDefinedInCodingKeysMessage_def)
  qed
  show ?thesis
    apply (rule exI, rule exI, rule exI[of _ ?cases])
    apply (intro conjI)
      apply (rule run)
     apply (rule len)
    apply (rule each)
    done
qed

theorem enum_encode_unmatched_case_message_witness:
  "lookupEvaluatedCodingKeysEnum exUnion Id_CodingKeys =
     Inr (Some (keyEnum ''CodingKeys'' [''a''] False)) \<and>
   casesHaveKeyEnumerations exUnion (keyEnum ''CodingKeys'' [''a''] False) \<and>
   (\<exists>binding containerDecl cases.
      deriveBodyEncodable_enum_encode exUnion =
        Inr ([binding, containerDecl, SwitchStmt (DeclRefExpr Id_self) cases], []) \<and>
      length cases = 2 \<and>
      map thrownDebugDescription (caseBody (cases ! 1)) =
        [Some (''Case '' @ CHR 0x27 # ''b'' @ CHR 0x27 #
               '' cannot be decoded because it is not defined in CodingKeys.'')])"
proof -
  have h1: "lookupEvaluatedCodingKeysEnum exUnion Id_CodingKeys =
              Inr (Some (keyEnum ''CodingKeys'' [''a''] False))"
    by (rule exUnion_CodingKeys)
  have h2: "casesHaveKeyEnumerations exUnion (keyEnum ''CodingKeys'' [''a''] False)"
    by (simp add: casesHaveKeyEnumerations_def caseHasKeyEnumeration_def exUnion_elements
        exUnion_lookup_a ex1 exUnion_ACodingKeys)
  from enum_encode_unmatched_case_message[OF h1 h2] obtain binding containerDecl cases where
    run: "deriveBodyEncodable_enum_encode exUnion =
            Inr ([binding, containerDecl, SwitchStmt (DeclRefExpr Id_self) cases], [])"
    and len: "length cases = length (getAllElements_target exUnion)"
    and each: "\<forall>i < length cases.
              lookupEnumCase (keyEnum ''CodingKeys'' [''a''] False)
                 (getBaseIdentifier (getAllElements_target exUnion ! i)) = None \<longrightarrow>
              map thrownDebugDescription (caseBody (cases ! i)) =
                [Some (''Case '' @ [CHR 0x27] @
                       getBaseIdentifier (getAllElements_target exUnion ! i) @ [CHR 0x27] @
                       '' cannot be decoded because it is not defined in CodingKeys.'')]"
    by blast
  have len2: "length cases = 2" using len by (simp add: exUnion_elements)
  have body: "map thrownDebugDescription (caseBody (cases ! 1)) =
        [Some (''Case '' @ CHR 0x27 # ''b'' @ CHR 0x27 #
               '' cannot be decoded because it is not defined in CodingKeys.'')]"
    using each[rule_format, of 1] len2 by (simp add: exUnion_elements exUnion_lookup_a)
  show ?thesis
    apply (intro conjI h1 h2)
    apply (rule exI, rule exI, rule exI[of _ cases])
    apply (intro conjI)
      apply (rule run)
     apply (rule len2)
    apply (rule body)
    done
qed

lemma deriveBodyDecodable_enum_init_argument_returns:
  "lookupEnumCase cck (paramIdentifier i p) \<noteq> None \<or> hasDefaultExpr p \<Longrightarrow>
   \<exists>e. deriveBodyDecodable_enum_init_argument cck i p = Inr e"
  by (auto simp: deriveBodyDecodable_enum_init_argument_def Let_def split: option.splits)

lemma deriveBodyDecodable_enum_init_params_result:
  assumes "list_all (\<lambda>(i, p). lookupEnumCase cck (paramIdentifier i p) \<noteq> None \<or> hasDefaultExpr p)
             (enumerate n ps)"
  shows "deriveBodyDecodable_enum_init_params cck n ps (calls, labels) =
           Inr (calls @ map (\<lambda>(i, p). projr (deriveBodyDecodable_enum_init_argument cck i p))
                          (enumerate n ps),
                labels @ map (\<lambda>p. getVarNameForCoding (asVarDecl p)) ps)"
  using assms
proof (induction ps arbitrary: n calls labels)
  case Nil
  then show ?case by simp
next
  case (Cons p ps)
  from Cons.prems have here: "lookupEnumCase cck (paramIdentifier n p) \<noteq> None \<or> hasDefaultExpr p"
    and rest: "list_all (\<lambda>(i, p). lookupEnumCase cck (paramIdentifier i p) \<noteq> None \<or> hasDefaultExpr p)
                 (enumerate (Suc n) ps)"
    by simp_all
  from deriveBodyDecodable_enum_init_argument_returns[OF here] obtain e where
    e: "deriveBodyDecodable_enum_init_argument cck n p = Inr e" by blast
  show ?case by (simp add: e Cons.IH[OF rest] Let_def)
qed

text \<open>The branch built for a resolved case.\<close>

lemma deriveBodyDecodable_enum_init_case_result:
  assumes "caseResolved targetEnum elt"
  shows "\<exists>stmts value.
           deriveBodyDecodable_enum_init_case targetEnum ck cexpr elt key =
             Inr (CaseStmt (OptionalSomePattern
                              (EnumElementPattern (DeclaredType (enumName ck)) (getBaseIdentifier key) None))
                    (stmts @ [ExprNode (AssignExpr (DeclRefExpr Id_self) value)]) None) \<and>
           (value = MemberRefExpr (TypeExpr (DeclaredType (typeName targetEnum))) (getBaseIdentifier elt) \<or>
            (\<exists>args labels.
               value = CallExpr (UnresolvedDotExpr (TypeExpr (DeclaredType (typeName targetEnum)))
                                   (CompoundDeclName (Named (getBaseIdentifier elt)) labels))
                         args labels))"
proof -
  from assms obtain cck where
    cck: "lookupEvaluatedCodingKeysEnum targetEnum (caseCodingKeysIdentifier elt) = Inr (Some cck)"
    and slots: "case getParameterList elt of None \<Rightarrow> True | Some ps \<Rightarrow> slotsResolved cck ps"
    by (auto simp: caseResolved_def split: sum.splits option.splits)
  show ?thesis
  proof (cases "getParameterList elt")
    case None
    then show ?thesis
      by (simp add: deriveBodyDecodable_enum_init_case_def cck Let_def)
  next
    case (Some ps)
    with slots have "slotsResolved cck ps" by simp
    then have run: "deriveBodyDecodable_enum_init_params cck 0 ps ([], []) =
           Inr (map (\<lambda>(i, p). projr (deriveBodyDecodable_enum_init_argument cck i p)) (enumerate 0 ps),
                map (\<lambda>p. getVarNameForCoding (asVarDecl p)) ps)"
      using deriveBodyDecodable_enum_init_params_result[of cck 0 ps "[]" "[]"]
      by (simp add: slotsResolved_def)
    show ?thesis
      by (simp add: deriveBodyDecodable_enum_init_case_def cck Some run Let_def)
  qed
qed

lemma deriveBodyDecodable_enum_init_loop_result:
  assumes "list_all (\<lambda>elt. lookupEnumCase ck (getBaseIdentifier elt) = None \<or>
                           caseResolved targetEnum elt) elts"
  shows "deriveBodyDecodable_enum_init_loop targetEnum ck cexpr elts cases =
           Inr (cases @
                map (\<lambda>elt. projr (deriveBodyDecodable_enum_init_case targetEnum ck cexpr elt
                                     (the (lookupEnumCase ck (getBaseIdentifier elt)))))
                  (filter (\<lambda>elt. lookupEnumCase ck (getBaseIdentifier elt) \<noteq> None) elts))"
  using assms
proof (induction elts arbitrary: cases)
  case Nil
  then show ?case by simp
next
  case (Cons elt rest)
  from Cons.prems have rest: "list_all (\<lambda>elt. lookupEnumCase ck (getBaseIdentifier elt) = None \<or>
                           caseResolved targetEnum elt) rest"
    by simp
  show ?case
  proof (cases "lookupEnumCase ck (getBaseIdentifier elt)")
    case None
    then show ?thesis by (simp add: Cons.IH[OF rest])
  next
    case (Some key)
    with Cons.prems have "caseResolved targetEnum elt" by simp
    from deriveBodyDecodable_enum_init_case_result[OF this, of ck cexpr key]
    obtain cs where "deriveBodyDecodable_enum_init_case targetEnum ck cexpr elt key = Inr cs"
      by blast
    then show ?thesis by (simp add: Some Cons.IH[OF rest])
  qed
qed


lemma deriveBodyDecodable_enum_init_result:
  assumes ck: "lookupEvaluatedCodingKeysEnum targetEnum Id_CodingKeys = Inr (Some ck)"
    and hc: "hasCases ck" and res: "casesResolved targetEnum ck"
  shows "deriveBodyDecodable_enum_init targetEnum =
     Inr ([PatternBindingNode (NamedPattern Id_container)
             (TryExpr (createContainerKeyedByCall (DeclRefExpr Id_decoder) ck)),
           VarDeclNode (createKeyedContainer KeyedDecodingContainer ck IntroducerLet),
           GuardStmt
             (BinaryExpr (DeclRefExpr ''=='')
                (TupleExpr [UnresolvedDotExpr (allKeysExpr (DeclRefExpr Id_container))
                              (SimpleDeclName (Named Id_count)),
                            IntegerLiteralExpr 1]))
             [createThrowDecodingErrorTypeMismatchStmt targetEnum (DeclRefExpr Id_container)
                (StringLiteralExpr invalidNumberOfKeysMessage)],
           SwitchStmt
             (UnresolvedDotExpr (allKeysExpr (DeclRefExpr Id_container))
                (SimpleDeclName (Named Id_first)))
             (map (\<lambda>elt. projr (deriveBodyDecodable_enum_init_case targetEnum ck
                                   (DeclRefExpr Id_container) elt
                                   (the (lookupEnumCase ck (getBaseIdentifier elt)))))
                (filter (\<lambda>elt. lookupEnumCase ck (getBaseIdentifier elt) \<noteq> None)
                   (getAllElements_target targetEnum)))], [])"
proof -
  from res have "list_all (\<lambda>elt. lookupEnumCase ck (getBaseIdentifier elt) = None \<or>
                           caseResolved targetEnum elt) (getAllElements_target targetEnum)"
    by (simp add: casesResolved_def)
  from deriveBodyDecodable_enum_init_loop_result[OF this, of "DeclRefExpr Id_container" "[]"]
  show ?thesis
    using hc
    by (simp add: deriveBodyDecodable_enum_init_def ck Let_def createKeyedContainer_def
        createKeyedContainer_named_def)
qed













lemma diagnose_Diags_update:
  "diagnose d (derived\<lparr>Diags := Diags derived @ new\<rparr>) =
     derived\<lparr>Diags := Diags derived @ new @ [d]\<rparr>"
  by (simp add: diagnose_def)

lemma Diags_update_nil: "derived\<lparr>Diags := Diags derived @ []\<rparr> = derived"
  by simp

lemma validateCodingKeysEnum_remaining_result:
  "validateCodingKeysEnum_remaining pending (valid, derived\<lparr>Diags := Diags derived @ new\<rparr>) =
     (valid \<and> list_all (\<lambda>entry. defaultable (snd entry)) pending,
      derived\<lparr>Diags := Diags derived @ new @
                 map (\<lambda>entry. codable_non_decoded_property_here (fst entry))
                   (filter (\<lambda>entry. \<not> defaultable (snd entry)) pending)\<rparr>)"
proof (induction pending arbitrary: valid new)
  case Nil
  then show ?case by simp
next
  case (Cons entry rest)
  show ?case
  proof (cases "defaultable (snd entry)")
    case True
    then show ?thesis
      using Cons.IH[of valid new]
      by (auto simp: defaultable_def Let_def split: option.splits)
  next
    case False
    then show ?thesis
      using Cons.IH[of False "new @ [codable_non_decoded_property_here (fst entry)]"]
      by (auto simp: defaultable_def Let_def diagnose_Diags_update split: option.splits)
  qed
qed

lemma mv_find_None: "mv_find m k = None \<longleftrightarrow> k \<notin> fst ` set m"
  by (simp add: mv_find_def map_of_eq_None_iff)

lemma mv_erase_keys: "fst ` set (mv_erase m k) \<subseteq> fst ` set m"
  by (auto simp: mv_erase_def)

lemma validateCodingKeysEnum_cases_result:
  assumes "fst ` set varDecls \<subseteq> K"
  shows "\<exists>pending valid' new.
           validateCodingKeysEnum_cases keys (varDecls, valid, derived\<lparr>Diags := Diags derived @ old\<rparr>) =
             (pending, valid', derived\<lparr>Diags := Diags derived @ old @ new\<rparr>) \<and>
           fst ` set pending \<subseteq> K \<and>
           (\<forall>k. k \<notin> K \<longrightarrow>
                count_list new (codable_extraneous_codingkey_case_here k) =
                count_list (map getBaseIdentifier keys) k) \<and>
           (valid' \<longrightarrow> valid) \<and>
           ((\<exists>k \<in> set (map getBaseIdentifier keys). k \<notin> K) \<longrightarrow> \<not> valid')"
  using assms
proof (induction keys arbitrary: varDecls valid old)
  case Nil
  show ?case
    by (rule exI[of _ varDecls], rule exI[of _ valid], rule exI[of _ "[]"]) (use Nil in simp)
next
  case (Cons elt rest)
  let ?k = "getBaseIdentifier elt"
  let ?d = "derived\<lparr>Diags := Diags derived @ old\<rparr>"
  show ?case
  proof (cases "mv_find varDecls ?k")
    case None
    let ?e = "codable_extraneous_codingkey_case_here ?k"
    from Cons.IH[OF Cons.prems, of False "old @ [?e]"]
    obtain pending valid' new where
      run: "validateCodingKeysEnum_cases rest
              (varDecls, False, derived\<lparr>Diags := Diags derived @ (old @ [?e])\<rparr>) =
              (pending, valid', derived\<lparr>Diags := Diags derived @ (old @ [?e]) @ new\<rparr>)"
      and sub: "fst ` set pending \<subseteq> K"
      and cnt: "\<forall>k. k \<notin> K \<longrightarrow>
                count_list new (codable_extraneous_codingkey_case_here k) =
                count_list (map getBaseIdentifier rest) k"
      and v: "valid' \<longrightarrow> False"
      by blast
    show ?thesis
      apply (rule exI[of _ pending], rule exI[of _ valid'], rule exI[of _ "?e # new"])
      using run sub cnt v None
      by (simp add: diagnose_Diags_update)
  next
    case (Some it)
    then have kK: "?k \<in> K"
      using Cons.prems by (auto simp: mv_find_def dest!: map_of_SomeD)
    show ?thesis
    proof (cases "conformsToProtocol derived (getValueInterfaceType (theVarDecl it)) (Protocol derived)")
      case False
      let ?e = "codable_non_conforming_property_here (getName (theVarDecl it))"
      from Cons.IH[OF Cons.prems, of False "old @ [?e]"]
      obtain pending valid' new where
        run: "validateCodingKeysEnum_cases rest
              (varDecls, False, derived\<lparr>Diags := Diags derived @ (old @ [?e])\<rparr>) =
              (pending, valid', derived\<lparr>Diags := Diags derived @ (old @ [?e]) @ new\<rparr>)"
        and sub: "fst ` set pending \<subseteq> K"
        and cnt: "\<forall>k. k \<notin> K \<longrightarrow>
                count_list new (codable_extraneous_codingkey_case_here k) =
                count_list (map getBaseIdentifier rest) k"
        and v: "valid' \<longrightarrow> False"
        by blast
      show ?thesis
        apply (rule exI[of _ pending], rule exI[of _ valid'], rule exI[of _ "?e # new"])
        using run sub cnt v Some False kK
        by (auto simp: diagnose_Diags_update Let_def)
    next
      case True
      have sub': "fst ` set (mv_erase varDecls ?k) \<subseteq> K"
        using mv_erase_keys Cons.prems by blast
      from Cons.IH[OF sub', of valid old]
      obtain pending valid' new where
        run: "validateCodingKeysEnum_cases rest
              (mv_erase varDecls ?k, valid, derived\<lparr>Diags := Diags derived @ old\<rparr>) =
              (pending, valid', derived\<lparr>Diags := Diags derived @ old @ new\<rparr>)"
        and sub: "fst ` set pending \<subseteq> K"
        and cnt: "\<forall>k. k \<notin> K \<longrightarrow>
                count_list new (codable_extraneous_codingkey_case_here k) =
                count_list (map getBaseIdentifier rest) k"
        and v: "valid' \<longrightarrow> valid"
        and inv: "(\<exists>k \<in> set (map getBaseIdentifier rest). k \<notin> K) \<longrightarrow> \<not> valid'"
        by blast
      show ?thesis
        apply (rule exI[of _ pending], rule exI[of _ valid'], rule exI[of _ new])
        using run sub cnt v inv Some True kK
        by (auto simp: Let_def)
    qed
  qed
qed

lemma validateCodingKeysEnum_cases_Protocol:
  assumes "validateCodingKeysEnum_cases keys (varDecls, valid, derived) = (pending, valid', derived')"
  shows "Protocol derived' = Protocol derived"
proof -
  from validateCodingKeysEnum_cases_result[of varDecls "fst ` set varDecls" keys valid derived "[]"]
  obtain new where
    "validateCodingKeysEnum_cases keys (varDecls, valid, derived) =
       (fst (validateCodingKeysEnum_cases keys (varDecls, valid, derived)),
        fst (snd (validateCodingKeysEnum_cases keys (varDecls, valid, derived))),
        derived\<lparr>Diags := Diags derived @ new\<rparr>)"
    by auto
  with assms have "derived' = derived\<lparr>Diags := Diags derived @ new\<rparr>"
    by (metis snd_conv)
  then show ?thesis by simp
qed

lemma validateCodingKeysType_Protocol:
  assumes "validateCodingKeysType derived td = Inr (r, derived')"
  shows "Protocol derived' = Protocol derived"
  using assms
  by (auto simp: validateCodingKeysType_def Let_def diagnose_def
      split: if_splits option.splits)

text \<open>The loop over the keys keeps \<open>varDeclsAreValid\<close> exactly when it emits no
  diagnostic.\<close>

lemma validateCodingKeysEnum_cases_valid_iff:
  "\<exists>pending valid' new.
     validateCodingKeysEnum_cases keys (varDecls, valid, derived\<lparr>Diags := Diags derived @ old\<rparr>) =
       (pending, valid', derived\<lparr>Diags := Diags derived @ old @ new\<rparr>) \<and>
     (valid' \<longleftrightarrow> valid \<and> new = [])"
proof (induction keys arbitrary: varDecls valid old)
  case Nil
  show ?case
    by (rule exI[of _ varDecls], rule exI[of _ valid], rule exI[of _ "[]"]) simp
next
  case (Cons elt rest)
  let ?k = "getBaseIdentifier elt"
  show ?case
  proof (cases "mv_find varDecls ?k")
    case None
    let ?e = "codable_extraneous_codingkey_case_here ?k"
    from Cons.IH[of varDecls False "old @ [?e]"]
    obtain pending valid' new where
      run: "validateCodingKeysEnum_cases rest
              (varDecls, False, derived\<lparr>Diags := Diags derived @ (old @ [?e])\<rparr>) =
              (pending, valid', derived\<lparr>Diags := Diags derived @ (old @ [?e]) @ new\<rparr>)"
      and v: "valid' \<longleftrightarrow> False \<and> new = []"
      by blast
    show ?thesis
      by (rule exI[of _ pending], rule exI[of _ valid'], rule exI[of _ "?e # new"])
         (use run v None in \<open>simp add: diagnose_Diags_update\<close>)
  next
    case (Some it)
    show ?thesis
    proof (cases "conformsToProtocol derived (getValueInterfaceType (theVarDecl it)) (Protocol derived)")
      case False
      let ?e = "codable_non_conforming_property_here (getName (theVarDecl it))"
      from Cons.IH[of varDecls False "old @ [?e]"]
      obtain pending valid' new where
        run: "validateCodingKeysEnum_cases rest
              (varDecls, False, derived\<lparr>Diags := Diags derived @ (old @ [?e])\<rparr>) =
              (pending, valid', derived\<lparr>Diags := Diags derived @ (old @ [?e]) @ new\<rparr>)"
        and v: "valid' \<longleftrightarrow> False \<and> new = []"
        by blast
      show ?thesis
        by (rule exI[of _ pending], rule exI[of _ valid'], rule exI[of _ "?e # new"])
           (use run v Some False in \<open>simp add: diagnose_Diags_update Let_def\<close>)
    next
      case True
      from Cons.IH[of "mv_erase varDecls ?k" valid old]
      obtain pending valid' new where
        run: "validateCodingKeysEnum_cases rest
              (mv_erase varDecls ?k, valid, derived\<lparr>Diags := Diags derived @ old\<rparr>) =
              (pending, valid', derived\<lparr>Diags := Diags derived @ old @ new\<rparr>)"
        and v: "valid' \<longleftrightarrow> valid \<and> new = []"
        by blast
      show ?thesis
        by (rule exI[of _ pending], rule exI[of _ valid'], rule exI[of _ new])
           (use run v Some True in \<open>simp add: Let_def\<close>)
    qed
  qed
qed

lemma validateCodingKeysEnum_cases_valid_Diags:
  assumes "validateCodingKeysEnum_cases keys (varDecls, True, derived) = (pending, valid', derived')"
  shows "valid' \<longleftrightarrow> Diags derived' = Diags derived"
proof -
  from validateCodingKeysEnum_cases_valid_iff[of keys varDecls True derived "[]"]
  obtain p v new where
    run: "validateCodingKeysEnum_cases keys (varDecls, True, derived\<lparr>Diags := Diags derived @ []\<rparr>) =
            (p, v, derived\<lparr>Diags := Diags derived @ [] @ new\<rparr>)"
    and v: "v \<longleftrightarrow> True \<and> new = []"
    by blast
  from run assms have "valid' = v" and "derived' = derived\<lparr>Diags := Diags derived @ new\<rparr>"
    by simp_all
  with v show ?thesis by simp
qed

text \<open>
  Claim C2, as amended. In the validation for \<open>Decodable\<close> of a key enumeration against the
  members of a type, once the type of the enumeration is accepted, the loop over the keys
  ends valid exactly when it has emitted no diagnostic (no key was extraneous, none named
  a member of a type that does not conform). When it ends valid, each member left
  unmatched is accepted without a diagnostic if it is defaultable, and otherwise gets the
  diagnostic \<open>codable_non_decoded_property_here\<close> and makes validation fail. When it does
  not, validation fails right there: the members left unmatched are not examined and get
  no diagnostic. Nothing else is read: not whether the key enumeration is user-declared,
  and not whether the type conforms to \<open>Encodable\<close>.
\<close>

theorem validateCodingKeysEnum_unmatched_members:
  assumes "Protocol derived = Decodable"
    and "validateCodingKeysType derived codingKeysTypeDecl = Inr (Some codingKeysDecl, derived1)"
    and "validateCodingKeysEnum_cases (getAllElements codingKeysDecl) (varDecls, True, derived1) =
           (pending, varDeclsAreValid, derived2)"
  shows "(varDeclsAreValid \<longleftrightarrow> Diags derived2 = Diags derived1) \<and>
         validateCodingKeysEnum_varDecls derived varDecls codingKeysTypeDecl =
           (if varDeclsAreValid
            then Inr (list_all (\<lambda>entry. defaultable (snd entry)) pending,
                      derived2\<lparr>Diags := Diags derived2 @
                        map (\<lambda>entry. codable_non_decoded_property_here (fst entry))
                          (filter (\<lambda>entry. \<not> defaultable (snd entry)) pending)\<rparr>)
            else Inr (False, derived2))"
proof -
  have proto: "Protocol derived2 = Decodable"
    using validateCodingKeysType_Protocol[OF assms(2)]
      validateCodingKeysEnum_cases_Protocol[OF assms(3)] assms(1) by simp
  have run: "validateCodingKeysEnum_varDecls derived varDecls codingKeysTypeDecl =
           (if varDeclsAreValid
            then Inr (list_all (\<lambda>entry. defaultable (snd entry)) pending,
                      derived2\<lparr>Diags := Diags derived2 @
                        map (\<lambda>entry. codable_non_decoded_property_here (fst entry))
                          (filter (\<lambda>entry. \<not> defaultable (snd entry)) pending)\<rparr>)
            else Inr (False, derived2))"
    using validateCodingKeysEnum_remaining_result[of pending True derived2 "[]"]
    by (simp add: validateCodingKeysEnum_varDecls_def assms(2,3) proto)
  from validateCodingKeysEnum_cases_valid_Diags[OF assms(3)] run show ?thesis by simp
qed

lemma mv_assign_keys: "fst ` set (mv_assign m k v) = insert k (fst ` set m)"
proof (cases "map_of m k")
  case None
  then show ?thesis by (simp add: mv_assign_def)
next
  case (Some a)
  then have k: "k \<in> fst ` set m"
    by (metis map_of_eq_None_iff option.distinct(1))
  have "map fst (map (\<lambda>entry. if fst entry = k then (k, v) else entry) m) = map fst m"
    by (induction m) auto
  then have "fst ` set (map (\<lambda>entry. if fst entry = k then (k, v) else entry) m) = fst ` set m"
    by (metis set_map)
  with Some k show ?thesis by (auto simp: mv_assign_def)
qed

lemma properties_loop_keys:
  "fst ` set (properties_loop vs m) =
     fst ` set m \<union> getVarNameForCoding ` {v \<in> set vs. isUserAccessible v}"
  by (induction vs arbitrary: m) (auto simp: mv_assign_keys)

lemma validateCodingKeysType_enum:
  assumes "typeConformsToCodingKey td"
    and "Option.bind (getAnyNominal td) dyn_cast_EnumNominal = Some codingKeys"
  shows "validateCodingKeysType derived td = Inr (Some codingKeys, derived)"
  using assms by (simp add: validateCodingKeysType_def)

text \<open>
  Claim C7. For a struct or a class with a user-declared key enumeration (found by name,
  directly or through a type alias, and accepted as an enumeration conforming to
  \<open>CodingKey\<close>) of which some case names no member: validation emits, for every name that is
  no member, exactly as many \<open>codable_extraneous_codingkey_case_here\<close> diagnostics as the
  enumeration has cases of that name (one per case: the loop goes through all the cases),
  and \<open>deriveEncodable\<close> returns no declaration, hence no body, after reporting that the type
  does not conform.
\<close>

theorem deriveEncodable_extraneous_keys:
  assumes "kind (Nominal derived) = StructKind \<or> kind (Nominal derived) = ClassKind"
    and "Protocol derived = Encodable"
    and "getBaseName requirement = Named Id_encode"
    and "\<not> checkAndDiagnoseDisallowedContext derived"
    and "lookupDirect (Nominal derived) Id_CodingKeys = [codingKeysDecl]"
    and "dyn_cast_TypeDecl codingKeysDecl = Some codingKeysTypeDecl"
    and "typeConformsToCodingKey codingKeysTypeDecl"
    and "Option.bind (getAnyNominal codingKeysTypeDecl) dyn_cast_EnumNominal = Some codingKeys"
    and "\<exists>elt \<in> set (getAllElements codingKeys).
           getBaseIdentifier elt \<notin>
             getVarNameForCoding ` {v \<in> set (getStoredProperties (Nominal derived)). isUserAccessible v}"
  shows "\<exists>new.
           deriveEncodable derived requirement =
             Inr (None, derived\<lparr>Diags := Diags derived @ new @ [type_does_not_conform, no_witnesses]\<rparr>) \<and>
           (\<forall>k. k \<notin> getVarNameForCoding `
                       {v \<in> set (getStoredProperties (Nominal derived)). isUserAccessible v} \<longrightarrow>
                count_list new (codable_extraneous_codingkey_case_here k) =
                count_list (map getBaseIdentifier (getAllElements codingKeys)) k)"
proof -
  let ?K = "getVarNameForCoding ` {v \<in> set (getStoredProperties (Nominal derived)). isUserAccessible v}"
  let ?props = "properties_loop (getStoredProperties (Nominal derived)) []"
  have keys: "fst ` set ?props \<subseteq> ?K"
    by (simp add: properties_loop_keys)
  from validateCodingKeysEnum_cases_result[OF keys, of "getAllElements codingKeys" True derived "[]"]
  obtain pending valid' new where
    run: "validateCodingKeysEnum_cases (getAllElements codingKeys) (?props, True, derived) =
            (pending, valid', derived\<lparr>Diags := Diags derived @ new\<rparr>)"
    and cnt: "\<forall>k. k \<notin> ?K \<longrightarrow>
                count_list new (codable_extraneous_codingkey_case_here k) =
                count_list (map getBaseIdentifier (getAllElements codingKeys)) k"
    and inv: "(\<exists>k \<in> set (map getBaseIdentifier (getAllElements codingKeys)). k \<notin> ?K) \<longrightarrow> \<not> valid'"
    by auto
  from assms(9) inv have invalid: "\<not> valid'" by auto
  have notEnum: "dyn_cast_EnumDecl (Nominal derived) = None"
    using assms(1) by (auto simp: dyn_cast_EnumDecl_def)
  have vars: "validateCodingKeysEnum_varDecls derived ?props codingKeysTypeDecl =
                Inr (False, derived\<lparr>Diags := Diags derived @ new\<rparr>)"
    by (simp add: validateCodingKeysEnum_varDecls_def
        validateCodingKeysType_enum[OF assms(7,8)] run invalid)
  have val: "validateCodingKeysEnum derived = Inr (False, derived\<lparr>Diags := Diags derived @ new\<rparr>)"
    by (simp add: validateCodingKeysEnum_def assms(5,6) notEnum vars Let_def)
  have can: "canSynthesize derived requirement = Inr (False, derived\<lparr>Diags := Diags derived @ new\<rparr>)"
    by (simp add: canSynthesize_def assms(2) val Let_def)
  have "deriveEncodable derived requirement =
          Inr (None, derived\<lparr>Diags := Diags derived @ new @ [type_does_not_conform, no_witnesses]\<rparr>)"
    using assms(1,3,4) by (auto simp: deriveEncodable_def can diagnose_def)
  with cnt show ?thesis by blast
qed

lemma exStruct_properties:
  "properties_loop (getStoredProperties exStruct) [] =
     [(''x'', Var (storedVar ''x'' TyInt)), (''y'', Var exVarY), (''z'', Var exVarZ)]"
  by (simp add: exStruct_def getStoredProperties_def List.map_filter_def storedVar_def
      exVarY_def exVarZ_def mv_assign_def getVarNameForCoding_def)

lemma exStruct_keys:
  "getAllElements (keyEnum ''CodingKeys'' [''x''] False) = [EnumElementDecl ''x'' None]"
  by (simp add: getAllElements_def keyEnum_def List.map_filter_def)

lemma exStruct_cases:
  "validateCodingKeysEnum_cases [EnumElementDecl ''x'' None]
     ([(''x'', Var (storedVar ''x'' TyInt)), (''y'', Var exVarY), (''z'', Var exVarZ)], True,
      exStructDecodable) =
     ([(''y'', Var exVarY), (''z'', Var exVarZ)], True, exStructDecodable)"
  by (simp add: mv_find_def mv_erase_def exStructDecodable_def)

lemma exStruct_type:
  "validateCodingKeysType exStructDecodable
     (NominalTD (EnumNominal (keyEnum ''CodingKeys'' [''x''] False))) =
     Inr (Some (keyEnum ''CodingKeys'' [''x''] False), exStructDecodable)"
  by (simp add: validateCodingKeysType_def keyEnum_def)

lemma exStruct_defaultable: "\<not> defaultable (Var exVarY)" "defaultable (Var exVarZ)"
  by (simp_all add: defaultable_def exVarY_def exVarZ_def)

theorem validateCodingKeysEnum_unmatched_members_witness:
  "Protocol exStructDecodable = Decodable \<and>
   validateCodingKeysType exStructDecodable
     (NominalTD (EnumNominal (keyEnum ''CodingKeys'' [''x''] False))) =
     Inr (Some (keyEnum ''CodingKeys'' [''x''] False), exStructDecodable) \<and>
   validateCodingKeysEnum_cases (getAllElements (keyEnum ''CodingKeys'' [''x''] False))
     ([(''x'', Var (storedVar ''x'' TyInt)), (''y'', Var exVarY), (''z'', Var exVarZ)], True,
      exStructDecodable) =
     ([(''y'', Var exVarY), (''z'', Var exVarZ)], True, exStructDecodable) \<and>
   validateCodingKeysEnum_varDecls exStructDecodable
     [(''x'', Var (storedVar ''x'' TyInt)), (''y'', Var exVarY), (''z'', Var exVarZ)]
     (NominalTD (EnumNominal (keyEnum ''CodingKeys'' [''x''] False))) =
     Inr (False, exStructDecodable\<lparr>Diags := [codable_non_decoded_property_here ''y'']\<rparr>)"
proof -
  have h1: "Protocol exStructDecodable = Decodable" by (simp add: exStructDecodable_def)
  have h3: "validateCodingKeysEnum_cases (getAllElements (keyEnum ''CodingKeys'' [''x''] False))
     ([(''x'', Var (storedVar ''x'' TyInt)), (''y'', Var exVarY), (''z'', Var exVarZ)], True,
      exStructDecodable) =
     ([(''y'', Var exVarY), (''z'', Var exVarZ)], True, exStructDecodable)"
    unfolding exStruct_keys by (rule exStruct_cases)
  have d: "Diags exStructDecodable = []" by (simp add: exStructDecodable_def)
  show ?thesis
    using validateCodingKeysEnum_unmatched_members[OF h1 exStruct_type h3]
    by (simp add: h1 exStruct_type h3 exStruct_defaultable d)
qed

text \<open>
  Claim C2, as stated, excepts the members whose key is absent from a user-declared key
  enumeration of a type that also conforms to \<open>Encodable\<close>: only a warning, no error. In
  that very situation the member \<open>y\<close> of the example fails validation with the diagnostic.
\<close>

theorem validateCodingKeysEnum_no_encodable_exception_counterexample:
  "conformsToEncodable (Nominal exStructDecodable) \<and>
   lookupEvaluatedCodingKeysEnum (Nominal exStructDecodable) Id_CodingKeys =
     Inr (Some (keyEnum ''CodingKeys'' [''x''] False)) \<and>
   \<not> isImplicit (keyEnum ''CodingKeys'' [''x''] False) \<and>
   lookupEnumCase (keyEnum ''CodingKeys'' [''x''] False) ''y'' = None \<and>
   validateCodingKeysEnum exStructDecodable =
     Inr (False, exStructDecodable\<lparr>Diags := [codable_non_decoded_property_here ''y'']\<rparr>)"
proof -
  have look: "lookupDirect exStruct Id_CodingKeys =
                [NominalD (EnumNominal (keyEnum ''CodingKeys'' [''x''] False))]"
    by (simp add: lookupDirect_def exStruct_def storedVar_def exVarY_def exVarZ_def keyEnum_def)
  have nom: "Nominal exStructDecodable = exStruct" by (simp add: exStructDecodable_def)
  have d: "Diags exStructDecodable = []" "Protocol exStructDecodable = Decodable"
    by (simp_all add: exStructDecodable_def)
  have "validateCodingKeysEnum_varDecls exStructDecodable
     [(''x'', Var (storedVar ''x'' TyInt)), (''y'', Var exVarY), (''z'', Var exVarZ)]
     (NominalTD (EnumNominal (keyEnum ''CodingKeys'' [''x''] False))) =
     Inr (validateCodingKeysEnum_remaining [(''y'', Var exVarY), (''z'', Var exVarZ)]
            (True, exStructDecodable))"
    by (simp add: validateCodingKeysEnum_varDecls_def exStruct_type exStruct_keys exStruct_cases d
        del: validateCodingKeysEnum_cases.simps validateCodingKeysEnum_remaining.simps)
  also have "\<dots> =
     Inr (False, exStructDecodable\<lparr>Diags := [codable_non_decoded_property_here ''y'']\<rparr>)"
    by (simp add: exVarY_def exVarZ_def diagnose_def d)
  finally have vars: "validateCodingKeysEnum_varDecls exStructDecodable
     [(''x'', Var (storedVar ''x'' TyInt)), (''y'', Var exVarY), (''z'', Var exVarZ)]
     (NominalTD (EnumNominal (keyEnum ''CodingKeys'' [''x''] False))) =
     Inr (False, exStructDecodable\<lparr>Diags := [codable_non_decoded_property_here ''y'']\<rparr>)" .
  have "validateCodingKeysEnum exStructDecodable =
     Inr (False, exStructDecodable\<lparr>Diags := [codable_non_decoded_property_here ''y'']\<rparr>)"
    by (simp add: validateCodingKeysEnum_def nom look exStruct_properties vars
        dyn_cast_EnumDecl_def Let_def) (simp add: exStruct_def)
  moreover have "lookupEvaluatedCodingKeysEnum (Nominal exStructDecodable) Id_CodingKeys =
     Inr (Some (keyEnum ''CodingKeys'' [''x''] False))"
    by (simp add: lookupEvaluatedCodingKeysEnum_def nom look)
  moreover have "conformsToEncodable (Nominal exStructDecodable)"
    by (simp add: nom exStruct_def)
  moreover have "\<not> isImplicit (keyEnum ''CodingKeys'' [''x''] False)"
    "lookupEnumCase (keyEnum ''CodingKeys'' [''x''] False) ''y'' = None"
    by (simp_all add: keyEnum_def lookupEnumCase_def lookupDirect_enum_def)
  ultimately show ?thesis by (intro conjI)
qed

theorem deriveEncodable_extraneous_keys_witness:
  "(kind (Nominal exExtraneous) = StructKind \<or> kind (Nominal exExtraneous) = ClassKind) \<and>
   Protocol exExtraneous = Encodable \<and>
   \<not> checkAndDiagnoseDisallowedContext exExtraneous \<and>
   lookupDirect (Nominal exExtraneous) Id_CodingKeys =
     [NominalD (EnumNominal (keyEnum ''CodingKeys'' [''q'', ''x'', ''r''] False))] \<and>
   (\<exists>new.
      deriveEncodable exExtraneous \<lparr>getBaseName = Named Id_encode, getArgumentNames = [Id_to]\<rparr> =
        Inr (None, exExtraneous\<lparr>Diags := new @ [type_does_not_conform, no_witnesses]\<rparr>) \<and>
      count_list new (codable_extraneous_codingkey_case_here ''q'') = 1 \<and>
      count_list new (codable_extraneous_codingkey_case_here ''r'') = 1)"
proof -
  let ?ck = "keyEnum ''CodingKeys'' [''q'', ''x'', ''r''] False"
  let ?req = "\<lparr>getBaseName = Named Id_encode, getArgumentNames = [Id_to]\<rparr>"
  have h1: "kind (Nominal exExtraneous) = StructKind \<or> kind (Nominal exExtraneous) = ClassKind"
    and h2: "Protocol exExtraneous = Encodable"
    and h4: "\<not> checkAndDiagnoseDisallowedContext exExtraneous"
    by (simp_all add: exExtraneous_def)
  have h3: "getBaseName ?req = Named Id_encode" by simp
  have d0: "Diags exExtraneous = []" by (simp add: exExtraneous_def)
  have h5: "lookupDirect (Nominal exExtraneous) Id_CodingKeys = [NominalD (EnumNominal ?ck)]"
    by (simp add: exExtraneous_def lookupDirect_def storedVar_def keyEnum_def)
  have h6: "dyn_cast_TypeDecl (NominalD (EnumNominal ?ck)) = Some (NominalTD (EnumNominal ?ck))"
    by simp
  have h7: "typeConformsToCodingKey (NominalTD (EnumNominal ?ck))" by (simp add: keyEnum_def)
  have h8: "Option.bind (getAnyNominal (NominalTD (EnumNominal ?ck))) dyn_cast_EnumNominal = Some ?ck"
    by simp
  have props: "getStoredProperties (Nominal exExtraneous) = [storedVar ''x'' TyInt]"
    by (simp add: exExtraneous_def getStoredProperties_def List.map_filter_def storedVar_def)
  have keys: "getAllElements ?ck =
                [EnumElementDecl ''q'' None, EnumElementDecl ''x'' None, EnumElementDecl ''r'' None]"
    by (simp add: getAllElements_def keyEnum_def List.map_filter_def)
  have names: "getVarNameForCoding `
                 {v \<in> set (getStoredProperties (Nominal exExtraneous)). isUserAccessible v} = {''x''}"
    unfolding props by (simp add: storedVar_def getVarNameForCoding_def cong: conj_cong)
  have h9: "\<exists>elt \<in> set (getAllElements ?ck).
           getBaseIdentifier elt \<notin>
             getVarNameForCoding `
               {v \<in> set (getStoredProperties (Nominal exExtraneous)). isUserAccessible v}"
    unfolding names keys by simp
  from deriveEncodable_extraneous_keys[OF h1 h2 h3 h4 h5 h6 h7 h8 h9]
  obtain new where
    run: "deriveEncodable exExtraneous ?req =
            Inr (None, exExtraneous\<lparr>Diags := Diags exExtraneous @ new @
                                           [type_does_not_conform, no_witnesses]\<rparr>)"
    and cnt: "\<forall>k. k \<notin> getVarNameForCoding `
                       {v \<in> set (getStoredProperties (Nominal exExtraneous)). isUserAccessible v} \<longrightarrow>
                count_list new (codable_extraneous_codingkey_case_here k) =
                count_list (map getBaseIdentifier (getAllElements ?ck)) k"
    by blast
  have q: "count_list new (codable_extraneous_codingkey_case_here ''q'') = 1"
    using cnt[rule_format, of "''q''"] unfolding names keys by simp
  have r: "count_list new (codable_extraneous_codingkey_case_here ''r'') = 1"
    using cnt[rule_format, of "''r''"] unfolding names keys by simp
  have run': "deriveEncodable exExtraneous ?req =
        Inr (None, exExtraneous\<lparr>Diags := new @ [type_does_not_conform, no_witnesses]\<rparr>)"
    using run d0 by simp
  show ?thesis
    apply (intro conjI h1 h2 h4 h5)
    apply (rule exI[of _ new])
    apply (intro conjI run' q r)
    done
qed

lemma validateCodingKeysType_frame:
  assumes "validateCodingKeysType derived td = Inr (r, derived')"
  shows "\<exists>new. derived' = derived\<lparr>Diags := Diags derived @ new\<rparr>"
proof -
  have "derived' = derived \<or> (\<exists>d. derived' = diagnose d derived)"
    using assms
    by (auto simp: validateCodingKeysType_def Let_def split: if_splits option.splits)
  then show ?thesis
  proof
    assume "derived' = derived"
    then have "derived' = derived\<lparr>Diags := Diags derived @ []\<rparr>" by simp
    then show ?thesis by blast
  next
    assume "\<exists>d. derived' = diagnose d derived"
    then show ?thesis by (auto simp: diagnose_def)
  qed
qed

lemma validateCodingKeysEnum_cases_frame:
  assumes "validateCodingKeysEnum_cases keys (varDecls, valid, derived) = (pending, valid', derived')"
  shows "\<exists>new. derived' = derived\<lparr>Diags := Diags derived @ new\<rparr>"
proof -
  from validateCodingKeysEnum_cases_result[of varDecls "fst ` set varDecls" keys valid derived "[]"]
  obtain p v new where
    "validateCodingKeysEnum_cases keys (varDecls, valid, derived) =
       (p, v, derived\<lparr>Diags := Diags derived @ new\<rparr>)"
    by auto
  with assms show ?thesis by auto
qed

lemma validateCodingKeysEnum_varDecls_frame:
  assumes "validateCodingKeysEnum_varDecls derived varDecls td = Inr (b, derived')"
  shows "\<exists>new. derived' = derived\<lparr>Diags := Diags derived @ new\<rparr>"
proof (cases "validateCodingKeysType derived td")
  case (Inl c)
  with assms show ?thesis by (simp add: validateCodingKeysEnum_varDecls_def)
next
  case (Inr r)
  obtain ck d1 where r: "r = (ck, d1)" by (cases r)
  from validateCodingKeysType_frame[OF Inr[unfolded r]] obtain new1 where
    d1: "d1 = derived\<lparr>Diags := Diags derived @ new1\<rparr>" by blast
  show ?thesis
  proof (cases ck)
    case None
    with assms Inr r d1 show ?thesis by (auto simp: validateCodingKeysEnum_varDecls_def)
  next
    case (Some e)
    obtain pending v d2 where
      c: "validateCodingKeysEnum_cases (getAllElements e) (varDecls, True, d1) = (pending, v, d2)"
      by (metis prod_cases3)
    from validateCodingKeysEnum_cases_frame[OF c] obtain new2 where
      d2: "d2 = d1\<lparr>Diags := Diags d1 @ new2\<rparr>" by blast
    have d2': "d2 = derived\<lparr>Diags := Diags derived @ (new1 @ new2)\<rparr>"
      using d1 d2 by simp
    have rem: "validateCodingKeysEnum_remaining pending (v, d2) =
                 (v \<and> list_all (\<lambda>entry. defaultable (snd entry)) pending,
                  derived\<lparr>Diags := Diags derived @ (new1 @ new2) @
                     map (\<lambda>entry. codable_non_decoded_property_here (fst entry))
                       (filter (\<lambda>entry. \<not> defaultable (snd entry)) pending)\<rparr>)"
      unfolding d2' by (rule validateCodingKeysEnum_remaining_result)
    from assms have "derived' = d2 \<or> derived' = snd (validateCodingKeysEnum_remaining pending (v, d2))"
      by (auto simp: validateCodingKeysEnum_varDecls_def Inr r Some c split: if_splits)
    then show ?thesis
    proof
      assume "derived' = d2"
      with d2' show ?thesis by blast
    next
      assume "derived' = snd (validateCodingKeysEnum_remaining pending (v, d2))"
      with rem show ?thesis by (metis snd_conv)
    qed
  qed
qed

lemma validateCodingKeysEnum_enum_cases_frame:
  "\<exists>new. snd (validateCodingKeysEnum_enum_cases caseNames keys (valid, derived\<lparr>Diags := Diags derived @ old\<rparr>)) =
          derived\<lparr>Diags := Diags derived @ old @ new\<rparr>"
proof (induction keys arbitrary: valid old)
  case Nil
  show ?case by (rule exI[of _ "[]"]) simp
next
  case (Cons elt rest)
  show ?case
  proof (cases "getBaseIdentifier elt \<in> set caseNames")
    case True
    with Cons[of valid old] show ?thesis by simp
  next
    case False
    from Cons[of False "old @ [codable_extraneous_codingkey_case_here (getBaseIdentifier elt)]"]
    obtain new where
      "snd (validateCodingKeysEnum_enum_cases caseNames rest
          (False, derived\<lparr>Diags := Diags derived @ old @
              [codable_extraneous_codingkey_case_here (getBaseIdentifier elt)]\<rparr>)) =
       derived\<lparr>Diags := Diags derived @ (old @
              [codable_extraneous_codingkey_case_here (getBaseIdentifier elt)]) @ new\<rparr>"
      by auto
    then show ?thesis
      using False
      by (intro exI[of _ "codable_extraneous_codingkey_case_here (getBaseIdentifier elt) # new"])
         (simp add: diagnose_Diags_update)
  qed
qed

lemma validateCodingKeysEnum_enum_frame:
  assumes "validateCodingKeysEnum_enum derived td = Inr (b, derived')"
  shows "\<exists>new. derived' = derived\<lparr>Diags := Diags derived @ new\<rparr>"
proof (cases "dyn_cast_EnumDecl (Nominal derived)")
  case None
  with assms have "derived' = derived\<lparr>Diags := Diags derived @ []\<rparr>"
    by (simp add: validateCodingKeysEnum_enum_def)
  then show ?thesis by blast
next
  case (Some enumDecl)
  show ?thesis
  proof (cases "validateCodingKeysType derived td")
    case (Inl c)
    with assms Some show ?thesis by (simp add: validateCodingKeysEnum_enum_def)
  next
    case (Inr r)
    obtain ck d1 where r: "r = (ck, d1)" by (cases r)
    from validateCodingKeysType_frame[OF Inr[unfolded r]] obtain new1 where
      d1: "d1 = derived\<lparr>Diags := Diags derived @ new1\<rparr>" by blast
    show ?thesis
    proof (cases ck)
      case None
      with assms Some Inr r d1 show ?thesis by (auto simp: validateCodingKeysEnum_enum_def)
    next
      case (Some e)
      from validateCodingKeysEnum_enum_cases_frame[of "map getBaseIdentifier (getAllElements_target enumDecl)"
          "getAllElements e" True derived new1]
      obtain new where
        "snd (validateCodingKeysEnum_enum_cases (map getBaseIdentifier (getAllElements_target enumDecl))
               (getAllElements e) (True, d1)) = derived\<lparr>Diags := Diags derived @ new1 @ new\<rparr>"
        unfolding d1 by blast
      moreover from assms have "derived' =
        snd (validateCodingKeysEnum_enum_cases (map getBaseIdentifier (getAllElements_target enumDecl))
               (getAllElements e) (True, d1))"
        using \<open>dyn_cast_EnumDecl (Nominal derived) = Some enumDecl\<close>
        by (auto simp: validateCodingKeysEnum_enum_def Inr r Some)
      ultimately show ?thesis by metis
    qed
  qed
qed

lemma validateCodingKeysEnum_frameI:
  assumes "derived' = derived\<lparr>Diags := Diags derived @ new\<rparr>"
    and "lookupDirect (Nominal derived) Id_CodingKeys \<noteq> []"
  shows "\<exists>new target'.
           derived' = derived\<lparr>Nominal := target', Diags := Diags derived @ new\<rparr> \<and>
           (target' = Nominal derived \<and> lookupDirect (Nominal derived) Id_CodingKeys \<noteq> [] \<or>
            (\<exists>enumDecl. lookupDirect (Nominal derived) Id_CodingKeys = [] \<and>
                        addImplicitCodingKeys (Nominal derived) = Inr (enumDecl, target')))"
  by (rule exI[of _ new], rule exI[of _ "Nominal derived"]) (use assms in simp)

text \<open>What \<open>validateCodingKeysEnum\<close> changes: the diagnostics, and the members of the type
  when it derives \<open>CodingKeys\<close>.\<close>

lemma validateCodingKeysEnum_frame:
  assumes "validateCodingKeysEnum derived = Inr (b, derived')"
  shows "\<exists>new target'.
           derived' = derived\<lparr>Nominal := target', Diags := Diags derived @ new\<rparr> \<and>
           (target' = Nominal derived \<and> lookupDirect (Nominal derived) Id_CodingKeys \<noteq> [] \<or>
            (\<exists>enumDecl. lookupDirect (Nominal derived) Id_CodingKeys = [] \<and>
                        addImplicitCodingKeys (Nominal derived) = Inr (enumDecl, target')))"
proof (cases "lookupDirect (Nominal derived) Id_CodingKeys")
  case Nil
  show ?thesis
  proof (cases "addImplicitCodingKeys (Nominal derived)")
    case (Inl c)
    with assms Nil show ?thesis by (simp add: validateCodingKeysEnum_def)
  next
    case (Inr r)
    obtain enumDecl target' where r: "r = (enumDecl, target')" by (cases r)
    let ?d = "derived\<lparr>Nominal := target'\<rparr>"
    let ?td = "NominalTD (EnumNominal enumDecl)"
    from assms have
      "(dyn_cast_EnumDecl target' \<noteq> None \<and> validateCodingKeysEnum_enum ?d ?td = Inr (b, derived')) \<or>
       (dyn_cast_EnumDecl target' = None \<and>
        validateCodingKeysEnum_varDecls ?d (properties_loop (getStoredProperties target') []) ?td =
          Inr (b, derived'))"
      by (auto simp: validateCodingKeysEnum_def Nil Inr r Let_def split: if_splits)
    then obtain new where "derived' = ?d\<lparr>Diags := Diags ?d @ new\<rparr>"
      using validateCodingKeysEnum_enum_frame validateCodingKeysEnum_varDecls_frame by blast
    then have "derived' = derived\<lparr>Nominal := target', Diags := Diags derived @ new\<rparr>" by simp
    then show ?thesis
      by (intro exI[of _ new] exI[of _ target']) (simp add: Nil Inr r)
  qed
next
  case (Cons front rest)
  show ?thesis
  proof (cases rest)
    case (Cons x xs)
    with assms \<open>lookupDirect (Nominal derived) Id_CodingKeys = front # rest\<close>
    have "derived' = derived\<lparr>Diags := Diags derived @ []\<rparr>"
      by (simp add: validateCodingKeysEnum_def)
    then show ?thesis
      by (rule validateCodingKeysEnum_frameI)
         (simp add: \<open>lookupDirect (Nominal derived) Id_CodingKeys = front # rest\<close>)
  next
    case Nil
    note look = \<open>lookupDirect (Nominal derived) Id_CodingKeys = front # rest\<close>[unfolded Nil]
    show ?thesis
    proof (cases "dyn_cast_TypeDecl front")
      case None
      with assms look have "derived' = diagnose codable_codingkeys_type_is_not_an_enum_here derived"
        by (simp add: validateCodingKeysEnum_def)
      then have "derived' = derived\<lparr>Diags := Diags derived @
                    [codable_codingkeys_type_is_not_an_enum_here]\<rparr>"
        by (simp add: diagnose_def)
      then show ?thesis
        by (rule validateCodingKeysEnum_frameI) (simp add: look)
    next
      case (Some td)
      from assms have
        "(dyn_cast_EnumDecl (Nominal derived) \<noteq> None \<and>
            validateCodingKeysEnum_enum derived td = Inr (b, derived')) \<or>
         (dyn_cast_EnumDecl (Nominal derived) = None \<and>
          validateCodingKeysEnum_varDecls derived
            (properties_loop (getStoredProperties (Nominal derived)) []) td = Inr (b, derived'))"
        by (auto simp: validateCodingKeysEnum_def look Some Let_def split: if_splits)
      then obtain new where "derived' = derived\<lparr>Diags := Diags derived @ new\<rparr>"
        using validateCodingKeysEnum_enum_frame validateCodingKeysEnum_varDecls_frame by blast
      then show ?thesis
        by (rule validateCodingKeysEnum_frameI) (simp add: look)
    qed
  qed
qed

lemma addImplicitCodingKeys_kind:
  assumes "addImplicitCodingKeys target = Inr (enumDecl, target')"
  shows "kind target' = kind target"
  using assms
  by (auto simp: addImplicitCodingKeys_def addImplicitCodingKeys_enum_def addMember_def Let_def
      split: if_splits)

lemma validateCodingKeysEnum_kind:
  assumes "validateCodingKeysEnum derived = Inr (b, derived')"
  shows "kind (Nominal derived') = kind (Nominal derived)"
  using validateCodingKeysEnum_frame[OF assms] addImplicitCodingKeys_kind by auto

lemma canSynthesize_class_with_superclass:
  assumes "Protocol derived = Decodable"
    and "kind (Nominal derived) = ClassKind"
    and "getSuperclassDecl (Nominal derived) = Some superclassDecl"
  shows "canSynthesize derived requirement =
           (case canSynthesize_superclass derived requirement superclassDecl of
              Inl c \<Rightarrow> Inl c
            | Inr (False, derived') \<Rightarrow> Inr (False, derived')
            | Inr (True, derived') \<Rightarrow>
                (case validateCodingKeysEnum derived' of
                   Inl c \<Rightarrow> Inl c
                 | Inr (False, derived'') \<Rightarrow> Inr (False, derived'')
                 | Inr (True, derived'') \<Rightarrow>
                     (case dyn_cast_EnumDecl (Nominal derived'') of
                        None \<Rightarrow> Inr (True, derived'')
                      | Some enumDecl \<Rightarrow>
                          canSynthesize_elements (getAllElements_target enumDecl) []
                            (True, derived''))))"
  using assms by (simp add: canSynthesize_def dyn_cast_ClassDecl_def Let_def)

lemma canSynthesize_superclass_True:
  assumes "canSynthesize_superclass derived requirement superclassDecl = Inr (True, derived')"
    and "getBaseName requirement = Constructor"
  shows "derived' = derived \<and>
         (\<exists>initializer.
            lookupMember superclassDecl
              (if Protocol derived \<in> set (superclassConformances superclassDecl)
               then getArgumentNames requirement else []) = [initializer] \<and>
            isDesignatedInit initializer \<and> isAccessibleFrom initializer \<and>
            \<not> isFailable initializer)"
  using assms
  by (auto simp: canSynthesize_superclass_def split: if_splits list.splits)

text \<open>
  Claim C4, as amended. For a class with a superclass deriving \<open>Decodable\<close>, the initializer
  looked up on the superclass is the requirement's own name (\<open>init(from:)\<close>) when the
  superclass conforms to \<open>Decodable\<close>, and \<open>init()\<close> otherwise. No candidate, a candidate
  that is not designated, not accessible, or failable: each makes \<open>canSynthesize\<close> return
  failure with its own diagnostic and nothing else changed (the key enumeration is neither
  looked up nor synthesized). More than one candidate makes it return failure with the
  state unchanged: no diagnostic. With exactly one designated, accessible, non-failable
  candidate the result is that of the validation of the key enumeration, and
  \<open>canSynthesize\<close> succeeds only with such a candidate.
\<close>

theorem canSynthesize_superclass_initializer:
  assumes "Protocol derived = Decodable"
    and "kind (Nominal derived) = ClassKind"
    and "getSuperclassDecl (Nominal derived) = Some superclassDecl"
    and "getBaseName requirement = Constructor"
    and "memberName =
           (if Decodable \<in> set (superclassConformances superclassDecl)
            then getArgumentNames requirement else [])"
  shows "(lookupMember superclassDecl memberName = [] \<longrightarrow>
            canSynthesize derived requirement =
              Inr (False, diagnose (decodable_no_super_init_here memberName) derived)) \<and>
         (length (lookupMember superclassDecl memberName) > 1 \<longrightarrow>
            canSynthesize derived requirement = Inr (False, derived)) \<and>
         (\<forall>initializer. lookupMember superclassDecl memberName = [initializer] \<longrightarrow>
            (\<not> isDesignatedInit initializer \<longrightarrow>
               canSynthesize derived requirement =
                 Inr (False, diagnose (decodable_super_init_not_designated_here memberName) derived)) \<and>
            (isDesignatedInit initializer \<and> \<not> isAccessibleFrom initializer \<longrightarrow>
               canSynthesize derived requirement =
                 Inr (False, diagnose (decodable_inaccessible_super_init_here memberName) derived)) \<and>
            (isDesignatedInit initializer \<and> isAccessibleFrom initializer \<and> isFailable initializer \<longrightarrow>
               canSynthesize derived requirement =
                 Inr (False, diagnose (decodable_super_init_is_failable_here memberName) derived)) \<and>
            (isDesignatedInit initializer \<and> isAccessibleFrom initializer \<and>
             \<not> isFailable initializer \<longrightarrow>
               canSynthesize derived requirement = validateCodingKeysEnum derived)) \<and>
         (\<forall>derived'. canSynthesize derived requirement = Inr (True, derived') \<longrightarrow>
            (\<exists>initializer.
               lookupMember superclassDecl memberName = [initializer] \<and>
               isDesignatedInit initializer \<and> isAccessibleFrom initializer \<and>
               \<not> isFailable initializer))"
proof -
  note can = canSynthesize_class_with_superclass[OF assms(1,2,3), of requirement]
  have name: "(if Protocol derived \<in> set (superclassConformances superclassDecl)
               then getArgumentNames requirement else []) = memberName"
    using assms(1,5) by simp
  have sup: "canSynthesize_superclass derived requirement superclassDecl =
     (case lookupMember superclassDecl memberName of
             [] \<Rightarrow> Inr (False, diagnose (decodable_no_super_init_here memberName) derived)
           | [initializer] \<Rightarrow>
               if \<not> isDesignatedInit initializer
               then Inr (False,
                         diagnose (decodable_super_init_not_designated_here memberName) derived)
               else if \<not> isAccessibleFrom initializer
               then Inr (False,
                         diagnose (decodable_inaccessible_super_init_here memberName) derived)
               else if isFailable initializer
               then Inr (False,
                         diagnose (decodable_super_init_is_failable_here memberName) derived)
               else Inr (True, derived)
           | _ \<Rightarrow> Inr (False, derived))"
    unfolding assms(5) using assms(1,4) by (simp add: canSynthesize_superclass_def)
  have pass: "canSynthesize derived requirement = validateCodingKeysEnum derived"
    if ok: "canSynthesize_superclass derived requirement superclassDecl = Inr (True, derived)"
  proof (cases "validateCodingKeysEnum derived")
    case (Inl c)
    then show ?thesis by (simp add: can ok)
  next
    case (Inr r)
    obtain b d where r: "r = (b, d)" by (cases r)
    have "kind (Nominal d) = ClassKind"
      using validateCodingKeysEnum_kind[OF Inr[unfolded r]] assms(2) by simp
    then have "dyn_cast_EnumDecl (Nominal d) = None" by (simp add: dyn_cast_EnumDecl_def)
    then show ?thesis by (cases b) (simp_all add: can ok Inr r)
  qed
  have c1: "lookupMember superclassDecl memberName = [] \<longrightarrow>
            canSynthesize derived requirement =
              Inr (False, diagnose (decodable_no_super_init_here memberName) derived)"
    by (simp add: can sup)
  have c2: "length (lookupMember superclassDecl memberName) > 1 \<longrightarrow>
            canSynthesize derived requirement = Inr (False, derived)"
    by (auto simp: can sup split: list.splits)
  have c3: "\<forall>initializer. lookupMember superclassDecl memberName = [initializer] \<longrightarrow>
            (\<not> isDesignatedInit initializer \<longrightarrow>
               canSynthesize derived requirement =
                 Inr (False, diagnose (decodable_super_init_not_designated_here memberName) derived)) \<and>
            (isDesignatedInit initializer \<and> \<not> isAccessibleFrom initializer \<longrightarrow>
               canSynthesize derived requirement =
                 Inr (False, diagnose (decodable_inaccessible_super_init_here memberName) derived)) \<and>
            (isDesignatedInit initializer \<and> isAccessibleFrom initializer \<and> isFailable initializer \<longrightarrow>
               canSynthesize derived requirement =
                 Inr (False, diagnose (decodable_super_init_is_failable_here memberName) derived)) \<and>
            (isDesignatedInit initializer \<and> isAccessibleFrom initializer \<and>
             \<not> isFailable initializer \<longrightarrow>
               canSynthesize derived requirement = validateCodingKeysEnum derived)"
  proof (intro allI impI conjI)
    fix initializer
    assume one: "lookupMember superclassDecl memberName = [initializer]"
    {
      assume "\<not> isDesignatedInit initializer"
      then show "canSynthesize derived requirement =
                 Inr (False, diagnose (decodable_super_init_not_designated_here memberName) derived)"
        by (simp add: can sup one)
    }
    {
      assume "isDesignatedInit initializer \<and> \<not> isAccessibleFrom initializer"
      then show "canSynthesize derived requirement =
                 Inr (False, diagnose (decodable_inaccessible_super_init_here memberName) derived)"
        by (simp add: can sup one)
    }
    {
      assume "isDesignatedInit initializer \<and> isAccessibleFrom initializer \<and> isFailable initializer"
      then show "canSynthesize derived requirement =
                 Inr (False, diagnose (decodable_super_init_is_failable_here memberName) derived)"
        by (simp add: can sup one)
    }
    {
      assume "isDesignatedInit initializer \<and> isAccessibleFrom initializer \<and>
             \<not> isFailable initializer"
      then have "canSynthesize_superclass derived requirement superclassDecl = Inr (True, derived)"
        by (simp add: sup one)
      then show "canSynthesize derived requirement = validateCodingKeysEnum derived"
        by (rule pass)
    }
  qed
  have c4: "\<forall>derived'. canSynthesize derived requirement = Inr (True, derived') \<longrightarrow>
            (\<exists>initializer.
               lookupMember superclassDecl memberName = [initializer] \<and>
               isDesignatedInit initializer \<and> isAccessibleFrom initializer \<and>
               \<not> isFailable initializer)"
  proof (intro allI impI)
    fix derived' assume t: "canSynthesize derived requirement = Inr (True, derived')"
    then obtain d1 where "canSynthesize_superclass derived requirement superclassDecl = Inr (True, d1)"
      unfolding can by (auto split: sum.splits bool.splits prod.splits)
    from canSynthesize_superclass_True[OF this assms(4)]
    show "\<exists>initializer.
               lookupMember superclassDecl memberName = [initializer] \<and>
               isDesignatedInit initializer \<and> isAccessibleFrom initializer \<and>
               \<not> isFailable initializer"
      unfolding name by blast
  qed
  show ?thesis
    by (intro conjI c1 c2 c3 c4)
qed

text \<open>
  Claim C4, as stated, makes each failure condition a distinct diagnosable failure. With
  two candidates for \<open>init()\<close> on the superclass, \<open>canSynthesize\<close> fails and leaves the
  diagnostics empty.
\<close>

theorem canSynthesize_ambiguous_initializer_counterexample:
  "canSynthesize (exSubclass [exInit False, exInit False]) exInitRequirement =
     Inr (False, exSubclass [exInit False, exInit False]) \<and>
   Diags (exSubclass [exInit False, exInit False]) = []"
  by (simp add: canSynthesize_def canSynthesize_superclass_def exSubclass_def dyn_cast_ClassDecl_def
      lookupMember_def exInit_def Let_def)

theorem canSynthesize_superclass_initializer_witness:
  "Protocol (exSubclass [exInit True]) = Decodable \<and>
   kind (Nominal (exSubclass [exInit True])) = ClassKind \<and>
   getSuperclassDecl (Nominal (exSubclass [exInit True])) =
     Some \<lparr>superclassConformances = [], superclassInitializers = [exInit True]\<rparr> \<and>
   getBaseName exInitRequirement = Constructor \<and>
   lookupMember \<lparr>superclassConformances = [], superclassInitializers = [exInit True]\<rparr> [] =
     [exInit True] \<and>
   canSynthesize (exSubclass [exInit True]) exInitRequirement =
     Inr (False, diagnose (decodable_super_init_is_failable_here []) (exSubclass [exInit True]))"
proof -
  let ?s = "\<lparr>superclassConformances = [], superclassInitializers = [exInit True]\<rparr>"
  have h1: "Protocol (exSubclass [exInit True]) = Decodable"
    and h2: "kind (Nominal (exSubclass [exInit True])) = ClassKind"
    and h3: "getSuperclassDecl (Nominal (exSubclass [exInit True])) = Some ?s"
    by (simp_all add: exSubclass_def)
  have h4: "getBaseName exInitRequirement = Constructor" by (simp add: exInitRequirement_def)
  have h5: "[] = (if Decodable \<in> set (superclassConformances ?s)
                  then getArgumentNames exInitRequirement else [])"
    by simp
  have one: "lookupMember ?s [] = [exInit True]"
    by (simp add: lookupMember_def exInit_def)
  have props: "isDesignatedInit (exInit True) \<and> isAccessibleFrom (exInit True) \<and>
               isFailable (exInit True)"
    by (simp add: exInit_def)
  from canSynthesize_superclass_initializer[OF h1 h2 h3 h4 h5]
  have "\<forall>initializer. lookupMember ?s [] = [initializer] \<longrightarrow>
            (isDesignatedInit initializer \<and> isAccessibleFrom initializer \<and> isFailable initializer \<longrightarrow>
               canSynthesize (exSubclass [exInit True]) exInitRequirement =
                 Inr (False, diagnose (decodable_super_init_is_failable_here [])
                               (exSubclass [exInit True])))"
    by blast
  from this[rule_format, OF one props]
  show ?thesis
    by (intro conjI h1 h2 h3 h4 one)
qed








text \<open>
  Claim C3 fails on the code for the payload slots of a tagged union on the decoding side.
  For \<^verbatim>\<open>enum O : Codable { case a(x: Int?) }\<close> the synthesized \<open>init(from:)\<close> decodes
  the optional slot with \<open>decode(Int?.self, forKey:)\<close>, the required variant, while the
  synthesized \<open>encode(to:)\<close> encodes the same slot with \<open>encodeIfPresent\<close>.
\<close>

theorem enum_init_optional_slot_decode:
  "synthesizedBody (deriveDecodable (exOptionalPayload Decodable) exInitRequirement) =
   Some
  (Inr ([PatternBindingNode (NamedPattern Id_container)
          (TryExpr
            (CallExpr
              (UnresolvedDotExpr (DeclRefExpr Id_decoder)
                (CompoundDeclName (Named Id_container) [Id_keyedBy]))
              [DotSelfExpr (TypeExpr (DeclaredType Id_CodingKeys))]
              [Id_keyedBy])),
         VarDeclNode
          \<lparr>containerIdentifier = Id_container,
             containerBase = KeyedDecodingContainer,
             containerKeyType = Id_CodingKeys,
             containerIntroducer = IntroducerLet\<rparr>,
         GuardStmt
          (BinaryExpr (DeclRefExpr ''=='')
            (TupleExpr
              [UnresolvedDotExpr (allKeysExpr (DeclRefExpr Id_container))
                (SimpleDeclName (Named Id_count)),
               IntegerLiteralExpr 1]))
          [ThrowStmt
            (CallExpr
              (UnresolvedDotExpr (TypeExpr (DeclaredType ''DecodingError''))
                (CompoundDeclName (Named Id_typeMismatch) [[], []]))
              [DotSelfExpr (TypeExpr (DeclaredType ''O'')),
               CallExpr
                (UnresolvedDotExpr
                  (TypeExpr (DeclaredType ''DecodingError.Context''))
                  (CompoundDeclName Constructor
                    [Id_codingPath, Id_debugDescription,
                     Id_underlyingError]))
                [UnresolvedDotExpr (DeclRefExpr Id_container)
                  (SimpleDeclName (Named Id_codingPath)),
                 StringLiteralExpr
                  ''Invalid number of keys found, expected one.'',
                 NilLiteralExpr]
                [Id_codingPath, Id_debugDescription, Id_underlyingError]]
              [[], []])],
         SwitchStmt
          (UnresolvedDotExpr (allKeysExpr (DeclRefExpr Id_container))
            (SimpleDeclName (Named Id_first)))
          [CaseStmt
            (OptionalSomePattern
              (EnumElementPattern (DeclaredType Id_CodingKeys) ''a'' None))
            [PatternBindingNode (NamedPattern Id_nestedContainer)
              (TryExpr
                (CallExpr
                  (UnresolvedDotExpr (DeclRefExpr Id_container)
                    (CompoundDeclName (Named Id_nestedContainer)
                      [Id_keyedBy, Id_forKey]))
                  [DotSelfExpr
                    (TypeExpr (DeclaredType ''ACodingKeys'')),
                   MemberRefExpr (TypeExpr (DeclaredType Id_CodingKeys))
                    ''a'']
                  [Id_keyedBy, Id_forKey])),
             VarDeclNode
              \<lparr>containerIdentifier = Id_nestedContainer,
                 containerBase = KeyedDecodingContainer,
                 containerKeyType = ''ACodingKeys'',
                 containerIntroducer = IntroducerVar\<rparr>,
             ExprNode
              (AssignExpr (DeclRefExpr Id_self)
                (CallExpr
                  (UnresolvedDotExpr (TypeExpr (DeclaredType ''O''))
                    (CompoundDeclName (Named ''a'') [''x'']))
                  [TryExpr
                    (CallExpr
                      (UnresolvedDotExpr (DeclRefExpr Id_nestedContainer)
                        (CompoundDeclName (Named Id_decode)
                          [[], Id_forKey]))
                      [DotSelfExpr
                        (TypeExpr
                          (InterfaceType
                            (OptionalType (NominalType ''Int'')))),
                       MemberRefExpr
                        (TypeExpr
                          (DeclaredType ''ACodingKeys''))
                        ''x'']
                      [[], Id_forKey])]
                  [''x'']))]
            None]],
        [])) \<and>
   synthesizedBody (deriveEncodable (exOptionalPayload Encodable) exEncodeRequirement) =
   Some
  (Inr ([PatternBindingNode (NamedPattern Id_container)
          (CallExpr
            (UnresolvedDotExpr (DeclRefExpr Id_encoder)
              (CompoundDeclName (Named Id_container) [Id_keyedBy]))
            [DotSelfExpr (TypeExpr (DeclaredType Id_CodingKeys))]
            [Id_keyedBy]),
         VarDeclNode
          \<lparr>containerIdentifier = Id_container,
             containerBase = KeyedEncodingContainer,
             containerKeyType = Id_CodingKeys,
             containerIntroducer = IntroducerVar\<rparr>,
         SwitchStmt (DeclRefExpr Id_self)
          [CaseStmt
            (EnumElementPattern (DeclaredType ''O'') ''a''
              (Some (TuplePattern [(''x'', NamedPattern ''a0'')])))
            [PatternBindingNode (NamedPattern Id_nestedContainer)
              (CallExpr
                (UnresolvedDotExpr (DeclRefExpr Id_container)
                  (CompoundDeclName (Named Id_nestedContainer)
                    [Id_keyedBy, Id_forKey]))
                [DotSelfExpr
                  (TypeExpr (DeclaredType ''ACodingKeys'')),
                 MemberRefExpr (TypeExpr (DeclaredType Id_CodingKeys))
                  ''a'']
                [Id_keyedBy, Id_forKey]),
             VarDeclNode
              \<lparr>containerIdentifier = Id_nestedContainer,
                 containerBase = KeyedEncodingContainer,
                 containerKeyType = ''ACodingKeys'',
                 containerIntroducer = IntroducerVar\<rparr>,
             ExprNode
              (TryExpr
                (CallExpr
                  (UnresolvedDotExpr (DeclRefExpr Id_nestedContainer)
                    (CompoundDeclName (Named Id_encodeIfPresent)
                      [[], Id_forKey]))
                  [DeclRefExpr ''a0'',
                   MemberRefExpr
                    (TypeExpr (DeclaredType ''ACodingKeys''))
                    ''x'']
                  [[], Id_forKey]))]
            (Some [BoundVar ''a0'' (OptionalType (NominalType ''Int''))])]],
        []))"
  by code_simp

lemma deriveBodyDecodable_enum_init_argument_keyed:
  assumes "lookupEnumCase caseCodingKeys (paramIdentifier index paramDecl) = Some caseCodingKey"
  shows "deriveBodyDecodable_enum_init_argument caseCodingKeys index paramDecl =
           Inr (TryExpr
                  (CallExpr
                     (UnresolvedDotExpr (DeclRefExpr Id_nestedContainer)
                        (CompoundDeclName (Named Id_decode) [[], Id_forKey]))
                     [DotSelfExpr
                        (TypeExpr (InterfaceType (getValueInterfaceType (asVarDecl paramDecl)))),
                      MemberRefExpr (TypeExpr (DeclaredType (enumName caseCodingKeys)))
                        (getBaseIdentifier caseCodingKey)]
                     [[], Id_forKey]))"
  using assms by (simp add: deriveBodyDecodable_enum_init_argument_def)

lemma lookupDirect_addMember:
  "lookupDirect (addMember target d) n =
     lookupDirect target n @ (if declName d = n then [d] else [])"
  by (simp add: lookupDirect_def addMember_def)

lemma lookupEvaluatedCodingKeysEnum_addMember:
  assumes "lookupDirect target n \<noteq> []"
  shows "lookupEvaluatedCodingKeysEnum (addMember target d) n =
           lookupEvaluatedCodingKeysEnum target n"
  using assms
  by (cases "lookupDirect target n")
     (simp_all add: lookupEvaluatedCodingKeysEnum_def lookupDirect_addMember)

lemma lookupEvaluatedCodingKeysEnum_Some_nonempty:
  "lookupEvaluatedCodingKeysEnum target n = Inr (Some e) \<Longrightarrow> lookupDirect target n \<noteq> []"
  by (auto simp: lookupEvaluatedCodingKeysEnum_def)

lemma lookupEvaluatedCodingKeysEnum_new:
  assumes "lookupDirect target (enumName e) = []"
  shows "lookupEvaluatedCodingKeysEnum (addMember target (NominalD (EnumNominal e))) (enumName e) =
           Inr (Some e)"
  using assms by (simp add: lookupEvaluatedCodingKeysEnum_def lookupDirect_addMember)

lemma getAllElements_target_addMember_nominal:
  "getAllElements_target (addMember target (NominalD n)) = getAllElements_target target"
  by (simp add: getAllElements_target_def addMember_def List.map_filter_def)

lemma kind_addMember: "kind (addMember target d) = kind target"
  by (simp add: addMember_def)

text \<open>The enumeration the validation of the type accepts is the one the lookup finds.\<close>

lemma validateCodingKeysType_lookup:
  assumes "lookupDirect target n = front # rest"
    and "dyn_cast_TypeDecl front = Some td"
    and "validateCodingKeysType derived td = Inr (Some e, derived1)"
  shows "lookupEvaluatedCodingKeysEnum target n = Inr (Some e) \<and> keyEnumerationOf front = Some e"
proof -
  from assms(3) have e: "Option.bind (getAnyNominal td) dyn_cast_EnumNominal = Some e"
    by (auto simp: validateCodingKeysType_def Let_def split: if_splits option.splits)
  show ?thesis
  proof (cases front)
    case (NominalD nom)
    with assms(2) e show ?thesis
      by (cases nom) (auto simp: lookupEvaluatedCodingKeysEnum_def assms(1))
  next
    case (TypeAliasD a t)
    with assms(2) e show ?thesis
      apply (cases t)
      subgoal for nom by (cases nom) (auto simp: lookupEvaluatedCodingKeysEnum_def assms(1))
      subgoal by auto
      done
  qed (use assms(2) in auto)
qed

lemma keyEnumerationsOnlyCases_lookup:
  assumes "keyEnumerationsOnlyCases target"
    and "lookupDirect target n = front # rest"
    and "keyEnumerationOf front = Some e"
  shows "onlyCases e"
proof -
  from assms(2) have "front \<in> set (lookupDirect target n)" by simp
  then have "front \<in> set (members target)" by (simp add: lookupDirect_def)
  with assms(1,3) show ?thesis
    by (auto simp: keyEnumerationsOnlyCases_def list_all_iff)
qed

lemma keyEnumerationsOnlyCases_addMember:
  assumes "keyEnumerationsOnlyCases target" and "onlyCases e"
  shows "keyEnumerationsOnlyCases (addMember target (NominalD (EnumNominal e)))"
  using assms by (simp add: keyEnumerationsOnlyCases_def addMember_def)

lemma lookupEnumCase_None_onlyCases:
  assumes "lookupEnumCase e n = None" and "onlyCases e"
  shows "n \<notin> getBaseIdentifier ` set (getAllElements e)"
proof
  assume "n \<in> getBaseIdentifier ` set (getAllElements e)"
  then obtain elt where elt: "elt \<in> set (getAllElements e)" "getBaseIdentifier elt = n" by auto
  then have "CaseMember elt \<in> set (enumMembers e)"
    by (auto simp: getAllElements_def List.map_filter_def elim!: dyn_cast_EnumElementDecl.elims)
  then have "CaseMember elt \<in> set (lookupDirect_enum e n)"
    using elt(2) by (simp add: lookupDirect_enum_def)
  then obtain m ms where ms: "lookupDirect_enum e n = m # ms"
    by (cases "lookupDirect_enum e n") auto
  then have "m \<in> set (filter (\<lambda>m. getMemberName m = n) (enumMembers e))"
    by (simp add: lookupDirect_enum_def)
  then have "m \<in> set (enumMembers e)" by simp
  with assms(2) have "dyn_cast_EnumElementDecl m \<noteq> None"
    by (auto simp: onlyCases_def list_all_iff)
  with assms(1) ms show False by (simp add: lookupEnumCase_def)
qed

lemma mv_erase_keeps: "entry \<in> set m \<Longrightarrow> fst entry \<noteq> k \<Longrightarrow> entry \<in> set (mv_erase m k)"
  by (simp add: mv_erase_def)

lemma validateCodingKeysEnum_cases_keeps:
  assumes "validateCodingKeysEnum_cases keys (m, v, d) = (pending, v', d')"
    and "entry \<in> set m"
    and "fst entry \<notin> getBaseIdentifier ` set keys"
  shows "entry \<in> set pending"
  using assms
proof (induction keys arbitrary: m v d)
  case Nil
  then show ?case by simp
next
  case (Cons elt rest)
  from Cons.prems(3) have ne: "fst entry \<noteq> getBaseIdentifier elt"
    and rest: "fst entry \<notin> getBaseIdentifier ` set rest"
    by auto
  show ?case
  proof (cases "mv_find m (getBaseIdentifier elt)")
    case None
    with Cons.prems(1) have
      "validateCodingKeysEnum_cases rest
         (m, False, diagnose (codable_extraneous_codingkey_case_here (getBaseIdentifier elt)) d) =
       (pending, v', d')"
      by simp
    from Cons.IH[OF this Cons.prems(2) rest] show ?thesis .
  next
    case (Some it)
    show ?thesis
    proof (cases "conformsToProtocol d (getValueInterfaceType (theVarDecl it)) (Protocol d)")
      case False
      with Some Cons.prems(1) have
        "validateCodingKeysEnum_cases rest
           (m, False, diagnose (codable_non_conforming_property_here (getName (theVarDecl it))) d) =
         (pending, v', d')"
        by (simp add: Let_def)
      from Cons.IH[OF this Cons.prems(2) rest] show ?thesis .
    next
      case True
      with Some Cons.prems(1) have
        "validateCodingKeysEnum_cases rest (mv_erase m (getBaseIdentifier elt), v, d) =
         (pending, v', d')"
        by (simp add: Let_def)
      from Cons.IH[OF this mv_erase_keeps[OF Cons.prems(2) ne] rest] show ?thesis .
    qed
  qed
qed

lemma validateCodingKeysEnum_varDecls_True:
  assumes "validateCodingKeysEnum_varDecls d props td = Inr (True, d2)"
    and "Protocol d = Decodable"
  shows "\<exists>e d1 pending dd.
           validateCodingKeysType d td = Inr (Some e, d1) \<and>
           validateCodingKeysEnum_cases (getAllElements e) (props, True, d1) = (pending, True, dd) \<and>
           list_all (\<lambda>entry. defaultable (snd entry)) pending"
proof (cases "validateCodingKeysType d td")
  case (Inl c)
  with assms(1) show ?thesis by (simp add: validateCodingKeysEnum_varDecls_def)
next
  case (Inr r)
  obtain ck d1 where r: "r = (ck, d1)" by (cases r)
  show ?thesis
  proof (cases ck)
    case None
    with assms(1) Inr r show ?thesis by (simp add: validateCodingKeysEnum_varDecls_def)
  next
    case (Some e)
    obtain pending v dd where
      c: "validateCodingKeysEnum_cases (getAllElements e) (props, True, d1) = (pending, v, dd)"
      by (metis prod_cases3)
    have proto: "Protocol dd = Decodable"
      using validateCodingKeysType_Protocol[OF Inr[unfolded r]]
        validateCodingKeysEnum_cases_Protocol[OF c] assms(2) by simp
    from assms(1) have v: "v"
      by (auto simp: validateCodingKeysEnum_varDecls_def Inr r Some c split: if_splits)
    have "validateCodingKeysEnum_remaining pending (True, dd) =
            (list_all (\<lambda>entry. defaultable (snd entry)) pending,
             dd\<lparr>Diags := Diags dd @
                 map (\<lambda>entry. codable_non_decoded_property_here (fst entry))
                   (filter (\<lambda>entry. \<not> defaultable (snd entry)) pending)\<rparr>)"
      using validateCodingKeysEnum_remaining_result[of pending True dd "[]"] by simp
    with assms(1) have rem: "list_all (\<lambda>entry. defaultable (snd entry)) pending"
      by (simp add: validateCodingKeysEnum_varDecls_def Inr r Some c v proto)
    have t: "validateCodingKeysType d td = Inr (Some e, d1)" using Inr r Some by simp
    have c': "validateCodingKeysEnum_cases (getAllElements e) (props, True, d1) = (pending, True, dd)"
      using c v by simp
    show ?thesis
      by (rule exI[of _ e], rule exI[of _ d1], rule exI[of _ pending], rule exI[of _ dd])
         (intro conjI t c' rem)
  qed
qed

lemma mv_assign_mem_same: "(k, v) \<in> set (mv_assign m k v)"
proof (cases "map_of m k")
  case None
  then show ?thesis by (simp add: mv_assign_def)
next
  case (Some a)
  then have "(k, a) \<in> set m" by (rule map_of_SomeD)
  then have "(\<lambda>entry. if fst entry = k then (k, v) else entry) (k, a) \<in>
               (\<lambda>entry. if fst entry = k then (k, v) else entry) ` set m"
    by (rule imageI)
  with Some show ?thesis by (simp add: mv_assign_def)
qed

lemma mv_assign_mem_other:
  assumes "(k', v') \<in> set m" and "k' \<noteq> k"
  shows "(k', v') \<in> set (mv_assign m k v)"
proof -
  from assms(1) have "(\<lambda>entry. if fst entry = k then (k, v) else entry) (k', v') \<in>
               (\<lambda>entry. if fst entry = k then (k, v) else entry) ` set m"
    by (rule imageI)
  with assms show ?thesis by (auto simp: mv_assign_def)
qed

lemma caseProperties_loop_keeps:
  assumes "(k, v) \<in> set m"
    and "k \<notin> set (map (\<lambda>(i, p). paramIdentifier i p) (enumerate i ps))"
  shows "(k, v) \<in> set (caseProperties_loop i ps m)"
  using assms
proof (induction ps arbitrary: i m)
  case Nil
  then show ?case by simp
next
  case (Cons p ps)
  from Cons.prems(2) have ne: "k \<noteq> paramIdentifier i p"
    and rest: "k \<notin> set (map (\<lambda>(i, p). paramIdentifier i p) (enumerate (Suc i) ps))"
    by auto
  show ?case
    using Cons.IH[OF Cons.prems(1) rest] Cons.IH[OF mv_assign_mem_other[OF Cons.prems(1) ne] rest]
    by simp
qed

lemma caseProperties_loop_mem:
  assumes "list_all plainPayloadSlot ps"
    and "distinct (map (\<lambda>(i, p). paramIdentifier i p) (enumerate i ps))"
    and "j < length ps"
  shows "(paramIdentifier (i + j) (ps ! j), Param (ps ! j)) \<in> set (caseProperties_loop i ps m)"
  using assms
proof (induction ps arbitrary: i j m)
  case Nil
  then show ?case by simp
next
  case (Cons p ps)
  from Cons.prems(1) have wf: "list_all plainPayloadSlot ps" by simp
  from Cons.prems(1) have "plainPayloadSlot p" by simp
  then have acc: "isUserAccessible (asVarDecl p)" by (simp add: plainPayloadSlot_def)
  from Cons.prems(2) have fresh: "paramIdentifier i p \<notin>
        set (map (\<lambda>(i, p). paramIdentifier i p) (enumerate (Suc i) ps))"
    and dist: "distinct (map (\<lambda>(i, p). paramIdentifier i p) (enumerate (Suc i) ps))"
    by simp_all
  show ?case
  proof (cases j)
    case 0
    then show ?thesis
      using caseProperties_loop_keeps[OF mv_assign_mem_same fresh, of "Param p" m] acc by simp
  next
    case (Suc j')
    with Cons.prems(3) have "j' < length ps" by simp
    from Cons.IH[OF wf dist this, of "mv_assign m (paramIdentifier i p) (Param p)"]
    show ?thesis using Suc acc by simp
  qed
qed

lemma canSynthesize_params_result:
  "\<exists>new valid'.
     canSynthesize_params c i ps seen (valid, d\<lparr>Diags := Diags d @ old\<rparr>) =
       (valid', d\<lparr>Diags := Diags d @ old @ new\<rparr>) \<and>
     (valid' \<longrightarrow> valid \<and> distinct (map (\<lambda>(i, p). paramIdentifier i p) (enumerate i ps)) \<and>
                set (map (\<lambda>(i, p). paramIdentifier i p) (enumerate i ps)) \<inter> set seen = {})"
proof (induction ps arbitrary: i seen valid old)
  case Nil
  show ?case by (rule exI[of _ "[]"]) simp
next
  case (Cons p ps)
  let ?id = "paramIdentifier i p"
  show ?case
  proof (cases "?id \<in> set seen")
    case True
    let ?e = "codable_enum_duplicate_parameter_name_here ?id c"
    from Cons[of "Suc i" seen False "old @ [?e]"] obtain new valid' where
      run: "canSynthesize_params c (Suc i) ps seen (False, d\<lparr>Diags := Diags d @ (old @ [?e])\<rparr>) =
              (valid', d\<lparr>Diags := Diags d @ (old @ [?e]) @ new\<rparr>)"
      and v: "valid' \<longrightarrow> False"
      by blast
    show ?thesis
      by (rule exI[of _ "?e # new"], rule exI[of _ valid'])
         (use True run v in \<open>simp add: Let_def diagnose_Diags_update\<close>)
  next
    case False
    from Cons[of "Suc i" "seen @ [?id]" valid old] obtain new valid' where
      run: "canSynthesize_params c (Suc i) ps (seen @ [?id]) (valid, d\<lparr>Diags := Diags d @ old\<rparr>) =
              (valid', d\<lparr>Diags := Diags d @ old @ new\<rparr>)"
      and v: "valid' \<longrightarrow> valid \<and>
               distinct (map (\<lambda>(i, p). paramIdentifier i p) (enumerate (Suc i) ps)) \<and>
               set (map (\<lambda>(i, p). paramIdentifier i p) (enumerate (Suc i) ps)) \<inter> set (seen @ [?id]) = {}"
      by blast
    show ?thesis
      by (rule exI[of _ new], rule exI[of _ valid'])
         (use False run v in \<open>auto simp: Let_def\<close>)
  qed
qed

lemma onlyCases_addMember_enum: "onlyCases e \<Longrightarrow> onlyCases (addMember_enum e elt)"
  by (simp add: onlyCases_def addMember_enum_def)

lemma onlyCases_checkConformancesInContext:
  "onlyCases (checkConformancesInContext e) = onlyCases e"
  by (simp add: onlyCases_def checkConformancesInContext_def)

lemma addImplicitCodingKeys_enum_loop_onlyCases:
  "onlyCases e \<Longrightarrow> onlyCases (addImplicitCodingKeys_enum_loop elts e)"
  by (induction elts arbitrary: e) (simp_all add: onlyCases_addMember_enum)

lemma addImplicitCodingKeys_enum_loop_enumName:
  "enumName (addImplicitCodingKeys_enum_loop elts e) = enumName e"
  by (induction elts arbitrary: e) (simp_all add: addMember_enum_def)

lemma addImplicitCaseCodingKeys_loop_onlyCases:
  "onlyCases e \<Longrightarrow> onlyCases (addImplicitCaseCodingKeys_loop i ps e)"
  by (induction ps arbitrary: i e) (simp_all add: onlyCases_addMember_enum)

lemma addImplicitCaseCodingKeys_loop_enumName:
  "enumName (addImplicitCaseCodingKeys_loop i ps e) = enumName e"
  by (induction ps arbitrary: i e) (simp_all add: addMember_enum_def)

text \<open>The key enumeration synthesized for a case.\<close>

lemma addImplicitCaseCodingKeys_Some:
  assumes "addImplicitCaseCodingKeys target elt ck = (Some e, target')"
  shows "target' = addMember target (NominalD (EnumNominal e)) \<and> onlyCases e \<and>
         enumName e = caseCodingKeysIdentifier elt \<and> conformsToCodingKey e"
proof -
  let ?base = "\<lparr>enumName = caseCodingKeysIdentifier elt, enumMembers = [], isImplicit = True,
                 conformsToCodingKey = False\<rparr>"
  let ?filled = "case getParameterList elt of
                   None \<Rightarrow> ?base
                 | Some params \<Rightarrow> addImplicitCaseCodingKeys_loop 0 params ?base"
  have base: "onlyCases ?base" by (simp add: onlyCases_def)
  have oc: "onlyCases ?filled"
    by (cases "getParameterList elt") (simp_all add: base addImplicitCaseCodingKeys_loop_onlyCases)
  have nm: "enumName ?filled = caseCodingKeysIdentifier elt"
    by (cases "getParameterList elt") (simp_all add: addImplicitCaseCodingKeys_loop_enumName)
  from assms have e: "e = checkConformancesInContext ?filled"
    and t: "target' = addMember target (NominalD (EnumNominal e))"
    by (auto simp: addImplicitCaseCodingKeys_def Let_def split: option.splits)
  show ?thesis
    using oc nm t by (simp add: e onlyCases_checkConformancesInContext)
       (simp add: checkConformancesInContext_def)
qed

text \<open>The key enumeration synthesized for a tagged union.\<close>

lemma addImplicitCodingKeys_enum_result:
  assumes "addImplicitCodingKeys_enum target = (e, target')"
  shows "target' = addMember target (NominalD (EnumNominal e)) \<and> onlyCases e \<and>
         enumName e = Id_CodingKeys \<and> conformsToCodingKey e"
proof -
  let ?base = "\<lparr>enumName = Id_CodingKeys, enumMembers = [], isImplicit = True,
                 conformsToCodingKey = False\<rparr>"
  have base: "onlyCases ?base" by (simp add: onlyCases_def)
  from assms have
    e: "e = checkConformancesInContext
              (addImplicitCodingKeys_enum_loop (getAllElements_target target) ?base)"
    and t: "target' = addMember target (NominalD (EnumNominal e))"
    by (auto simp: addImplicitCodingKeys_enum_def Let_def)
  show ?thesis
    using t addImplicitCodingKeys_enum_loop_onlyCases[OF base]
    by (simp add: e onlyCases_checkConformancesInContext)
       (simp add: checkConformancesInContext_def addImplicitCodingKeys_enum_loop_enumName)
qed

text \<open>A case whose key enumeration validation accepts has each payload slot among the
  keys, or defaulted.\<close>

lemma validateCodingKeysEnum_varDecls_slotsResolved:
  assumes run: "validateCodingKeysEnum_varDecls d (caseProperties_loop 0 ps []) td = Inr (True, d2)"
    and proto: "Protocol d = Decodable"
    and ty: "validateCodingKeysType d td = Inr (Some e, d1)"
    and oc: "onlyCases e"
    and wf: "list_all plainPayloadSlot ps"
    and dist: "distinct (map (\<lambda>(i, p). paramIdentifier i p) (enumerate 0 ps))"
  shows "slotsResolved e ps"
proof -
  from validateCodingKeysEnum_varDecls_True[OF run proto] obtain e' d1' pending dd where
    ty': "validateCodingKeysType d td = Inr (Some e', d1')"
    and cases: "validateCodingKeysEnum_cases (getAllElements e')
                  (caseProperties_loop 0 ps [], True, d1') = (pending, True, dd)"
    and rem: "list_all (\<lambda>entry. defaultable (snd entry)) pending"
    by blast
  from ty ty' have e': "e' = e" by simp
  have "lookupEnumCase e (paramIdentifier i p) \<noteq> None \<or> hasDefaultExpr p"
    if "(i, p) \<in> set (enumerate 0 ps)" for i p
  proof (cases "lookupEnumCase e (paramIdentifier i p)")
    case None
    from that have i: "i < length ps" and p: "p = ps ! i" by (auto simp: in_set_enumerate_eq)
    have "(paramIdentifier (0 + i) (ps ! i), Param (ps ! i)) \<in> set (caseProperties_loop 0 ps [])"
      by (rule caseProperties_loop_mem[OF wf dist i])
    then have mem: "(paramIdentifier i p, Param p) \<in> set (caseProperties_loop 0 ps [])"
      using p by simp
    have "fst (paramIdentifier i p, Param p) \<notin> getBaseIdentifier ` set (getAllElements e)"
      using lookupEnumCase_None_onlyCases[OF None oc] by simp
    from validateCodingKeysEnum_cases_keeps[OF cases[unfolded e'] mem this]
    have "(paramIdentifier i p, Param p) \<in> set pending" .
    with rem have "defaultable (Param p)" by (auto simp: list_all_iff)
    moreover from wf i p have "plainPayloadSlot p" by (auto simp: list_all_iff)
    ultimately show ?thesis by (auto simp: defaultable_def plainPayloadSlot_def)
  qed simp
  then show ?thesis by (auto simp: slotsResolved_def list_all_iff)
qed

text \<open>Validation of the key enumeration of one case, when it succeeds for \<open>Decodable\<close>.\<close>

lemma validateCaseCodingKeysEnum_True:
  assumes run: "validateCaseCodingKeysEnum d elt = Inr (True, d2)"
    and proto: "Protocol d = Decodable"
    and kind: "kind (Nominal d) = EnumKind"
    and kwf: "keyEnumerationsOnlyCases (Nominal d)"
    and wf: "case getParameterList elt of None \<Rightarrow> True
             | Some ps \<Rightarrow> list_all plainPayloadSlot ps"
    and dist: "case getParameterList elt of None \<Rightarrow> True
               | Some ps \<Rightarrow> distinct (map (\<lambda>(i, p). paramIdentifier i p) (enumerate 0 ps))"
  shows "Protocol d2 = Decodable \<and>
         (Nominal d2 = Nominal d \<or>
          (\<exists>e. Nominal d2 = addMember (Nominal d) (NominalD (EnumNominal e)) \<and> onlyCases e)) \<and>
         caseResolved (Nominal d2) elt"
proof -
  let ?t = "Nominal d"
  let ?n = "caseCodingKeysIdentifier elt"
  let ?props = "case getParameterList elt of None \<Rightarrow> []
                | Some params \<Rightarrow> caseProperties_loop 0 params []"
  have dc: "dyn_cast_EnumDecl ?t = Some ?t" using kind by (simp add: dyn_cast_EnumDecl_def)
  obtain ck where ck: "lookupEvaluatedCodingKeysEnum ?t Id_CodingKeys = Inr (Some ck)"
  proof (cases "lookupEvaluatedCodingKeysEnum ?t Id_CodingKeys")
    case (Inl c)
    with run show ?thesis by (simp add: validateCaseCodingKeysEnum_def dc)
  next
    case (Inr r)
    with run that show ?thesis by (cases r) (simp_all add: validateCaseCodingKeysEnum_def dc)
  qed
  have core: "\<exists>e td d' d1.
      lookupEvaluatedCodingKeysEnum (Nominal d') ?n = Inr (Some e) \<and> onlyCases e \<and>
      Protocol d' = Decodable \<and>
      validateCodingKeysEnum_varDecls d' ?props td = Inr (True, d2) \<and>
      validateCodingKeysType d' td = Inr (Some e, d1) \<and>
      (Nominal d' = ?t \<or>
       (\<exists>e. Nominal d' = addMember ?t (NominalD (EnumNominal e)) \<and> onlyCases e))"
  proof (cases "lookupDirect ?t ?n")
    case Nil
    obtain ce t' where a: "addImplicitCaseCodingKeys ?t elt ck = (ce, t')" by force
    show ?thesis
    proof (cases ce)
      case None
      with run show ?thesis
        by (simp add: validateCaseCodingKeysEnum_def dc ck Nil a Let_def)
    next
      case (Some e)
      from addImplicitCaseCodingKeys_Some[OF a[unfolded Some]] have
        t': "t' = addMember ?t (NominalD (EnumNominal e))" and oc: "onlyCases e"
        and nm: "enumName e = ?n" and conf: "conformsToCodingKey e"
        by simp_all
      let ?d' = "d\<lparr>Nominal := t'\<rparr>"
      from run have v: "validateCodingKeysEnum_varDecls ?d' ?props (NominalTD (EnumNominal e)) =
                          Inr (True, d2)"
        by (simp add: validateCaseCodingKeysEnum_def dc ck Nil a Some Let_def)
      have ty: "validateCodingKeysType ?d' (NominalTD (EnumNominal e)) = Inr (Some e, ?d')"
        using conf by (simp add: validateCodingKeysType_def)
      have look: "lookupEvaluatedCodingKeysEnum (Nominal ?d') ?n = Inr (Some e)"
        using lookupEvaluatedCodingKeysEnum_new[of ?t e] Nil nm t' by simp
      have p: "Protocol ?d' = Decodable" using proto by simp
      have n: "Nominal ?d' = ?t \<or>
               (\<exists>e. Nominal ?d' = addMember ?t (NominalD (EnumNominal e)) \<and> onlyCases e)"
        using t' oc by auto
      show ?thesis
        by (rule exI[of _ e], rule exI[of _ "NominalTD (EnumNominal e)"], rule exI[of _ ?d'],
            rule exI[of _ ?d']) (intro conjI look oc p v ty n)
    qed
  next
    case (Cons front rest)
    have rest: "rest = []"
    proof (cases rest)
      case (Cons x xs)
      with run \<open>lookupDirect ?t ?n = front # rest\<close> show ?thesis
        by (simp add: validateCaseCodingKeysEnum_def dc ck Let_def)
    qed simp
    note look = Cons[unfolded rest]
    obtain td where td: "dyn_cast_TypeDecl front = Some td"
    proof (cases "dyn_cast_TypeDecl front")
      case None
      with run look show ?thesis
        by (simp add: validateCaseCodingKeysEnum_def dc ck Let_def)
    qed simp
    from run have v: "validateCodingKeysEnum_varDecls d ?props td = Inr (True, d2)"
      by (simp add: validateCaseCodingKeysEnum_def dc ck look td Let_def)
    from validateCodingKeysEnum_varDecls_True[OF v proto] obtain e d1 where
      ty: "validateCodingKeysType d td = Inr (Some e, d1)"
      by blast
    from validateCodingKeysType_lookup[OF look td ty] have
      l: "lookupEvaluatedCodingKeysEnum ?t ?n = Inr (Some e)"
      and k: "keyEnumerationOf front = Some e"
      by simp_all
    from keyEnumerationsOnlyCases_lookup[OF kwf look k] have oc: "onlyCases e" .
    have n: "Nominal d = ?t \<or>
             (\<exists>e. Nominal d = addMember ?t (NominalD (EnumNominal e)) \<and> onlyCases e)"
      by simp
    show ?thesis
      by (rule exI[of _ e], rule exI[of _ td], rule exI[of _ d], rule exI[of _ d1])
         (intro conjI l oc proto v ty n)
  qed
  then obtain e td d' d1 where
    look: "lookupEvaluatedCodingKeysEnum (Nominal d') ?n = Inr (Some e)" and oc: "onlyCases e"
    and p: "Protocol d' = Decodable"
    and v: "validateCodingKeysEnum_varDecls d' ?props td = Inr (True, d2)"
    and ty: "validateCodingKeysType d' td = Inr (Some e, d1)"
    and n: "Nominal d' = ?t \<or>
            (\<exists>e. Nominal d' = addMember ?t (NominalD (EnumNominal e)) \<and> onlyCases e)"
    by blast
  from validateCodingKeysEnum_varDecls_frame[OF v] obtain new where
    d2: "d2 = d'\<lparr>Diags := Diags d' @ new\<rparr>" by blast
  have slots: "slotsResolved e ps" if ps: "getParameterList elt = Some ps" for ps
  proof -
    from v ps have v': "validateCodingKeysEnum_varDecls d' (caseProperties_loop 0 ps []) td =
                          Inr (True, d2)" by simp
    from wf ps have wf': "list_all plainPayloadSlot ps" by simp
    from dist ps have dist': "distinct (map (\<lambda>(i, p). paramIdentifier i p) (enumerate 0 ps))"
      by simp
    show ?thesis
      by (rule validateCodingKeysEnum_varDecls_slotsResolved[OF v' p ty oc wf' dist'])
  qed
  have res: "caseResolved (Nominal d2) elt"
    using slots by (simp add: caseResolved_def d2 look split: option.splits)
  show ?thesis
    using p n res by (simp add: d2)
qed

text \<open>What the later steps keep of a type to which a key enumeration is added.\<close>

lemma lookupEvaluatedCodingKeysEnum_grows:
  assumes "target' = target \<or> (\<exists>e. target' = addMember target (NominalD (EnumNominal e)) \<and> onlyCases e)"
    and "lookupEvaluatedCodingKeysEnum target n = Inr (Some x)"
  shows "lookupEvaluatedCodingKeysEnum target' n = Inr (Some x)"
  using assms lookupEvaluatedCodingKeysEnum_addMember[OF lookupEvaluatedCodingKeysEnum_Some_nonempty]
  by auto

lemma caseResolved_grows:
  assumes "\<And>n x. lookupEvaluatedCodingKeysEnum target n = Inr (Some x) \<Longrightarrow>
                  lookupEvaluatedCodingKeysEnum target' n = Inr (Some x)"
    and "caseResolved target elt"
  shows "caseResolved target' elt"
proof -
  from assms(2) obtain cck where
    cck: "lookupEvaluatedCodingKeysEnum target (caseCodingKeysIdentifier elt) = Inr (Some cck)"
    and slots: "case getParameterList elt of None \<Rightarrow> True | Some ps \<Rightarrow> slotsResolved cck ps"
    by (auto simp: caseResolved_def split: sum.splits option.splits)
  from assms(1)[OF cck] slots show ?thesis by (simp add: caseResolved_def)
qed

lemma canSynthesize_params_True:
  assumes "canSynthesize_params c i ps seen (valid, d) = (True, d')"
  shows "valid \<and> Protocol d' = Protocol d \<and> Nominal d' = Nominal d \<and>
         distinct (map (\<lambda>(i, p). paramIdentifier i p) (enumerate i ps))"
proof -
  from canSynthesize_params_result[of c i ps seen valid d "[]"] obtain new valid' where
    run: "canSynthesize_params c i ps seen (valid, d\<lparr>Diags := Diags d @ []\<rparr>) =
            (valid', d\<lparr>Diags := Diags d @ [] @ new\<rparr>)"
    and v: "valid' \<longrightarrow> valid \<and> distinct (map (\<lambda>(i, p). paramIdentifier i p) (enumerate i ps)) \<and>
                set (map (\<lambda>(i, p). paramIdentifier i p) (enumerate i ps)) \<inter> set seen = {}"
    by blast
  from run assms have "valid' = True" and "d' = d\<lparr>Diags := Diags d @ new\<rparr>" by simp_all
  with v show ?thesis by simp
qed

lemma canSynthesize_params_False:
  "\<exists>d'. canSynthesize_params c i ps seen (False, d) = (False, d')"
proof -
  obtain v d' where r: "canSynthesize_params c i ps seen (False, d) = (v, d')" by force
  have "\<not> v" using canSynthesize_params_True[of c i ps seen False d d'] r by auto
  with r show ?thesis by simp
qed

text \<open>Once a check has failed, the loop over the cases does not succeed.\<close>

lemma canSynthesize_elements_False:
  "canSynthesize_elements elts names (False, d) \<noteq> Inr (True, d')"
proof (induction elts arbitrary: names d)
  case Nil
  show ?case by simp
next
  case (Cons elt rest)
  let ?name = "getBaseIdentifier elt"
  have st: "\<exists>dp. (case getParameterList elt of None \<Rightarrow> (False, d0)
                   | Some params \<Rightarrow> canSynthesize_params ?name 0 params [] (False, d0)) = (False, dp)"
    for d0
    using canSynthesize_params_False by (cases "getParameterList elt") auto
  show ?case
  proof (cases "?name \<in> set names")
    case True
    from st[of "diagnose (codable_enum_duplicate_case_name_here ?name) d"] obtain dp where
      "(case getParameterList elt of
          None \<Rightarrow> (False, diagnose (codable_enum_duplicate_case_name_here ?name) d)
        | Some params \<Rightarrow> canSynthesize_params ?name 0 params []
            (False, diagnose (codable_enum_duplicate_case_name_here ?name) d)) = (False, dp)"
      by blast
    then show ?thesis using True Cons.IH by (simp add: Let_def)
  next
    case False
    from st[of d] obtain dp where
      dp: "(case getParameterList elt of None \<Rightarrow> (False, d)
            | Some params \<Rightarrow> canSynthesize_params ?name 0 params [] (False, d)) = (False, dp)"
      by blast
    show ?thesis
    proof (cases "validateCaseCodingKeysEnum dp elt")
      case (Inl c)
      then show ?thesis using False dp by (simp add: Let_def)
    next
      case (Inr r)
      obtain ok d2 where r: "r = (ok, d2)" by (cases r)
      show ?thesis using False dp Inr r Cons.IH by (simp add: Let_def)
    qed
  qed
qed

text \<open>One round of the loop over the cases, when the loop succeeds.\<close>

lemma canSynthesize_elements_Cons_True:
  assumes "canSynthesize_elements (elt # rest) names (True, d) = Inr (True, d')"
  shows "\<exists>dp d2.
           (case getParameterList elt of None \<Rightarrow> (True, d)
            | Some params \<Rightarrow> canSynthesize_params (getBaseIdentifier elt) 0 params [] (True, d)) =
             (True, dp) \<and>
           validateCaseCodingKeysEnum dp elt = Inr (True, d2) \<and>
           canSynthesize_elements rest (names @ [getBaseIdentifier elt]) (True, d2) = Inr (True, d')"
proof -
  let ?name = "getBaseIdentifier elt"
  have fresh: "?name \<notin> set names"
  proof
    assume dup: "?name \<in> set names"
    have "\<exists>dp. (case getParameterList elt of
          None \<Rightarrow> (False, diagnose (codable_enum_duplicate_case_name_here ?name) d)
        | Some params \<Rightarrow> canSynthesize_params ?name 0 params []
            (False, diagnose (codable_enum_duplicate_case_name_here ?name) d)) = (False, dp)"
      using canSynthesize_params_False by (cases "getParameterList elt") auto
    then obtain dp where
      "(case getParameterList elt of
          None \<Rightarrow> (False, diagnose (codable_enum_duplicate_case_name_here ?name) d)
        | Some params \<Rightarrow> canSynthesize_params ?name 0 params []
            (False, diagnose (codable_enum_duplicate_case_name_here ?name) d)) = (False, dp)"
      by blast
    with assms dup have "canSynthesize_elements rest names (False, dp) = Inr (True, d')"
      by (simp add: Let_def cong: option.case_cong)
    with canSynthesize_elements_False show False by blast
  qed
  obtain v dp where
    st: "(case getParameterList elt of None \<Rightarrow> (True, d)
          | Some params \<Rightarrow> canSynthesize_params ?name 0 params [] (True, d)) = (v, dp)"
    by force
  obtain ok d2 where val: "validateCaseCodingKeysEnum dp elt = Inr (ok, d2)"
  proof (cases "validateCaseCodingKeysEnum dp elt")
    case (Inl c)
    with assms fresh st show ?thesis by (simp add: Let_def cong: option.case_cong)
  next
    case (Inr r)
    with that show ?thesis by (cases r) simp
  qed
  have next': "canSynthesize_elements rest (names @ [?name]) (if \<not> ok then False else v, d2) =
              Inr (True, d')"
  proof (cases "getParameterList elt")
    case None
    with assms fresh st val show ?thesis by (cases ok) (simp_all add: Let_def)
  next
    case (Some ps)
    with assms fresh st val show ?thesis by (cases ok) (simp_all add: Let_def)
  qed
  have "ok \<and> v"
  proof (rule ccontr)
    assume "\<not> (ok \<and> v)"
    then have "(if \<not> ok then False else v) = False" by auto
    with next' show False
      using canSynthesize_elements_False[of rest "names @ [?name]" d2 d'] by simp
  qed
  then have ok: ok and v: v by simp_all
  show ?thesis
    by (rule exI[of _ dp], rule exI[of _ d2]) (use st val next' ok v in simp)
qed

text \<open>The loop over the cases establishes, for each case, what the body of \<open>init(from:)\<close>
  needs.\<close>

lemma canSynthesize_elements_True:
  assumes "canSynthesize_elements elts names (True, d) = Inr (True, d')"
    and "Protocol d = Decodable"
    and "kind (Nominal d) = EnumKind"
    and "keyEnumerationsOnlyCases (Nominal d)"
    and "list_all (\<lambda>elt. case getParameterList elt of None \<Rightarrow> True
                         | Some ps \<Rightarrow> list_all plainPayloadSlot ps) elts"
  shows "getAllElements_target (Nominal d') = getAllElements_target (Nominal d) \<and>
         (\<forall>n x. lookupEvaluatedCodingKeysEnum (Nominal d) n = Inr (Some x) \<longrightarrow>
                lookupEvaluatedCodingKeysEnum (Nominal d') n = Inr (Some x)) \<and>
         list_all (caseResolved (Nominal d')) elts"
  using assms
proof (induction elts arbitrary: names d)
  case Nil
  then show ?case by simp
next
  case (Cons elt rest)
  let ?name = "getBaseIdentifier elt"
  from canSynthesize_elements_Cons_True[OF Cons.prems(1)] obtain dp d2 where
    st: "(case getParameterList elt of None \<Rightarrow> (True, d)
          | Some params \<Rightarrow> canSynthesize_params ?name 0 params [] (True, d)) = (True, dp)"
    and val: "validateCaseCodingKeysEnum dp elt = Inr (True, d2)"
    and next': "canSynthesize_elements rest (names @ [?name]) (True, d2) = Inr (True, d')"
    by blast
  have dp: "Protocol dp = Protocol d \<and> Nominal dp = Nominal d"
    and dist: "case getParameterList elt of None \<Rightarrow> True
               | Some ps \<Rightarrow> distinct (map (\<lambda>(i, p). paramIdentifier i p) (enumerate 0 ps))"
    using st canSynthesize_params_True by (cases "getParameterList elt"; fastforce)+
  from Cons.prems(5) have wf: "case getParameterList elt of None \<Rightarrow> True
                               | Some ps \<Rightarrow> list_all plainPayloadSlot ps"
    and wfrest: "list_all (\<lambda>elt. case getParameterList elt of None \<Rightarrow> True
                         | Some ps \<Rightarrow> list_all plainPayloadSlot ps) rest"
    by simp_all
  from validateCaseCodingKeysEnum_True[OF val _ _ _ wf dist] dp Cons.prems(2,3,4) have
    p2: "Protocol d2 = Decodable"
    and n2: "Nominal d2 = Nominal d \<or>
             (\<exists>e. Nominal d2 = addMember (Nominal d) (NominalD (EnumNominal e)) \<and> onlyCases e)"
    and res: "caseResolved (Nominal d2) elt"
    by simp_all
  from n2 Cons.prems(3) have k2: "kind (Nominal d2) = EnumKind"
    by (auto simp: kind_addMember)
  from n2 Cons.prems(4) have kwf2: "keyEnumerationsOnlyCases (Nominal d2)"
    by (auto simp: keyEnumerationsOnlyCases_addMember)
  from n2 have el2: "getAllElements_target (Nominal d2) = getAllElements_target (Nominal d)"
    by (auto simp: getAllElements_target_addMember_nominal)
  have look2: "lookupEvaluatedCodingKeysEnum (Nominal d2) n = Inr (Some x)"
    if "lookupEvaluatedCodingKeysEnum (Nominal d) n = Inr (Some x)" for n x
    by (rule lookupEvaluatedCodingKeysEnum_grows[OF n2 that])
  from Cons.IH[OF next' p2 k2 kwf2 wfrest] have
    el: "getAllElements_target (Nominal d') = getAllElements_target (Nominal d2)"
    and look: "\<And>n x. lookupEvaluatedCodingKeysEnum (Nominal d2) n = Inr (Some x) \<Longrightarrow>
                lookupEvaluatedCodingKeysEnum (Nominal d') n = Inr (Some x)"
    and rest: "list_all (caseResolved (Nominal d')) rest"
    by simp_all
  have "caseResolved (Nominal d') elt"
    by (rule caseResolved_grows[OF look res])
  with el el2 look look2 rest show ?case by simp
qed

lemma validateCodingKeysEnum_enum_True_type:
  assumes "validateCodingKeysEnum_enum d td = Inr (True, d1)"
  shows "\<exists>e dx. validateCodingKeysType d td = Inr (Some e, dx)"
proof (cases "validateCodingKeysType d td")
  case (Inl c)
  with assms show ?thesis
    by (simp add: validateCodingKeysEnum_enum_def Let_def split: option.splits)
next
  case (Inr r)
  obtain ck dx where r: "r = (ck, dx)" by (cases r)
  show ?thesis
  proof (cases ck)
    case None
    with assms Inr r show ?thesis
      by (simp add: validateCodingKeysEnum_enum_def Let_def split: option.splits)
  next
    case (Some e)
    with Inr r show ?thesis by simp
  qed
qed

text \<open>Validation of \<open>CodingKeys\<close> of a tagged union, when it succeeds: the enumeration is
  found by name afterwards, and the cases of the type are as before.\<close>

lemma validateCodingKeysEnum_enum_True:
  assumes run: "validateCodingKeysEnum d = Inr (True, d1)"
    and kind: "kind (Nominal d) = EnumKind"
    and kwf: "keyEnumerationsOnlyCases (Nominal d)"
  shows "\<exists>ck. lookupEvaluatedCodingKeysEnum (Nominal d1) Id_CodingKeys = Inr (Some ck) \<and>
              Protocol d1 = Protocol d \<and> kind (Nominal d1) = EnumKind \<and>
              getAllElements_target (Nominal d1) = getAllElements_target (Nominal d) \<and>
              keyEnumerationsOnlyCases (Nominal d1)"
proof (cases "lookupDirect (Nominal d) Id_CodingKeys")
  case Nil
  let ?t = "Nominal d"
  obtain e t' where a: "addImplicitCodingKeys_enum ?t = (e, t')" by force
  from addImplicitCodingKeys_enum_result[OF a] have
    t': "t' = addMember ?t (NominalD (EnumNominal e))" and oc: "onlyCases e"
    and nm: "enumName e = Id_CodingKeys" and conf: "conformsToCodingKey e"
    by simp_all
  let ?d' = "d\<lparr>Nominal := t'\<rparr>"
  have k': "kind t' = EnumKind" using kind t' by (simp add: kind_addMember)
  have add: "addImplicitCodingKeys ?t = Inr (e, t')"
    using kind a by (simp add: addImplicitCodingKeys_def)
  from run have v: "validateCodingKeysEnum_enum ?d' (NominalTD (EnumNominal e)) = Inr (True, d1)"
    by (simp add: validateCodingKeysEnum_def Nil add k' dyn_cast_EnumDecl_def Let_def)
  from validateCodingKeysEnum_enum_frame[OF v] obtain new where
    d1: "d1 = ?d'\<lparr>Diags := Diags ?d' @ new\<rparr>" by blast
  have look: "lookupEvaluatedCodingKeysEnum t' Id_CodingKeys = Inr (Some e)"
    using lookupEvaluatedCodingKeysEnum_new[of ?t e] Nil nm t' by simp
  have el: "getAllElements_target t' = getAllElements_target ?t"
    by (simp add: t' getAllElements_target_addMember_nominal)
  have kwf': "keyEnumerationsOnlyCases t'"
    unfolding t' by (rule keyEnumerationsOnlyCases_addMember[OF kwf oc])
  show ?thesis
    by (rule exI[of _ e]) (simp add: d1 look k' el kwf')
next
  case (Cons front rest)
  have rest: "rest = []"
  proof (cases rest)
    case (Cons x xs)
    with run \<open>lookupDirect (Nominal d) Id_CodingKeys = front # rest\<close> show ?thesis
      by (simp add: validateCodingKeysEnum_def)
  qed simp
  note look = Cons[unfolded rest]
  obtain td where td: "dyn_cast_TypeDecl front = Some td"
  proof (cases "dyn_cast_TypeDecl front")
    case None
    with run look show ?thesis by (simp add: validateCodingKeysEnum_def)
  qed simp
  from run have v: "validateCodingKeysEnum_enum d td = Inr (True, d1)"
    using kind by (simp add: validateCodingKeysEnum_def look td dyn_cast_EnumDecl_def)
  from validateCodingKeysEnum_enum_True_type[OF v] obtain e dx where
    ty: "validateCodingKeysType d td = Inr (Some e, dx)" by blast
  from validateCodingKeysType_lookup[OF look td ty] have
    l: "lookupEvaluatedCodingKeysEnum (Nominal d) Id_CodingKeys = Inr (Some e)" by simp
  from validateCodingKeysEnum_enum_frame[OF v] obtain new where
    d1: "d1 = d\<lparr>Diags := Diags d @ new\<rparr>" by blast
  show ?thesis
    by (rule exI[of _ e]) (simp add: d1 l kind kwf)
qed

text \<open>The argument built for a slot that is a key, or that has a default expression.\<close>

lemma deriveBodyDecodable_enum_init_argument_resolved:
  assumes "lookupEnumCase caseCodingKeys (paramIdentifier index paramDecl) \<noteq> None \<or>
           hasDefaultExpr paramDecl"
  shows "deriveBodyDecodable_enum_init_argument caseCodingKeys index paramDecl =
           Inr (case lookupEnumCase caseCodingKeys (paramIdentifier index paramDecl) of
                  None \<Rightarrow> TypeCheckedDefaultExpr paramDecl
                | Some caseCodingKey \<Rightarrow>
                    TryExpr
                      (CallExpr
                         (UnresolvedDotExpr (DeclRefExpr Id_nestedContainer)
                            (CompoundDeclName (Named Id_decode) [[], Id_forKey]))
                         [DotSelfExpr
                            (TypeExpr (InterfaceType (getValueInterfaceType (asVarDecl paramDecl)))),
                          MemberRefExpr (TypeExpr (DeclaredType (enumName caseCodingKeys)))
                            (getBaseIdentifier caseCodingKey)]
                         [[], Id_forKey]))"
  using assms
  by (cases "lookupEnumCase caseCodingKeys (paramIdentifier index paramDecl)")
     (simp_all add: deriveBodyDecodable_enum_init_argument_def)

lemma deriveBodyDecodable_enum_init_params_resolved:
  assumes "slotsResolved caseCodingKeys params"
  shows "deriveBodyDecodable_enum_init_params caseCodingKeys 0 params ([], []) =
           Inr (map (\<lambda>(index, paramDecl).
                       case lookupEnumCase caseCodingKeys (paramIdentifier index paramDecl) of
                         None \<Rightarrow> TypeCheckedDefaultExpr paramDecl
                       | Some caseCodingKey \<Rightarrow>
                           TryExpr
                             (CallExpr
                                (UnresolvedDotExpr (DeclRefExpr Id_nestedContainer)
                                   (CompoundDeclName (Named Id_decode) [[], Id_forKey]))
                                [DotSelfExpr
                                   (TypeExpr
                                      (InterfaceType (getValueInterfaceType (asVarDecl paramDecl)))),
                                 MemberRefExpr (TypeExpr (DeclaredType (enumName caseCodingKeys)))
                                   (getBaseIdentifier caseCodingKey)]
                                [[], Id_forKey]))
                  (enumerate 0 params),
                map (\<lambda>paramDecl. getVarNameForCoding (asVarDecl paramDecl)) params)"
proof -
  from assms have all: "list_all (\<lambda>(i, p). lookupEnumCase caseCodingKeys (paramIdentifier i p) \<noteq> None \<or>
                           hasDefaultExpr p) (enumerate 0 params)"
    by (simp add: slotsResolved_def)
  have "map (\<lambda>(i, p). projr (deriveBodyDecodable_enum_init_argument caseCodingKeys i p))
          (enumerate 0 params) =
        map (\<lambda>(index, paramDecl).
                       case lookupEnumCase caseCodingKeys (paramIdentifier index paramDecl) of
                         None \<Rightarrow> TypeCheckedDefaultExpr paramDecl
                       | Some caseCodingKey \<Rightarrow>
                           TryExpr
                             (CallExpr
                                (UnresolvedDotExpr (DeclRefExpr Id_nestedContainer)
                                   (CompoundDeclName (Named Id_decode) [[], Id_forKey]))
                                [DotSelfExpr
                                   (TypeExpr
                                      (InterfaceType (getValueInterfaceType (asVarDecl paramDecl)))),
                                 MemberRefExpr (TypeExpr (DeclaredType (enumName caseCodingKeys)))
                                   (getBaseIdentifier caseCodingKey)]
                                [[], Id_forKey]))
          (enumerate 0 params)"
  proof (rule map_cong[OF refl])
    fix x assume x: "x \<in> set (enumerate 0 params)"
    obtain i p where ip: "x = (i, p)" by (cases x)
    from all x ip have "lookupEnumCase caseCodingKeys (paramIdentifier i p) \<noteq> None \<or>
                        hasDefaultExpr p"
      by (auto simp: list_all_iff)
    from deriveBodyDecodable_enum_init_argument_resolved[OF this]
    show "(case x of (i, p) \<Rightarrow> projr (deriveBodyDecodable_enum_init_argument caseCodingKeys i p)) =
          (case x of (index, paramDecl) \<Rightarrow>
                       (case lookupEnumCase caseCodingKeys (paramIdentifier index paramDecl) of
                         None \<Rightarrow> TypeCheckedDefaultExpr paramDecl
                       | Some caseCodingKey \<Rightarrow>
                           TryExpr
                             (CallExpr
                                (UnresolvedDotExpr (DeclRefExpr Id_nestedContainer)
                                   (CompoundDeclName (Named Id_decode) [[], Id_forKey]))
                                [DotSelfExpr
                                   (TypeExpr
                                      (InterfaceType (getValueInterfaceType (asVarDecl paramDecl)))),
                                 MemberRefExpr (TypeExpr (DeclaredType (enumName caseCodingKeys)))
                                   (getBaseIdentifier caseCodingKey)]
                                [[], Id_forKey])))"
      by (simp add: ip)
  qed
  with deriveBodyDecodable_enum_init_params_result[OF all, of "[]" "[]"]
  show ?thesis by simp
qed

text \<open>The body of \<open>init(from:)\<close> of a tagged union is built whenever its cases are
  resolved.\<close>

lemma deriveBodyDecodable_enum_init_returns:
  assumes ck: "lookupEvaluatedCodingKeysEnum targetEnum Id_CodingKeys = Inr (Some ck)"
    and res: "casesResolved targetEnum ck"
  shows "\<exists>statements. deriveBodyDecodable_enum_init targetEnum = Inr (statements, [])"
proof (cases "hasCases ck")
  case True
  from deriveBodyDecodable_enum_init_result[OF ck True res] show ?thesis by blast
next
  case False
  then show ?thesis by (simp add: deriveBodyDecodable_enum_init_def ck Let_def)
qed

text \<open>What a successful \<open>canSynthesize\<close> leaves of a tagged union deriving \<open>Decodable\<close>.\<close>

lemma canSynthesize_enum_True:
  assumes proto: "Protocol derived = Decodable"
    and kind: "kind (Nominal derived) = EnumKind"
    and swf: "plainPayloadSlots (Nominal derived)"
    and kwf: "keyEnumerationsOnlyCases (Nominal derived)"
    and run: "canSynthesize derived requirement = Inr (True, derived')"
  shows "\<exists>ck. lookupEvaluatedCodingKeysEnum (Nominal derived') Id_CodingKeys = Inr (Some ck) \<and>
              list_all (caseResolved (Nominal derived')) (getAllElements_target (Nominal derived'))"
proof -
  have nc: "dyn_cast_ClassDecl (Nominal derived) = None"
    using kind by (simp add: dyn_cast_ClassDecl_def)
  obtain d1 where v: "validateCodingKeysEnum derived = Inr (True, d1)"
  proof (cases "validateCodingKeysEnum derived")
    case (Inl c)
    with run show ?thesis by (simp add: canSynthesize_def nc proto Let_def)
  next
    case (Inr r)
    obtain b d1 where r: "r = (b, d1)" by (cases r)
    with run Inr that show ?thesis by (cases b) (simp_all add: canSynthesize_def nc proto Let_def)
  qed
  from validateCodingKeysEnum_enum_True[OF v kind kwf] obtain ck where
    look1: "lookupEvaluatedCodingKeysEnum (Nominal d1) Id_CodingKeys = Inr (Some ck)"
    and p1: "Protocol d1 = Protocol derived" and k1: "kind (Nominal d1) = EnumKind"
    and el1: "getAllElements_target (Nominal d1) = getAllElements_target (Nominal derived)"
    and kwf1: "keyEnumerationsOnlyCases (Nominal d1)"
    by blast
  from run have loop: "canSynthesize_elements (getAllElements_target (Nominal d1)) [] (True, d1) =
                         Inr (True, derived')"
    by (simp add: canSynthesize_def nc proto v k1 dyn_cast_EnumDecl_def Let_def)
  have swf1: "list_all (\<lambda>elt. case getParameterList elt of None \<Rightarrow> True
                         | Some ps \<Rightarrow> list_all plainPayloadSlot ps)
                (getAllElements_target (Nominal d1))"
    using swf by (simp add: plainPayloadSlots_def el1)
  from canSynthesize_elements_True[OF loop _ k1 kwf1 swf1] p1 proto have
    el: "getAllElements_target (Nominal derived') = getAllElements_target (Nominal d1)"
    and look: "\<And>n x. lookupEvaluatedCodingKeysEnum (Nominal d1) n = Inr (Some x) \<Longrightarrow>
                lookupEvaluatedCodingKeysEnum (Nominal derived') n = Inr (Some x)"
    and res: "list_all (caseResolved (Nominal derived')) (getAllElements_target (Nominal d1))"
    by simp_all
  show ?thesis
    by (rule exI[of _ ck]) (simp add: look[OF look1] el res)
qed

text \<open>
  What validation does establish. For a tagged union that derives \<open>Decodable\<close>, whose
  payload slots are plain parameters and whose key enumerations declare nothing but their
  cases: when \<open>canSynthesize\<close> succeeds, the body of \<open>init(from:)\<close> is built on the
  resulting type and no assertion stops it. For every case that is a key of \<open>CodingKeys\<close>
  the key enumeration of the case is found, every slot that is no key of it has a default
  expression, and the arguments built for the slots are, slot by slot, the default
  expression of a slot that is no key and otherwise the call of \<open>decode\<close> on the nested
  container of the case.
\<close>

lemma canSynthesize_resolves_payload_slots:
  assumes "Protocol derived = Decodable"
    and "kind (Nominal derived) = EnumKind"
    and "plainPayloadSlots (Nominal derived)"
    and "keyEnumerationsOnlyCases (Nominal derived)"
    and "canSynthesize derived requirement = Inr (True, derived')"
  shows "\<exists>codingKeysEnum statements.
     lookupEvaluatedCodingKeysEnum (Nominal derived') Id_CodingKeys = Inr (Some codingKeysEnum) \<and>
     deriveBodyDecodable_enum_init (Nominal derived') = Inr (statements, []) \<and>
     (\<forall>elt \<in> set (getAllElements_target (Nominal derived')).
        lookupEnumCase codingKeysEnum (getBaseIdentifier elt) \<noteq> None \<longrightarrow>
        (\<exists>caseCodingKeys.
           lookupEvaluatedCodingKeysEnum (Nominal derived') (caseCodingKeysIdentifier elt) =
             Inr (Some caseCodingKeys) \<and>
           (\<forall>params. getParameterList elt = Some params \<longrightarrow>
              (\<forall>index < length params.
                 lookupEnumCase caseCodingKeys (paramIdentifier index (params ! index)) = None \<longrightarrow>
                 hasDefaultExpr (params ! index)) \<and>
              deriveBodyDecodable_enum_init_params caseCodingKeys 0 params ([], []) =
                Inr (map (\<lambda>(index, paramDecl).
                       case lookupEnumCase caseCodingKeys (paramIdentifier index paramDecl) of
                         None \<Rightarrow> TypeCheckedDefaultExpr paramDecl
                       | Some caseCodingKey \<Rightarrow>
                           TryExpr
                             (CallExpr
                                (UnresolvedDotExpr (DeclRefExpr Id_nestedContainer)
                                   (CompoundDeclName (Named Id_decode) [[], Id_forKey]))
                                [DotSelfExpr
                                   (TypeExpr
                                      (InterfaceType (getValueInterfaceType (asVarDecl paramDecl)))),
                                 MemberRefExpr (TypeExpr (DeclaredType (enumName caseCodingKeys)))
                                   (getBaseIdentifier caseCodingKey)]
                                [[], Id_forKey]))
                       (enumerate 0 params),
                     map (\<lambda>paramDecl. getVarNameForCoding (asVarDecl paramDecl)) params))))"
proof -
  let ?t = "Nominal derived'"
  from canSynthesize_enum_True[OF assms] obtain ck where
    look: "lookupEvaluatedCodingKeysEnum ?t Id_CodingKeys = Inr (Some ck)"
    and res: "list_all (caseResolved ?t) (getAllElements_target ?t)"
    by blast
  from res have cr: "casesResolved ?t ck" by (simp add: casesResolved_def list_all_iff)
  from deriveBodyDecodable_enum_init_returns[OF look cr] obtain statements where
    body: "deriveBodyDecodable_enum_init ?t = Inr (statements, [])" by blast
  have slots: "\<exists>caseCodingKeys.
           lookupEvaluatedCodingKeysEnum ?t (caseCodingKeysIdentifier elt) = Inr (Some caseCodingKeys) \<and>
           (\<forall>params. getParameterList elt = Some params \<longrightarrow>
              (\<forall>index < length params.
                 lookupEnumCase caseCodingKeys (paramIdentifier index (params ! index)) = None \<longrightarrow>
                 hasDefaultExpr (params ! index)) \<and>
              deriveBodyDecodable_enum_init_params caseCodingKeys 0 params ([], []) =
                Inr (map (\<lambda>(index, paramDecl).
                       case lookupEnumCase caseCodingKeys (paramIdentifier index paramDecl) of
                         None \<Rightarrow> TypeCheckedDefaultExpr paramDecl
                       | Some caseCodingKey \<Rightarrow>
                           TryExpr
                             (CallExpr
                                (UnresolvedDotExpr (DeclRefExpr Id_nestedContainer)
                                   (CompoundDeclName (Named Id_decode) [[], Id_forKey]))
                                [DotSelfExpr
                                   (TypeExpr
                                      (InterfaceType (getValueInterfaceType (asVarDecl paramDecl)))),
                                 MemberRefExpr (TypeExpr (DeclaredType (enumName caseCodingKeys)))
                                   (getBaseIdentifier caseCodingKey)]
                                [[], Id_forKey]))
                       (enumerate 0 params),
                     map (\<lambda>paramDecl. getVarNameForCoding (asVarDecl paramDecl)) params))"
    if elt: "elt \<in> set (getAllElements_target ?t)" for elt
  proof -
    from res elt have "caseResolved ?t elt" by (simp add: list_all_iff)
    then obtain cck where
      cck: "lookupEvaluatedCodingKeysEnum ?t (caseCodingKeysIdentifier elt) = Inr (Some cck)"
      and sl: "case getParameterList elt of None \<Rightarrow> True | Some ps \<Rightarrow> slotsResolved cck ps"
      by (auto simp: caseResolved_def split: sum.splits option.splits)
    have "(\<forall>index < length params.
                 lookupEnumCase cck (paramIdentifier index (params ! index)) = None \<longrightarrow>
                 hasDefaultExpr (params ! index))"
      if ps: "getParameterList elt = Some params" for params
    proof (intro allI impI)
      fix index assume i: "index < length params"
        and none: "lookupEnumCase cck (paramIdentifier index (params ! index)) = None"
      from sl ps have "slotsResolved cck params" by simp
      moreover from i have "(index, params ! index) \<in> set (enumerate 0 params)"
        by (simp add: in_set_enumerate_eq)
      ultimately have "lookupEnumCase cck (paramIdentifier index (params ! index)) \<noteq> None \<or>
                       hasDefaultExpr (params ! index)"
        by (auto simp: slotsResolved_def list_all_iff)
      with none show "hasDefaultExpr (params ! index)" by simp
    qed
    moreover have "slotsResolved cck params" if "getParameterList elt = Some params" for params
      using sl that by simp
    ultimately show ?thesis
      using cck deriveBodyDecodable_enum_init_params_resolved[of cck]
      by (intro exI[of _ cck] conjI allI impI) simp_all
  qed
  show ?thesis
    by (rule exI[of _ ck], rule exI[of _ statements]) (intro conjI look body ballI impI slots)
qed

lemma exDefaultedPayload_canSynthesize:
  "canSynthesize exDefaultedPayload exInitRequirement = Inr (True, exDefaultedPayloadChecked)"
  by (simp add: canSynthesize_def exDefaultedPayload_def exDefaultedPayloadChecked_def
      dyn_cast_ClassDecl_def dyn_cast_EnumDecl_def validateCodingKeysEnum_def lookupDirect_def
      addImplicitCodingKeys_def addImplicitCodingKeys_enum_def getAllElements_target_def
      List.map_filter_def addMember_enum_def checkConformancesInContext_def addMember_def
      validateCodingKeysEnum_enum_def validateCodingKeysType_def getAllElements_def keyEnum_def
      validateCaseCodingKeysEnum_def lookupEvaluatedCodingKeysEnum_def caseCodingKeysIdentifier_def
      toUpper_a toUpper_C validateCodingKeysEnum_varDecls_def paramIdentifier_def getVarNameForCoding_def
      paramVar_def mv_assign_def mv_find_def mv_erase_def Let_def)

lemma exDefaultedPayload_elements:
  "getAllElements_target (Nominal exDefaultedPayloadChecked) =
     [EnumElementDecl ''a''
        (Some [ParamDecl (paramVar ''x'' TyInt) False, ParamDecl (paramVar ''y'' TyInt) True])]"
  by (simp add: exDefaultedPayloadChecked_def exDefaultedPayload_def getAllElements_target_def
      addMember_def List.map_filter_def)

lemma exDefaultedPayload_CodingKeys:
  "lookupEvaluatedCodingKeysEnum (Nominal exDefaultedPayloadChecked) Id_CodingKeys =
     Inr (Some (keyEnum ''CodingKeys'' [''a''] True))"
  by (simp add: exDefaultedPayloadChecked_def exDefaultedPayload_def lookupEvaluatedCodingKeysEnum_def
      lookupDirect_def addMember_def keyEnum_def)

lemma exDefaultedPayload_ACodingKeys:
  "lookupEvaluatedCodingKeysEnum (Nominal exDefaultedPayloadChecked) ''ACodingKeys'' =
     Inr (Some (keyEnum ''ACodingKeys'' [''x''] False))"
  by (simp add: exDefaultedPayloadChecked_def exDefaultedPayload_def lookupEvaluatedCodingKeysEnum_def
      lookupDirect_def addMember_def keyEnum_def)

lemma exDefaultedPayload_plain:
  "plainPayloadSlots (Nominal exDefaultedPayload) \<and>
   keyEnumerationsOnlyCases (Nominal exDefaultedPayload)"
  by (simp add: plainPayloadSlots_def keyEnumerationsOnlyCases_def exDefaultedPayload_def
      getAllElements_target_def List.map_filter_def plainPayloadSlot_def paramVar_def
      onlyCases_def keyEnum_def)

text \<open>In the example the slot \<open>x\<close> is decoded from the nested container and the slot
  \<open>y\<close> gets its default expression.\<close>

lemma exDefaultedPayload_resolved:
  "Protocol exDefaultedPayload = Decodable \<and>
   kind (Nominal exDefaultedPayload) = EnumKind \<and>
   plainPayloadSlots (Nominal exDefaultedPayload) \<and>
   keyEnumerationsOnlyCases (Nominal exDefaultedPayload) \<and>
   canSynthesize exDefaultedPayload exInitRequirement = Inr (True, exDefaultedPayloadChecked) \<and>
   lookupEvaluatedCodingKeysEnum (Nominal exDefaultedPayloadChecked) Id_CodingKeys =
     Inr (Some (keyEnum ''CodingKeys'' [''a''] True)) \<and>
   (\<exists>statements.
      deriveBodyDecodable_enum_init (Nominal exDefaultedPayloadChecked) = Inr (statements, [])) \<and>
   lookupEvaluatedCodingKeysEnum (Nominal exDefaultedPayloadChecked) ''ACodingKeys'' =
     Inr (Some (keyEnum ''ACodingKeys'' [''x''] False)) \<and>
   lookupEnumCase (keyEnum ''ACodingKeys'' [''x''] False) ''y'' = None \<and>
   hasDefaultExpr (ParamDecl (paramVar ''y'' TyInt) True) \<and>
   deriveBodyDecodable_enum_init_params (keyEnum ''ACodingKeys'' [''x''] False) 0
     [ParamDecl (paramVar ''x'' TyInt) False, ParamDecl (paramVar ''y'' TyInt) True] ([], []) =
     Inr ([TryExpr
             (CallExpr
                (UnresolvedDotExpr (DeclRefExpr Id_nestedContainer)
                   (CompoundDeclName (Named Id_decode) [[], Id_forKey]))
                [DotSelfExpr (TypeExpr (InterfaceType TyInt)),
                 MemberRefExpr (TypeExpr (DeclaredType ''ACodingKeys'')) ''x'']
                [[], Id_forKey]),
           TypeCheckedDefaultExpr (ParamDecl (paramVar ''y'' TyInt) True)],
          [''x'', ''y''])"
proof -
  let ?px = "ParamDecl (paramVar ''x'' TyInt) False"
  let ?py = "ParamDecl (paramVar ''y'' TyInt) True"
  let ?a = "EnumElementDecl ''a'' (Some [?px, ?py])"
  let ?t = "Nominal exDefaultedPayloadChecked"
  have h1: "Protocol exDefaultedPayload = Decodable"
    and h2: "kind (Nominal exDefaultedPayload) = EnumKind"
    by (simp_all add: exDefaultedPayload_def)
  have h3: "plainPayloadSlots (Nominal exDefaultedPayload)"
    and h4: "keyEnumerationsOnlyCases (Nominal exDefaultedPayload)"
    using exDefaultedPayload_plain by simp_all
  note h5 = exDefaultedPayload_canSynthesize
  from canSynthesize_resolves_payload_slots[OF h1 h2 h3 h4 h5] obtain ck statements where
    look: "lookupEvaluatedCodingKeysEnum ?t Id_CodingKeys = Inr (Some ck)"
    and body: "deriveBodyDecodable_enum_init ?t = Inr (statements, [])"
    and slots: "\<And>elt. elt \<in> set (getAllElements_target ?t) \<Longrightarrow>
        lookupEnumCase ck (getBaseIdentifier elt) \<noteq> None \<Longrightarrow>
        (\<exists>caseCodingKeys.
           lookupEvaluatedCodingKeysEnum ?t (caseCodingKeysIdentifier elt) =
             Inr (Some caseCodingKeys) \<and>
           (\<forall>params. getParameterList elt = Some params \<longrightarrow>
              (\<forall>index < length params.
                 lookupEnumCase caseCodingKeys (paramIdentifier index (params ! index)) = None \<longrightarrow>
                 hasDefaultExpr (params ! index)) \<and>
              deriveBodyDecodable_enum_init_params caseCodingKeys 0 params ([], []) =
                Inr (map (\<lambda>(index, paramDecl).
                       case lookupEnumCase caseCodingKeys (paramIdentifier index paramDecl) of
                         None \<Rightarrow> TypeCheckedDefaultExpr paramDecl
                       | Some caseCodingKey \<Rightarrow>
                           TryExpr
                             (CallExpr
                                (UnresolvedDotExpr (DeclRefExpr Id_nestedContainer)
                                   (CompoundDeclName (Named Id_decode) [[], Id_forKey]))
                                [DotSelfExpr
                                   (TypeExpr
                                      (InterfaceType (getValueInterfaceType (asVarDecl paramDecl)))),
                                 MemberRefExpr (TypeExpr (DeclaredType (enumName caseCodingKeys)))
                                   (getBaseIdentifier caseCodingKey)]
                                [[], Id_forKey]))
                       (enumerate 0 params),
                     map (\<lambda>paramDecl. getVarNameForCoding (asVarDecl paramDecl)) params)))"
    by blast
  from look have ck: "ck = keyEnum ''CodingKeys'' [''a''] True"
    by (simp add: exDefaultedPayload_CodingKeys)
  have mem: "?a \<in> set (getAllElements_target ?t)"
    by (simp add: exDefaultedPayload_elements)
  have keyed: "lookupEnumCase ck (getBaseIdentifier ?a) \<noteq> None"
    by (simp add: ck lookupEnumCase_def lookupDirect_enum_def keyEnum_def)
  have cckn: "caseCodingKeysIdentifier ?a = ''ACodingKeys''"
    by (simp add: caseCodingKeysIdentifier_def toUpper_a toUpper_C)
  from slots[OF mem keyed] obtain cck where
    l: "lookupEvaluatedCodingKeysEnum ?t (caseCodingKeysIdentifier ?a) = Inr (Some cck)"
    and ps: "\<And>params. getParameterList ?a = Some params \<Longrightarrow>
              (\<forall>index < length params.
                 lookupEnumCase cck (paramIdentifier index (params ! index)) = None \<longrightarrow>
                 hasDefaultExpr (params ! index)) \<and>
              deriveBodyDecodable_enum_init_params cck 0 params ([], []) =
                Inr (map (\<lambda>(index, paramDecl).
                       case lookupEnumCase cck (paramIdentifier index paramDecl) of
                         None \<Rightarrow> TypeCheckedDefaultExpr paramDecl
                       | Some caseCodingKey \<Rightarrow>
                           TryExpr
                             (CallExpr
                                (UnresolvedDotExpr (DeclRefExpr Id_nestedContainer)
                                   (CompoundDeclName (Named Id_decode) [[], Id_forKey]))
                                [DotSelfExpr
                                   (TypeExpr
                                      (InterfaceType (getValueInterfaceType (asVarDecl paramDecl)))),
                                 MemberRefExpr (TypeExpr (DeclaredType (enumName cck)))
                                   (getBaseIdentifier caseCodingKey)]
                                [[], Id_forKey]))
                       (enumerate 0 params),
                     map (\<lambda>paramDecl. getVarNameForCoding (asVarDecl paramDecl)) params)"
    by blast
  from l have cck: "cck = keyEnum ''ACodingKeys'' [''x''] False"
    by (simp add: cckn exDefaultedPayload_ACodingKeys)
  have idx: "paramIdentifier 0 ?px = ''x''" and idy: "paramIdentifier (Suc 0) ?py = ''y''"
    by (simp_all add: paramIdentifier_def getVarNameForCoding_def paramVar_def)
  have lx: "lookupEnumCase (keyEnum ''ACodingKeys'' [''x''] False) ''x'' =
              Some (EnumElementDecl ''x'' None)"
    and ly: "lookupEnumCase (keyEnum ''ACodingKeys'' [''x''] False) ''y'' = None"
    by (simp_all add: lookupEnumCase_def lookupDirect_enum_def keyEnum_def)
  have nm: "enumName (keyEnum ''ACodingKeys'' [''x''] False) = ''ACodingKeys''"
    by (simp add: keyEnum_def)
  have tys: "getValueInterfaceType (asVarDecl ?px) = TyInt"
    "getVarNameForCoding (asVarDecl ?px) = ''x''" "getVarNameForCoding (asVarDecl ?py) = ''y''"
    by (simp_all add: paramVar_def getVarNameForCoding_def)
  have "getParameterList ?a = Some [?px, ?py]" by simp
  from ps[OF this] have
    d: "\<forall>index < length [?px, ?py].
          lookupEnumCase cck (paramIdentifier index ([?px, ?py] ! index)) = None \<longrightarrow>
          hasDefaultExpr ([?px, ?py] ! index)"
    and run: "deriveBodyDecodable_enum_init_params cck 0 [?px, ?py] ([], []) =
                Inr (map (\<lambda>(index, paramDecl).
                       case lookupEnumCase cck (paramIdentifier index paramDecl) of
                         None \<Rightarrow> TypeCheckedDefaultExpr paramDecl
                       | Some caseCodingKey \<Rightarrow>
                           TryExpr
                             (CallExpr
                                (UnresolvedDotExpr (DeclRefExpr Id_nestedContainer)
                                   (CompoundDeclName (Named Id_decode) [[], Id_forKey]))
                                [DotSelfExpr
                                   (TypeExpr
                                      (InterfaceType (getValueInterfaceType (asVarDecl paramDecl)))),
                                 MemberRefExpr (TypeExpr (DeclaredType (enumName cck)))
                                   (getBaseIdentifier caseCodingKey)]
                                [[], Id_forKey]))
                       (enumerate 0 [?px, ?py]),
                     map (\<lambda>paramDecl. getVarNameForCoding (asVarDecl paramDecl)) [?px, ?py])"
    by simp_all
  from d[rule_format, of "Suc 0"] have def: "hasDefaultExpr ?py"
    by (simp add: cck idy ly)
  from run have args: "deriveBodyDecodable_enum_init_params (keyEnum ''ACodingKeys'' [''x''] False) 0
     [?px, ?py] ([], []) =
     Inr ([TryExpr
             (CallExpr
                (UnresolvedDotExpr (DeclRefExpr Id_nestedContainer)
                   (CompoundDeclName (Named Id_decode) [[], Id_forKey]))
                [DotSelfExpr (TypeExpr (InterfaceType TyInt)),
                 MemberRefExpr (TypeExpr (DeclaredType ''ACodingKeys'')) ''x'']
                [[], Id_forKey]),
           TypeCheckedDefaultExpr ?py],
          [''x'', ''y''])"
    unfolding cck by (simp only: enumerate_simps list.map prod.case idx idy lx ly option.case nm tys
        EnumElementDecl.sel)
  have b: "\<exists>statements. deriveBodyDecodable_enum_init ?t = Inr (statements, [])"
    using body by blast
  show ?thesis
    by (intro conjI h1 h2 h3 h4 h5 exDefaultedPayload_CodingKeys b exDefaultedPayload_ACodingKeys
        ly def args)
qed

text \<open>
  Claim C9 fails on the code. Validation reads the keys of a key enumeration with
  \<open>getAllElements\<close> and the body of \<open>init(from:)\<close> looks a key up with \<open>lookupEnumCase\<close>,
  which is the first declaration of that name when it is a case. In the example
  \<open>canSynthesize\<close> succeeds with no diagnostic, the slot \<open>x\<close> having its key; the body finds
  no key for \<open>x\<close>, the slot has no default expression, and the assertion
  \<open>paramDecl->hasDefaultExpr()\<close> fails.
\<close>

theorem enum_init_shadowed_key_assertion:
  "canSynthesize exShadowedKey exInitRequirement = Inr (True, exShadowedKeyChecked) \<and>
   Diags exShadowedKeyChecked = [] \<and>
   lookupEvaluatedCodingKeysEnum (Nominal exShadowedKeyChecked) ''ACodingKeys'' =
     Inr (Some exShadowedKeys) \<and>
   getAllElements exShadowedKeys = [EnumElementDecl ''x'' None] \<and>
   lookupEnumCase exShadowedKeys ''x'' = None \<and>
   hasDefaultExpr (ParamDecl (paramVar ''x'' TyInt) False) = False \<and>
   deriveBodyDecodable_enum_init (Nominal exShadowedKeyChecked) =
     Inl (AssertionFailed ''paramDecl->hasDefaultExpr()'') \<and>
   synthesizedBody (deriveDecodable exShadowedKey exInitRequirement) =
     Some (Inl (AssertionFailed ''paramDecl->hasDefaultExpr()''))"
proof -
  have can: "canSynthesize exShadowedKey exInitRequirement = Inr (True, exShadowedKeyChecked)"
    by (simp add: canSynthesize_def exShadowedKey_def exShadowedKeyChecked_def exShadowedKeys_def
      dyn_cast_ClassDecl_def dyn_cast_EnumDecl_def validateCodingKeysEnum_def lookupDirect_def
      addImplicitCodingKeys_def addImplicitCodingKeys_enum_def getAllElements_target_def
      List.map_filter_def addMember_enum_def checkConformancesInContext_def addMember_def
      validateCodingKeysEnum_enum_def validateCodingKeysType_def getAllElements_def keyEnum_def
      validateCaseCodingKeysEnum_def lookupEvaluatedCodingKeysEnum_def caseCodingKeysIdentifier_def
      toUpper_a toUpper_C validateCodingKeysEnum_varDecls_def paramIdentifier_def
      getVarNameForCoding_def paramVar_def mv_assign_def mv_find_def mv_erase_def Let_def)
  have diags: "Diags exShadowedKeyChecked = []"
    by (simp add: exShadowedKeyChecked_def exShadowedKey_def)
  have look: "lookupEvaluatedCodingKeysEnum (Nominal exShadowedKeyChecked) ''ACodingKeys'' =
                Inr (Some exShadowedKeys)"
    by (simp add: exShadowedKeyChecked_def exShadowedKey_def exShadowedKeys_def
        lookupEvaluatedCodingKeysEnum_def lookupDirect_def addMember_def keyEnum_def)
  have keys: "getAllElements exShadowedKeys = [EnumElementDecl ''x'' None]"
    by (simp add: getAllElements_def exShadowedKeys_def List.map_filter_def)
  have none: "lookupEnumCase exShadowedKeys ''x'' = None"
    by (simp add: lookupEnumCase_def lookupDirect_enum_def exShadowedKeys_def)
  have nodef: "hasDefaultExpr (ParamDecl (paramVar ''x'' TyInt) False) = False" by simp
  have body: "deriveBodyDecodable_enum_init (Nominal exShadowedKeyChecked) =
                Inl (AssertionFailed ''paramDecl->hasDefaultExpr()'')"
    by code_simp
  have whole: "synthesizedBody (deriveDecodable exShadowedKey exInitRequirement) =
                 Some (Inl (AssertionFailed ''paramDecl->hasDefaultExpr()''))"
    by code_simp
  show ?thesis
    by (intro conjI can diags look keys none nodef body whole)
qed

end
